(* ===== verification/Prelude.thy ===== *)
theory Prelude
  imports Main "HOL-Library.Word" "HOL-Library.Sublist" "HOL-Library.Char_ord" "HOL-Library.Monad_Syntax"
begin

text \<open>
  Shared vocabulary of the development: bytes and C strings, the functions of the C library
  the program calls, and the lemmas about them that every component reuses.

  A byte is a value of type \<open>char\<close> (eight bits in HOL), a buffer of bytes is a \<open>string\<close>. A C
  string is the list of its bytes before the terminating NUL; a pointer into a C string is the
  suffix that starts there, so \<open>p < q\<close> on pointers into one string is \<open>length p > length q\<close> on
  suffixes. A pointer that the code compares with NULL is an \<open>option\<close>. A \<open>size_t\<close> is a \<open>nat\<close>:
  every size in the program is bounded by a buffer of at most a few megabytes, far below
  two to the 64; integers whose width matters (the 16 and 32 bit fields of firmware
  tables, masks, \<open>unsigned int\<close> generations) are machine words.
\<close>

unbundle bit_operations_syntax

named_theorems cstring_simps \<open>evaluation of the C string functions\<close>
named_theorems row_simps \<open>rows a check emits\<close>

type_synonym bytes = string
type_synonym cptr = "string option"
type_synonym u16 = "16 word"
type_synonym u32 = "32 word"
type_synonym u64 = "64 word"

section \<open>Characters\<close>

abbreviation NUL :: char where "NUL \<equiv> CHR 0x00"
abbreviation TAB :: char where "TAB \<equiv> CHR 0x09"
abbreviation LF :: char where "LF \<equiv> CHR 0x0A"
abbreviation CR :: char where "CR \<equiv> CHR 0x0D"
abbreviation SP :: char where "SP \<equiv> CHR 0x20"
abbreviation DQ :: char where "DQ \<equiv> CHR 0x22"
abbreviation SQ :: char where "SQ \<equiv> CHR 0x27"
abbreviation BSL :: char where "BSL \<equiv> CHR 0x5C"

text \<open>\<open><ctype.h>\<close> in the C locale.\<close>

definition byte_val :: "char \<Rightarrow> nat" where
  "byte_val c = of_char c"

definition c_isspace :: "char \<Rightarrow> bool" where
  "c_isspace c \<longleftrightarrow> c = SP \<or> c = TAB \<or> c = LF \<or> c = CHR 0x0B \<or> c = CHR 0x0C \<or> c = CR"

definition c_isdigit :: "char \<Rightarrow> bool" where
  "c_isdigit c \<longleftrightarrow> CHR ''0'' \<le> c \<and> c \<le> CHR ''9''"

definition c_isupper :: "char \<Rightarrow> bool" where
  "c_isupper c \<longleftrightarrow> CHR ''A'' \<le> c \<and> c \<le> CHR ''Z''"

definition c_isalnum :: "char \<Rightarrow> bool" where
  "c_isalnum c \<longleftrightarrow> c_isdigit c \<or> c_isupper c \<or> (CHR ''a'' \<le> c \<and> c \<le> CHR ''z'')"

definition c_tolower :: "char \<Rightarrow> char" where
  "c_tolower c = (if c_isupper c then char_of (byte_val c + 32) else c)"

definition is_blank :: "char \<Rightarrow> bool" where
  "is_blank c \<longleftrightarrow> c = SP \<or> c = TAB"

definition is_eol :: "char \<Rightarrow> bool" where
  "is_eol c \<longleftrightarrow> c = CR \<or> c = LF"

section \<open>Strings\<close>

text \<open>The C string stored in a buffer: the bytes before the first NUL.\<close>

definition cstr :: "bytes \<Rightarrow> string" where
  "cstr b = takeWhile (\<lambda>c. c \<noteq> NUL) b"

text \<open>
  \<open>strstr\<close> and \<open>strchr\<close> return the suffix at the first match; \<open>strcspn_tok\<close> is the token that
  \<open>strcspn\<close> measures.
\<close>

fun strstr :: "string \<Rightarrow> string \<Rightarrow> string option" where
  "strstr [] n = (if n = [] then Some [] else None)"
| "strstr (c # cs) n = (if prefix n (c # cs) then Some (c # cs) else strstr cs n)"

definition has_sub :: "string \<Rightarrow> string \<Rightarrow> bool" where
  "has_sub h n \<longleftrightarrow> strstr h n \<noteq> None"

fun strchr :: "string \<Rightarrow> char \<Rightarrow> string option" where
  "strchr [] c = None"
| "strchr (d # ds) c = (if d = c then Some (d # ds) else strchr ds c)"

text \<open>\<open>strncmp(a, b, n) == 0\<close> where \<open>n\<close> is the length of the literal \<open>b\<close>.\<close>

definition starts_with :: "string \<Rightarrow> string \<Rightarrow> bool" where
  "starts_with s p \<longleftrightarrow> prefix p s"

text \<open>\<open>snprintf(out, size, "%s", s)\<close>: what the buffer then holds; the call returns \<open>length s\<close>.\<close>

definition snprintf_s :: "nat \<Rightarrow> string \<Rightarrow> string" where
  "snprintf_s sz s = take (sz - 1) s"

text \<open>\<open>"%.Ns"\<close>.\<close>

definition prec_s :: "nat \<Rightarrow> string \<Rightarrow> string" where
  "prec_s n s = take n s"

section \<open>Numbers in text\<close>

definition digit_char :: "nat \<Rightarrow> char" where
  "digit_char d = char_of (48 + d)"

definition digit_val :: "char \<Rightarrow> nat" where
  "digit_val c = byte_val c - 48"

text \<open>\<open>%u\<close>, \<open>%zu\<close> and \<open>%lu\<close>.\<close>

fun dec_nat :: "nat \<Rightarrow> string" where
  "dec_nat n = (if n < 10 then [digit_char n] else dec_nat (n div 10) @ [digit_char (n mod 10)])"

declare dec_nat.simps [simp del]

definition hex_digit_upper :: "nat \<Rightarrow> char" where
  "hex_digit_upper d = (if d < 10 then char_of (48 + d) else char_of (55 + d))"

definition hex_digit_lower :: "nat \<Rightarrow> char" where
  "hex_digit_lower d = (if d < 10 then char_of (48 + d) else char_of (87 + d))"

text \<open>\<open>%04X\<close> of a 16 bit value.\<close>

definition hex4_upper :: "nat \<Rightarrow> string" where
  "hex4_upper n = [hex_digit_upper (n div 4096 mod 16), hex_digit_upper (n div 256 mod 16),
                   hex_digit_upper (n div 16 mod 16), hex_digit_upper (n mod 16)]"

definition c_isxdigit :: "char \<Rightarrow> bool" where
  "c_isxdigit c \<longleftrightarrow> c_isdigit c \<or> (CHR ''a'' \<le> c \<and> c \<le> CHR ''f'') \<or> (CHR ''A'' \<le> c \<and> c \<le> CHR ''F'')"

definition xdigit_val :: "char \<Rightarrow> nat" where
  "xdigit_val c = (if c_isdigit c then byte_val c - 48
                   else if c_isupper c then byte_val c - 55 else byte_val c - 87)"

definition num_val :: "nat \<Rightarrow> (char \<Rightarrow> nat) \<Rightarrow> string \<Rightarrow> nat" where
  "num_val base val ds = foldl (\<lambda>a c. a * base + val c) 0 ds"

definition ULONG_MAX :: nat where "ULONG_MAX = 2 ^ 64 - 1"

definition UINT_MAX :: nat where "UINT_MAX = 2 ^ 32 - 1"

text \<open>
  \<open>strtoul(s, &end, base)\<close> for the bases 10 and 16 on a 64 bit host: leading white space, an
  optional sign (a minus negates modulo two to the 64), an optional \<open>0x\<close> in base 16, saturation
  at \<open>ULONG_MAX\<close>. The result is the value and the end pointer; without a digit the end pointer
  is \<open>s\<close> itself.
\<close>

definition strtoul_digits :: "bool \<Rightarrow> nat \<Rightarrow> nat" where
  "strtoul_digits neg v = (if v > ULONG_MAX then ULONG_MAX else if neg then (2 ^ 64 - v) mod 2 ^ 64 else v)"

definition strtoul :: "nat \<Rightarrow> string \<Rightarrow> nat \<times> string" where
  "strtoul base s =
     (let p = dropWhile c_isspace s;
          neg = (p \<noteq> [] \<and> hd p = CHR ''-'');
          q = (if p \<noteq> [] \<and> (hd p = CHR ''-'' \<or> hd p = CHR ''+'') then tl p else p);
          isd = (if base = 16 then c_isxdigit else c_isdigit);
          val = (if base = 16 then xdigit_val else digit_val);
          r = (if base = 16 \<and> length q > 2 \<and> hd q = CHR ''0'' \<and>
                  (q ! 1 = CHR ''x'' \<or> q ! 1 = CHR ''X'') \<and> c_isxdigit (q ! 2)
               then drop 2 q else q);
          ds = takeWhile isd r
      in if ds = [] then (0, s)
         else (strtoul_digits neg (num_val base val ds), dropWhile isd r))"

section \<open>Lemmas on bytes\<close>

lemma byte_val_less [simp]: "byte_val c < 256"
  by (simp add: byte_val_def)

lemma char_of_byte_val [simp]: "char_of (byte_val c) = c"
  by (simp add: byte_val_def)

lemma byte_val_char_of: "n < 256 \<Longrightarrow> byte_val (char_of n) = n"
  by (simp add: byte_val_def)

lemma byte_val_eq_iff [simp]: "byte_val a = byte_val b \<longleftrightarrow> a = b"
  by (metis char_of_byte_val)

lemma char_le_iff: "a \<le> b \<longleftrightarrow> byte_val a \<le> byte_val b"
  by (simp add: byte_val_def less_eq_char_def)

lemma byte_val_c_tolower: "byte_val (c_tolower c) = (if c_isupper c then byte_val c + 32 else byte_val c)"
  by (auto simp: c_tolower_def c_isupper_def char_le_iff byte_val_char_of) (auto simp: byte_val_def)

lemma c_isupper_iff: "c_isupper c \<longleftrightarrow> 65 \<le> byte_val c \<and> byte_val c \<le> 90"
  by (simp add: c_isupper_def char_le_iff) (simp add: byte_val_def)

lemma c_tolower_not_upper [simp]: "\<not> c_isupper (c_tolower c)"
  by (simp add: c_isupper_iff byte_val_c_tolower)

lemma c_tolower_idem [simp]: "c_tolower (c_tolower c) = c_tolower c"
  using c_tolower_not_upper [of c] by (simp add: c_tolower_def [of "c_tolower c"])

lemma byte_val_0_iff: "byte_val c = 0 \<longleftrightarrow> c = NUL"
  using byte_val_eq_iff [of c NUL] by (simp add: byte_val_def)

lemma c_tolower_NUL: "c_tolower c = NUL \<longleftrightarrow> c = NUL"
  by (simp add: byte_val_0_iff [symmetric] byte_val_c_tolower c_isupper_iff)

section \<open>Lemmas on strings\<close>

lemma NUL_notin_cstr [simp]: "NUL \<notin> set (cstr b)"
  unfolding cstr_def by (auto dest: set_takeWhileD)

lemma length_cstr_le: "length (cstr b) \<le> length b"
  by (simp add: cstr_def length_takeWhile_le)

lemma cstr_id: "NUL \<notin> set s \<Longrightarrow> cstr s = s"
  by (auto simp: cstr_def takeWhile_eq_all_conv)

lemma strstr_Nil_needle [simp]: "strstr s [] = Some s"
  by (cases s) auto

lemma strstr_SomeD: "strstr h n = Some s \<Longrightarrow> prefix n s \<and> suffix s h"
  by (induction h n rule: strstr.induct) (auto simp: suffix_Cons split: if_splits)

lemma strstr_length: "strstr h n = Some s \<Longrightarrow> length s \<le> length h"
  by (auto dest!: strstr_SomeD suffix_length_le)

lemma strstr_None_iff: "strstr h n = None \<longleftrightarrow> \<not> sublist n h"
  by (induction h n rule: strstr.induct) (auto simp: sublist_Cons_right)

lemma has_sub_iff: "has_sub h n \<longleftrightarrow> sublist n h"
  by (simp add: has_sub_def strstr_None_iff)

text \<open>The first match: no earlier position carries the needle.\<close>

lemma strstr_first:
  assumes "strstr h n = Some s"
  shows "\<exists>p. h = p @ s \<and> (\<forall>q r. h = q @ r \<and> length q < length p \<longrightarrow> \<not> prefix n r)"
  using assms
proof (induction h n rule: strstr.induct)
  case (1 n)
  then show ?case by (auto split: if_splits)
next
  case (2 c cs n)
  show ?case
  proof (cases "prefix n (c # cs)")
    case True
    with 2 show ?thesis by (intro exI [of _ "[]"]) simp
  next
    case False
    with 2 obtain p where p: "cs = p @ s"
      and first: "\<And>q r. cs = q @ r \<Longrightarrow> length q < length p \<Longrightarrow> \<not> prefix n r"
      by auto
    have "\<not> prefix n r" if "c # cs = q @ r" "length q < Suc (length p)" for q r
      using that False first by (cases q) auto
    with p show ?thesis by (intro exI [of _ "c # p"]) auto
  qed
qed

lemma strchr_SomeD: "strchr s c = Some r \<Longrightarrow> suffix r s \<and> r \<noteq> [] \<and> hd r = c"
  by (induction s c rule: strchr.induct) (auto simp: suffix_Cons split: if_splits)

lemma strchr_length: "strchr s c = Some r \<Longrightarrow> length r \<le> length s"
  by (auto dest!: strchr_SomeD suffix_length_le)

lemma strchr_None_iff: "strchr s c = None \<longleftrightarrow> c \<notin> set s"
  by (induction s c rule: strchr.induct) auto

lemma strchr_append: "c \<notin> set xs \<Longrightarrow> strchr (xs @ c # ys) c = Some (c # ys)"
  by (induction xs) auto

lemma length_snprintf_s: "0 < sz \<Longrightarrow> length (snprintf_s sz s) < sz"
  by (simp add: snprintf_s_def)

lemma snprintf_s_fits: "length s < sz \<Longrightarrow> snprintf_s sz s = s"
  by (simp add: snprintf_s_def)

lemma prefix_snprintf_s: "prefix (snprintf_s sz s) s"
  by (simp add: snprintf_s_def take_is_prefix)

lemma length_dropWhile_less: "dropWhile P (x # xs) = ys \<Longrightarrow> P x \<Longrightarrow> length ys < length (x # xs)"
  using length_dropWhile_le [of P xs] by auto

section \<open>Lemmas on numbers\<close>

lemma digit_val_digit_char: "d < 10 \<Longrightarrow> digit_val (digit_char d) = d"
  by (simp add: digit_val_def digit_char_def byte_val_char_of)

lemma c_isdigit_digit_char: "d < 10 \<Longrightarrow> c_isdigit (digit_char d)"
  by (simp add: c_isdigit_def digit_char_def char_le_iff byte_val_char_of) (simp add: byte_val_def)

lemma dec_nat_digits: "c \<in> set (dec_nat n) \<Longrightarrow> c_isdigit c"
proof (induction n rule: dec_nat.induct)
  case (1 n)
  then show ?case
    by (auto simp: dec_nat.simps [of n] c_isdigit_digit_char split: if_splits)
qed

lemma dec_nat_nonempty [simp]: "dec_nat n \<noteq> []"
  by (subst dec_nat.simps) simp

lemma length_dec_nat_le: "n < 10 ^ k \<Longrightarrow> 0 < k \<Longrightarrow> length (dec_nat n) \<le> k"
proof (induction k arbitrary: n)
  case (Suc k)
  show ?case
  proof (cases "n < 10")
    case True
    then show ?thesis by (subst dec_nat.simps) simp
  next
    case False
    with Suc.prems have "0 < k" "n div 10 < 10 ^ k" by (auto intro: gr0I)
    with Suc.IH have "length (dec_nat (n div 10)) \<le> k" by blast
    with False show ?thesis by (subst dec_nat.simps) simp
  qed
qed simp

lemma num_val_snoc: "num_val b f (ds @ [c]) = num_val b f ds * b + f c"
  by (simp add: num_val_def)

lemma num_val_dec_nat: "num_val 10 digit_val (dec_nat n) = n"
proof (induction n rule: dec_nat.induct)
  case (1 n)
  show ?case
  proof (cases "n < 10")
    case True
    then show ?thesis
      by (subst dec_nat.simps) (simp add: num_val_def digit_val_digit_char)
  next
    case False
    with "1.IH" have "num_val 10 digit_val (dec_nat (n div 10)) = n div 10" by simp
    with False show ?thesis
      by (subst dec_nat.simps) (simp add: num_val_snoc digit_val_digit_char)
  qed
qed

lemma c_isdigit_not_space: "c_isdigit c \<Longrightarrow> \<not> c_isspace c"
  by (auto simp: c_isdigit_def c_isspace_def char_le_iff byte_val_def)

text \<open>Printing with \<open>%u\<close> and reading back with \<open>strtoul\<close> gives the number and the text after it.\<close>

lemma strtoul_dec_nat:
  assumes n: "n \<le> ULONG_MAX" and rest: "rest = [] \<or> \<not> c_isdigit (hd rest)"
  shows "strtoul 10 (dec_nat n @ rest) = (n, rest)"
proof -
  let ?s = "dec_nat n @ rest"
  obtain c cs where c: "dec_nat n = c # cs" by (cases "dec_nat n") auto
  then have dig: "c_isdigit c" using dec_nat_digits [of c n] by simp
  then have sp: "dropWhile c_isspace ?s = ?s" by (simp add: c c_isdigit_not_space)
  from dig have sign: "c \<noteq> CHR ''-''" "c \<noteq> CHR ''+''"
    by (auto simp: c_isdigit_def char_le_iff byte_val_def)
  have all: "\<And>d. d \<in> set (dec_nat n) \<Longrightarrow> c_isdigit d" by (rule dec_nat_digits)
  from rest have tw: "takeWhile c_isdigit ?s = dec_nat n" and dw: "dropWhile c_isdigit ?s = rest"
    using all by (cases rest; simp add: takeWhile_append dropWhile_append takeWhile_eq_all_conv)+
  show ?thesis
    using sign n by (simp add: strtoul_def Let_def sp tw dw num_val_dec_nat)
      (simp add: c strtoul_digits_def)
qed

end
