(* ===== verification/CheckTypes.thy ===== *)
theory CheckTypes
  imports Prelude
begin

text \<open>
  The result rows of \<open>include/types.h\<close>: the states and typed skip reasons, the row a check
  produces, the summary and subgroup records, the constructors \<open>make_*\<close> and the EMIT macros.
  Every macro is the guarded append \<open>emit\<close> of the row its body builds. The locale \<open>check_fn\<close> is
  the contract every check function of the program keeps towards the group runner.
\<close>

definition BYTHOS_DETAIL_MAX :: nat where "BYTHOS_DETAIL_MAX = 256"

datatype check_state = CHECK_OK | CHECK_WARN | CHECK_FAIL | CHECK_SKIP

datatype skip_reason = SKIP_NONE | SKIP_TOOL_ABSENT | SKIP_FEATURE_ABSENT | SKIP_EXEC_FAILED
  | SKIP_PROBE_INDETERMINATE | SKIP_REPORT_FIELD_ABSENT | SKIP_OUTPUT_UNPARSEABLE
  | SKIP_NOT_CONFIGURED | SKIP_SUBJECT_ABSENT | SKIP_HW_ABSENT | SKIP_VENDOR_SCOPE

record check_result =
  r_name :: string
  r_state :: check_state
  r_skip_reason :: skip_reason
  r_detail :: string
  r_requires_root :: bool
  r_actionable :: bool

record posture_summary =
  ok_count :: nat
  warn_count :: nat
  fail_count :: nat
  skip_count :: nat

definition BYTHOS_MAX_SUBGROUP_RESULTS :: nat where "BYTHOS_MAX_SUBGROUP_RESULTS = 32"

record check_subgroup =
  sg_name :: string
  sg_results :: "check_result list"
  sg_truncated :: bool
  sg_summary :: posture_summary

section \<open>Row constructors\<close>

definition make_result :: "string \<Rightarrow> check_state \<Rightarrow> cptr \<Rightarrow> check_result" where
  "make_result name st detail =
     \<lparr>r_name = name, r_state = st, r_skip_reason = SKIP_NONE,
      r_detail = (case detail of None \<Rightarrow> [] | Some d \<Rightarrow> snprintf_s BYTHOS_DETAIL_MAX d),
      r_requires_root = False, r_actionable = False\<rparr>"

definition make_skip :: "string \<Rightarrow> skip_reason \<Rightarrow> cptr \<Rightarrow> check_result" where
  "make_skip name reason detail =
     (make_result name CHECK_SKIP detail)\<lparr>r_skip_reason := reason\<rparr>"

definition make_skip_actionable :: "string \<Rightarrow> skip_reason \<Rightarrow> cptr \<Rightarrow> check_result" where
  "make_skip_actionable name reason detail = (make_skip name reason detail)\<lparr>r_actionable := True\<rparr>"

definition make_skip_root :: "string \<Rightarrow> skip_reason \<Rightarrow> cptr \<Rightarrow> check_result" where
  "make_skip_root name reason detail = (make_skip name reason detail)\<lparr>r_requires_root := True\<rparr>"

definition bythos_pl :: "nat \<Rightarrow> string \<Rightarrow> string \<Rightarrow> string" where
  "bythos_pl n singular plural = (if n = 1 then singular else plural)"

section \<open>The EMIT macros\<close>

text \<open>
  Every EMIT macro is \<open>if (used < max_results) results[used++] = row\<close>: \<open>emit\<close> is that guarded
  append, and one row constructor per macro gives the row.
\<close>

definition emit :: "nat \<Rightarrow> check_result list \<Rightarrow> check_result \<Rightarrow> check_result list" where
  "emit max_results results r = (if length results < max_results then results @ [r] else results)"

definition emit_all :: "nat \<Rightarrow> check_result list \<Rightarrow> check_result list \<Rightarrow> check_result list" where
  "emit_all max_results results rs = foldl (emit max_results) results rs"

definition row :: "string \<Rightarrow> check_state \<Rightarrow> string \<Rightarrow> check_result" where
  "row name st detail = make_result name st (Some detail)"

definition row_skip :: "string \<Rightarrow> skip_reason \<Rightarrow> string \<Rightarrow> check_result" where
  "row_skip name reason detail = make_skip name reason (Some detail)"

definition row_skip_tool :: "string \<Rightarrow> string \<Rightarrow> check_result" where
  "row_skip_tool name tool = make_skip name SKIP_TOOL_ABSENT (Some (tool @ '' not found''))"

definition row_skip_tool_install :: "string \<Rightarrow> string \<Rightarrow> check_result" where
  "row_skip_tool_install name tool = make_skip_actionable name SKIP_TOOL_ABSENT (Some (''requires '' @ tool))"

definition row_skip_feature :: "string \<Rightarrow> string \<Rightarrow> check_result" where
  "row_skip_feature name feat = make_skip name SKIP_FEATURE_ABSENT (Some (feat @ '' not available''))"

definition row_skip_exec :: "string \<Rightarrow> string \<Rightarrow> check_result" where
  "row_skip_exec name tool = make_skip name SKIP_EXEC_FAILED (Some (tool @ '' query failed''))"

definition row_skip_exec_root :: "string \<Rightarrow> string \<Rightarrow> check_result" where
  "row_skip_exec_root name tool = make_skip_root name SKIP_EXEC_FAILED (Some (tool @ '' query failed''))"

definition row_skip_probe :: "string \<Rightarrow> string \<Rightarrow> check_result" where
  "row_skip_probe name tool = make_skip name SKIP_PROBE_INDETERMINATE (Some (tool @ '' result indeterminate''))"

definition row_skip_field :: "string \<Rightarrow> string \<Rightarrow> string \<Rightarrow> check_result" where
  "row_skip_field name field tool =
     make_skip name SKIP_REPORT_FIELD_ABSENT (Some (field @ '' absent from '' @ tool @ '' output''))"

definition row_skip_parse :: "string \<Rightarrow> string \<Rightarrow> check_result" where
  "row_skip_parse name tool = make_skip name SKIP_OUTPUT_UNPARSEABLE (Some (tool @ '' output not parseable''))"

definition row_skip_not_conf :: "string \<Rightarrow> string \<Rightarrow> check_result" where
  "row_skip_not_conf name tool = make_skip_actionable name SKIP_NOT_CONFIGURED (Some (tool @ '' not configured''))"

definition row_skip_subject :: "string \<Rightarrow> string \<Rightarrow> check_result" where
  "row_skip_subject name subj = make_skip name SKIP_SUBJECT_ABSENT (Some (subj @ '' not present on this host''))"

definition row_skip_hw :: "string \<Rightarrow> string \<Rightarrow> check_result" where
  "row_skip_hw name hw = make_skip name SKIP_HW_ABSENT (Some (hw @ '' not detected''))"

definition row_skip_vendor :: "string \<Rightarrow> string \<Rightarrow> check_result" where
  "row_skip_vendor name scope = make_skip name SKIP_VENDOR_SCOPE (Some scope)"

lemmas row_defs = row_def row_skip_def row_skip_tool_def row_skip_tool_install_def
  row_skip_feature_def row_skip_exec_def row_skip_exec_root_def row_skip_probe_def
  row_skip_field_def row_skip_parse_def row_skip_not_conf_def row_skip_subject_def
  row_skip_hw_def row_skip_vendor_def make_skip_actionable_def make_skip_root_def
  make_skip_def make_result_def

section \<open>Facts about rows\<close>

lemma emit_all_Nil [simp]: "emit_all m rs [] = rs"
  by (simp add: emit_all_def)

lemma emit_all_Cons: "emit_all m rs (x # xs) = emit_all m (emit m rs x) xs"
  by (simp add: emit_all_def)

text \<open>Emitting rows in order keeps the first \<open>m\<close> of them.\<close>

lemma emit_all_take: "length rs \<le> m \<Longrightarrow> emit_all m rs xs = take m (rs @ xs)"
proof (induction xs arbitrary: rs)
  case Nil
  then show ?case by simp
next
  case (Cons x xs)
  show ?case
  proof (cases "length rs < m")
    case True
    with Cons.IH [of "rs @ [x]"] show ?thesis by (simp add: emit_all_Cons emit_def)
  next
    case False
    with Cons.prems have "length rs = m" by simp
    with Cons.IH [of rs] show ?thesis by (simp add: emit_all_Cons emit_def)
  qed
qed

lemma emit_all_from_empty [simp]: "emit_all m [] xs = take m xs"
  by (simp add: emit_all_take)

lemma row_name [simp]:
  "r_name (row n s d) = n" "r_name (row_skip n k d) = n" "r_name (row_skip_tool n t) = n"
  "r_name (row_skip_tool_install n t) = n" "r_name (row_skip_feature n t) = n"
  "r_name (row_skip_exec n t) = n" "r_name (row_skip_exec_root n t) = n"
  "r_name (row_skip_probe n t) = n" "r_name (row_skip_field n f t) = n"
  "r_name (row_skip_parse n t) = n" "r_name (row_skip_not_conf n t) = n"
  "r_name (row_skip_subject n t) = n" "r_name (row_skip_hw n t) = n"
  "r_name (row_skip_vendor n t) = n"
  by (simp_all add: row_defs)

lemma row_state [simp]:
  "r_state (row n s d) = s" "r_state (row_skip n k d) = CHECK_SKIP"
  "r_state (row_skip_tool n t) = CHECK_SKIP" "r_state (row_skip_tool_install n t) = CHECK_SKIP"
  "r_state (row_skip_feature n t) = CHECK_SKIP" "r_state (row_skip_exec n t) = CHECK_SKIP"
  "r_state (row_skip_exec_root n t) = CHECK_SKIP" "r_state (row_skip_probe n t) = CHECK_SKIP"
  "r_state (row_skip_field n f t) = CHECK_SKIP" "r_state (row_skip_parse n t) = CHECK_SKIP"
  "r_state (row_skip_not_conf n t) = CHECK_SKIP" "r_state (row_skip_subject n t) = CHECK_SKIP"
  "r_state (row_skip_hw n t) = CHECK_SKIP" "r_state (row_skip_vendor n t) = CHECK_SKIP"
  by (simp_all add: row_defs)

text \<open>
  The well-formedness of a row: the detail fits its buffer, and a typed skip reason is
  present exactly on SKIP rows.
\<close>

definition wf_row :: "check_result \<Rightarrow> bool" where
  "wf_row r \<longleftrightarrow> length (r_detail r) < BYTHOS_DETAIL_MAX \<and>
     (r_skip_reason r = SKIP_NONE \<longleftrightarrow> r_state r \<noteq> CHECK_SKIP) \<and>
     (r_requires_root r \<or> r_actionable r \<longrightarrow> r_state r = CHECK_SKIP)"

lemma wf_make_result: "st \<noteq> CHECK_SKIP \<Longrightarrow> wf_row (make_result n st d)"
  by (auto simp: wf_row_def make_result_def BYTHOS_DETAIL_MAX_def snprintf_s_def split: option.split)

lemma wf_make_skip:
  "k \<noteq> SKIP_NONE \<Longrightarrow> wf_row (make_skip n k d)"
  "k \<noteq> SKIP_NONE \<Longrightarrow> wf_row (make_skip_actionable n k d)"
  "k \<noteq> SKIP_NONE \<Longrightarrow> wf_row (make_skip_root n k d)"
  by (auto simp: wf_row_def make_result_def make_skip_def make_skip_actionable_def make_skip_root_def
      BYTHOS_DETAIL_MAX_def snprintf_s_def split: option.split)

lemma wf_rows [simp]:
  "st \<noteq> CHECK_SKIP \<Longrightarrow> wf_row (row n st t)" "k \<noteq> SKIP_NONE \<Longrightarrow> wf_row (row_skip n k t)"
  "wf_row (row_skip_tool n t)" "wf_row (row_skip_tool_install n t)" "wf_row (row_skip_feature n t)"
  "wf_row (row_skip_exec n t)" "wf_row (row_skip_exec_root n t)" "wf_row (row_skip_probe n t)"
  "wf_row (row_skip_field n f t)" "wf_row (row_skip_parse n t)" "wf_row (row_skip_not_conf n t)"
  "wf_row (row_skip_subject n t)" "wf_row (row_skip_hw n t)" "wf_row (row_skip_vendor n t)"
  by (simp_all add: row_def row_skip_def row_skip_tool_def row_skip_tool_install_def
      row_skip_feature_def row_skip_exec_def row_skip_exec_root_def row_skip_probe_def
      row_skip_field_def row_skip_parse_def row_skip_not_conf_def row_skip_subject_def
      row_skip_hw_def row_skip_vendor_def wf_make_result wf_make_skip)

section \<open>The contract of a check function\<close>

text \<open>
  A check writes at most \<open>max_results\<close> rows: the first \<open>m\<close> of the rows it has to say about an
  environment, whatever \<open>m\<close> is. It always has something to say, never more than \<open>cap\<close> rows,
  and every row is well formed.
\<close>

locale check_fn =
  fixes chk :: "'e \<Rightarrow> nat \<Rightarrow> check_result list"
    and rows :: "'e \<Rightarrow> check_result list"
    and cap :: nat
  assumes chk_prefix: "chk e m = take m (rows e)"
    and rows_nonempty: "rows e \<noteq> []"
    and rows_cap: "length (rows e) \<le> cap"
    and rows_wf: "r \<in> set (rows e) \<Longrightarrow> wf_row r"
begin

lemma chk_length: "length (chk e m) \<le> m"
  by (simp add: chk_prefix)

lemma chk_complete: "cap \<le> m \<Longrightarrow> chk e m = rows e"
  using rows_cap [of e] by (simp add: chk_prefix)

lemma chk_nonempty: "0 < m \<Longrightarrow> chk e m \<noteq> []"
  using rows_nonempty [of e] by (simp add: chk_prefix)

lemma chk_length_min: "length (chk e m) = min m (length (rows e))"
  by (simp add: chk_prefix)

lemma chk_mono: "m \<le> n \<Longrightarrow> prefix (chk e m) (chk e n)"
  by (metis chk_prefix min.absorb1 take_is_prefix take_take)

lemma chk_wf: "r \<in> set (chk e m) \<Longrightarrow> wf_row r"
  by (metis chk_prefix in_set_takeD rows_wf)

end

text \<open>Two shapes of check: one that emits a list of rows, one that tests \<open>max_results\<close> first.\<close>

lemma check_fn_emit:
  assumes "\<And>e m. chk e m = emit_all m [] (rows e)" "\<And>e. rows e \<noteq> []" "\<And>e. length (rows e) \<le> cap"
    and "\<And>e. list_all wf_row (rows e)"
  shows "check_fn chk rows cap"
  using assms by unfold_locales (auto simp: list_all_iff)

lemma check_fn_single:
  assumes "\<And>e m. chk e m = (if m = 0 then [] else [r e])" "\<And>e. rows e = [r e]" "\<And>e. wf_row (r e)"
  shows "check_fn chk rows 1"
  using assms by unfold_locales auto

section \<open>Checks in sequence\<close>

text \<open>
  A check made of parts runs each with the room that is left:
  \<open>used += part(results + used, used < max_results ? max_results - used : 0)\<close>.
\<close>

fun run_parts :: "('e \<Rightarrow> nat \<Rightarrow> check_result list) list \<Rightarrow> 'e \<Rightarrow> nat \<Rightarrow> check_result list \<Rightarrow> check_result list" where
  "run_parts [] e max_results results = results"
| "run_parts (part # parts) e max_results results =
     run_parts parts e max_results (results @ part e (max_results - length results))"

lemma run_parts_take:
  assumes "list_all2 (\<lambda>p r. \<forall>m. p e m = take m (r e)) parts rows" "length pre \<le> m"
  shows "run_parts parts e m pre = take m (pre @ concat (map (\<lambda>r. r e) rows))"
  using assms
proof (induction parts rows arbitrary: pre rule: list_all2_induct)
  case Nil
  then show ?case by simp
next
  case (Cons p ps r rs)
  have "length (pre @ take (m - length pre) (r e)) \<le> m" using Cons.prems by simp
  with Cons have "run_parts ps e m (pre @ take (m - length pre) (r e)) =
      take m ((pre @ take (m - length pre) (r e)) @ concat (map (\<lambda>r. r e) rs))" by blast
  also have "\<dots> = take m (pre @ r e @ concat (map (\<lambda>r. r e) rs))"
    by (cases "m - length pre \<le> length (r e)") (auto simp: min_def)
  finally show ?case using Cons.hyps(1) by simp
qed

lemma check_fn_parts:
  assumes "\<And>e m. chk e m = run_parts parts e m []" "\<And>e. rows e = concat (map (\<lambda>r. r e) part_rows)"
    and "\<And>e. list_all2 (\<lambda>p r. \<forall>m. p e m = take m (r e)) parts part_rows"
    and "\<And>e. rows e \<noteq> []" "\<And>e. length (rows e) \<le> cap" "\<And>e. list_all wf_row (rows e)"
  shows "check_fn chk rows cap"
  using assms run_parts_take [of _ parts part_rows "[]"] by unfold_locales (auto simp: list_all_iff)

end
