(* ===== verification/Output.thy ===== *)
theory Output
  imports CheckTypes
begin

text \<open>
  The renderer of \<open>output.c\<close> and \<open>output.h\<close>: names of states and reasons, the summary counters,
  the JSON document and the plain listing. What a function writes to \<open>stdout\<close> is its result; the
  terminal (the environment variables and \<open>isatty\<close>) is a parameter.
\<close>

section \<open>Names\<close>

fun bythos_state_name :: "check_state \<Rightarrow> string" where
  "bythos_state_name CHECK_OK = ''OK''"
| "bythos_state_name CHECK_WARN = ''WARN''"
| "bythos_state_name CHECK_FAIL = ''FAIL''"
| "bythos_state_name CHECK_SKIP = ''SKIP''"

fun bythos_skip_reason_name :: "skip_reason \<Rightarrow> string" where
  "bythos_skip_reason_name SKIP_NONE = ''NONE''"
| "bythos_skip_reason_name SKIP_TOOL_ABSENT = ''TOOL_ABSENT''"
| "bythos_skip_reason_name SKIP_FEATURE_ABSENT = ''FEATURE_ABSENT''"
| "bythos_skip_reason_name SKIP_EXEC_FAILED = ''EXEC_FAILED''"
| "bythos_skip_reason_name SKIP_PROBE_INDETERMINATE = ''PROBE_INDETERMINATE''"
| "bythos_skip_reason_name SKIP_REPORT_FIELD_ABSENT = ''REPORT_FIELD_ABSENT''"
| "bythos_skip_reason_name SKIP_OUTPUT_UNPARSEABLE = ''OUTPUT_UNPARSEABLE''"
| "bythos_skip_reason_name SKIP_NOT_CONFIGURED = ''NOT_CONFIGURED''"
| "bythos_skip_reason_name SKIP_SUBJECT_ABSENT = ''SUBJECT_ABSENT''"
| "bythos_skip_reason_name SKIP_HW_ABSENT = ''HW_ABSENT''"
| "bythos_skip_reason_name SKIP_VENDOR_SCOPE = ''VENDOR_SCOPE''"

section \<open>Summaries\<close>

definition summary_zero :: posture_summary where
  "summary_zero = \<lparr>ok_count = 0, warn_count = 0, fail_count = 0, skip_count = 0\<rparr>"

definition bythos_summary_add :: "posture_summary \<Rightarrow> check_result \<Rightarrow> posture_summary" where
  "bythos_summary_add summary result =
     (case r_state result of
        CHECK_OK \<Rightarrow> summary\<lparr>ok_count := ok_count summary + 1\<rparr>
      | CHECK_WARN \<Rightarrow> summary\<lparr>warn_count := warn_count summary + 1\<rparr>
      | CHECK_FAIL \<Rightarrow> summary\<lparr>fail_count := fail_count summary + 1\<rparr>
      | CHECK_SKIP \<Rightarrow> summary\<lparr>skip_count := skip_count summary + 1\<rparr>)"

definition bythos_summary_merge :: "posture_summary \<Rightarrow> posture_summary \<Rightarrow> posture_summary" where
  "bythos_summary_merge dst src =
     \<lparr>ok_count = ok_count dst + ok_count src, warn_count = warn_count dst + warn_count src,
      fail_count = fail_count dst + fail_count src, skip_count = skip_count dst + skip_count src\<rparr>"

definition bythos_summary_state :: "posture_summary \<Rightarrow> check_state" where
  "bythos_summary_state summary =
     (if 0 < fail_count summary then CHECK_FAIL
      else if 0 < warn_count summary then CHECK_WARN
      else if 0 < ok_count summary then CHECK_OK
      else CHECK_SKIP)"

section \<open>JSON strings\<close>

text \<open>
  \<open>p[i]\<close> for a pointer into a C string: the terminator reads as 0, and the \<open>&&\<close> chains of
  \<open>utf8_valid_len\<close> never read past it.
\<close>

definition at :: "string \<Rightarrow> nat \<Rightarrow> nat" where
  "at p i = (if i < length p then byte_val (p ! i) else 0)"

definition in_range :: "nat \<Rightarrow> nat \<Rightarrow> nat \<Rightarrow> bool" where
  "in_range lo hi b \<longleftrightarrow> lo \<le> b \<and> b \<le> hi"

definition utf8_valid_len :: "string \<Rightarrow> nat" where
  "utf8_valid_len p =
     (let c = at p 0
      in if in_range 0xC2 0xDF c then (if in_range 0x80 0xBF (at p 1) then 2 else 0)
         else if c = 0xE0 then
           (if in_range 0xA0 0xBF (at p 1) \<and> in_range 0x80 0xBF (at p 2) then 3 else 0)
         else if in_range 0xE1 0xEC c \<or> c = 0xEE \<or> c = 0xEF then
           (if in_range 0x80 0xBF (at p 1) \<and> in_range 0x80 0xBF (at p 2) then 3 else 0)
         else if c = 0xED then
           (if in_range 0x80 0x9F (at p 1) \<and> in_range 0x80 0xBF (at p 2) then 3 else 0)
         else if c = 0xF0 then
           (if in_range 0x90 0xBF (at p 1) \<and> in_range 0x80 0xBF (at p 2) \<and> in_range 0x80 0xBF (at p 3) then 4 else 0)
         else if in_range 0xF1 0xF3 c then
           (if in_range 0x80 0xBF (at p 1) \<and> in_range 0x80 0xBF (at p 2) \<and> in_range 0x80 0xBF (at p 3) then 4 else 0)
         else if c = 0xF4 then
           (if in_range 0x80 0x8F (at p 1) \<and> in_range 0x80 0xBF (at p 2) \<and> in_range 0x80 0xBF (at p 3) then 4 else 0)
         else 0)"

definition replacement_bytes :: string where
  "replacement_bytes = [CHR 0xEF, CHR 0xBF, CHR 0xBD]"

text \<open>\<open>\u%04x\<close> for \<open>c < 0x20\<close>.\<close>

definition u_escape :: "nat \<Rightarrow> string" where
  "u_escape n = BSL # CHR ''u'' # [hex_digit_lower (n div 4096 mod 16), hex_digit_lower (n div 256 mod 16),
                                   hex_digit_lower (n div 16 mod 16), hex_digit_lower (n mod 16)]"

text \<open>One turn of the loop on a nonempty text: what is printed, and the rest of the text.\<close>

definition json_step :: "string \<Rightarrow> string \<times> string" where
  "json_step p =
     (let c = hd p; n = byte_val c
      in if c = BSL then ([BSL, BSL], tl p)
         else if c = DQ then ([BSL, DQ], tl p)
         else if c = LF then ([BSL, CHR ''n''], tl p)
         else if c = CR then ([BSL, CHR ''r''], tl p)
         else if c = TAB then ([BSL, CHR ''t''], tl p)
         else if n < 0x20 then (u_escape n, tl p)
         else if n < 0x80 then ([c], tl p)
         else (let seq = utf8_valid_len p
               in if seq = 0 then (replacement_bytes, tl p) else (take seq p, drop seq p)))"

lemma at_in_range: "in_range lo hi (at p i) \<Longrightarrow> 0 < lo \<Longrightarrow> i < length p"
  by (auto simp: in_range_def at_def split: if_splits)

lemma if_le: "(c \<Longrightarrow> a \<le> n) \<Longrightarrow> (\<not> c \<Longrightarrow> b \<le> n) \<Longrightarrow> (if c then a else b) \<le> (n :: nat)"
  by simp

lemma utf8_valid_len_le: "utf8_valid_len p \<le> length p"
proof -
  have 2: "in_range lo hi (at p 1) \<Longrightarrow> 0 < lo \<Longrightarrow> 2 \<le> length p" for lo hi
    using at_in_range [of lo hi p 1] by simp
  have 3: "in_range 0x80 0xBF (at p 2) \<Longrightarrow> 3 \<le> length p" using at_in_range [of 128 191 p 2] by simp
  have 4: "in_range 0x80 0xBF (at p 3) \<Longrightarrow> 4 \<le> length p" using at_in_range [of 128 191 p 3] by simp
  show ?thesis
    unfolding utf8_valid_len_def Let_def
    by (intro if_le; (elim conjE)?; (rule le0 | (erule 2; simp) | erule 3 | erule 4))
qed

lemma json_step_shrinks: "p \<noteq> [] \<Longrightarrow> length (snd (json_step p)) < length p"
  by (cases p) (auto simp: json_step_def Let_def)

function json_chars :: "string \<Rightarrow> string" where
  "json_chars p = (if p = [] then [] else fst (json_step p) @ json_chars (snd (json_step p)))"
  by pat_completeness auto
termination
  by (relation "measure length") (auto intro: json_step_shrinks)

declare json_chars.simps [simp del]

definition print_json_string :: "string \<Rightarrow> string" where
  "print_json_string s = [DQ] @ json_chars s @ [DQ]"

section \<open>The JSON document\<close>

text \<open>A key as the format strings spell it: the quoted name and a colon.\<close>

definition jkey :: "string \<Rightarrow> string" where
  "jkey name = DQ # name @ [DQ, CHR '':'']"

definition print_bool :: "bool \<Rightarrow> string" where
  "print_bool b = (if b then ''true'' else ''false'')"

text \<open>The loops \<open>for (i = 0; i < n; i++) { if (i > 0) putchar(','); ... }\<close>.\<close>

fun print_items :: "('a \<Rightarrow> string) \<Rightarrow> nat \<Rightarrow> 'a list \<Rightarrow> string" where
  "print_items f i [] = []"
| "print_items f i (x # xs) = (if 0 < i then '','' else []) @ f x @ print_items f (i + 1) xs"

definition print_json_summary :: "posture_summary \<Rightarrow> string" where
  "print_json_summary summary =
     ''{'' @ jkey ''state'' @ print_json_string (bythos_state_name (bythos_summary_state summary)) @
     '','' @ jkey ''counts'' @ ''{'' @ jkey ''ok'' @ dec_nat (ok_count summary) @
     '','' @ jkey ''warn'' @ dec_nat (warn_count summary) @
     '','' @ jkey ''fail'' @ dec_nat (fail_count summary) @
     '','' @ jkey ''skip'' @ dec_nat (skip_count summary) @ ''}}''"

definition print_json_result :: "check_result \<Rightarrow> string" where
  "print_json_result result =
     ''{'' @ jkey ''name'' @ print_json_string (r_name result) @
     '','' @ jkey ''state'' @ print_json_string (bythos_state_name (r_state result)) @
     '','' @ jkey ''skip_reason'' @ print_json_string (bythos_skip_reason_name (r_skip_reason result)) @
     '','' @ jkey ''detail'' @ print_json_string (r_detail result) @
     '','' @ jkey ''requires_root'' @ print_bool (r_requires_root result) @
     '','' @ jkey ''actionable'' @ print_bool (r_actionable result) @ ''}''"

definition print_json_subgroup :: "check_subgroup \<Rightarrow> string" where
  "print_json_subgroup sg =
     ''{'' @ jkey ''name'' @ print_json_string (sg_name sg) @
     '','' @ jkey ''summary'' @ print_json_summary (sg_summary sg) @
     '','' @ jkey ''results'' @ ''['' @ print_items print_json_result 0 (sg_results sg) @
     ''],'' @ jkey ''truncated'' @ print_bool (sg_truncated sg) @ ''}''"

record group_view =
  gv_name :: string
  gv_subgroups :: "check_subgroup list"
  gv_summary :: posture_summary

definition print_json_group :: "group_view \<Rightarrow> string" where
  "print_json_group g =
     ''{'' @ jkey ''name'' @ print_json_string (gv_name g) @
     '','' @ jkey ''summary'' @ print_json_summary (gv_summary g) @
     '','' @ jkey ''subgroups'' @ ''['' @ print_items print_json_subgroup 0 (gv_subgroups g) @ '']}''"

definition exit_meaning :: "nat \<Rightarrow> string" where
  "exit_meaning exit_code =
     (if exit_code = 0 then ''no_fail'' else if exit_code = 1 then ''posture_fail''
      else if exit_code = 2 then ''usage_error'' else ''unknown'')"

definition print_json ::
  "string \<Rightarrow> string \<Rightarrow> group_view list \<Rightarrow> posture_summary \<Rightarrow> nat \<Rightarrow> string" where
  "print_json mode banner groups overall exit_code =
     ''{'' @ jkey ''mode'' @ print_json_string mode @
     '','' @ jkey ''banner'' @ print_json_string banner @
     '','' @ jkey ''groups'' @ ''['' @ print_items print_json_group 0 groups @
     ''],'' @ jkey ''overall'' @ print_json_summary overall @
     '','' @ jkey ''exit_code'' @ dec_nat exit_code @
     '','' @ jkey ''exit_meaning'' @ print_json_string (exit_meaning exit_code) @ ''}'' @ [LF]"

section \<open>The plain listing\<close>

record terminal =
  term_getenv :: "string \<Rightarrow> cptr"
  term_isatty :: bool

definition env_set :: "terminal \<Rightarrow> string \<Rightarrow> bool" where
  "env_set t name = (case term_getenv t name of None \<Rightarrow> False | Some value \<Rightarrow> value \<noteq> [])"

definition use_color :: "terminal \<Rightarrow> bool" where
  "use_color t \<longleftrightarrow>
     \<not> env_set t ''NO_COLOR'' \<and>
     (env_set t ''CLICOLOR_FORCE'' \<or> env_set t ''FORCE_COLOR'' \<or> term_isatty t) \<and>
     (case term_getenv t ''TERM'' of None \<Rightarrow> False | Some v \<Rightarrow> v \<noteq> ''dumb'' \<and> v \<noteq> ''linux'')"

definition esc :: "terminal \<Rightarrow> string \<Rightarrow> string" where
  "esc t code = (if use_color t then CHR 0x1B # ''['' @ code @ ''m'' else [])"

definition c_reset :: "terminal \<Rightarrow> string" where "c_reset t = esc t ''0''"
definition c_brand :: "terminal \<Rightarrow> string" where "c_brand t = esc t ''1;38;5;220''"
definition c_accent :: "terminal \<Rightarrow> string" where "c_accent t = esc t ''38;5;123''"
definition c_green :: "terminal \<Rightarrow> string" where "c_green t = esc t ''38;5;82''"
definition c_yellow :: "terminal \<Rightarrow> string" where "c_yellow t = esc t ''38;5;214''"
definition c_red :: "terminal \<Rightarrow> string" where "c_red t = esc t ''38;5;160''"
definition c_dim :: "terminal \<Rightarrow> string" where "c_dim t = esc t ''38;5;248''"

fun state_color :: "terminal \<Rightarrow> check_state \<Rightarrow> string" where
  "state_color t CHECK_OK = c_green t"
| "state_color t CHECK_WARN = c_yellow t"
| "state_color t CHECK_FAIL = c_red t"
| "state_color t CHECK_SKIP = c_dim t"

fun state_label :: "check_state \<Rightarrow> string" where
  "state_label CHECK_OK = ''ok  ''"
| "state_label CHECK_WARN = ''warn''"
| "state_label CHECK_FAIL = ''fail''"
| "state_label CHECK_SKIP = ''skip''"

definition strip_subgroup_prefix :: "string \<Rightarrow> string \<Rightarrow> string" where
  "strip_subgroup_prefix name subgroup_name =
     (let prefix_len = length subgroup_name
      in if length name \<le> prefix_len then name
         else if list_ex (\<lambda>i. c_tolower (name ! i) \<noteq> c_tolower (subgroup_name ! i)) [0..<prefix_len] then name
         else if name ! prefix_len \<noteq> SP then name
         else drop (prefix_len + 1) name)"

definition print_result_line :: "terminal \<Rightarrow> string \<Rightarrow> check_result \<Rightarrow> string" where
  "print_result_line t display_name result =
     ''    '' @ state_color t (r_state result) @ state_label (r_state result) @ c_reset t @ ''  '' @ display_name @
     (if r_detail result \<noteq> [] then ''  '' @ r_detail result else []) @
     (if r_requires_root result then ''  (requires root)'' else []) @ [LF]"

definition print_result_in_subgroup :: "terminal \<Rightarrow> check_result \<Rightarrow> string \<Rightarrow> string" where
  "print_result_in_subgroup t result subgroup_name =
     print_result_line t (strip_subgroup_prefix (r_name result) subgroup_name) result"

definition print_subgroup_plain :: "terminal \<Rightarrow> check_subgroup \<Rightarrow> string" where
  "print_subgroup_plain t sg =
     (if sg_results sg = [] then []
      else ''  '' @ c_accent t @ sg_name sg @ '':'' @ c_reset t @ [LF] @
        concat (map (\<lambda>r. print_result_in_subgroup t r (sg_name sg)) (sg_results sg)) @
        (if sg_truncated sg
         then ''    '' @ c_dim t @ ''(some results truncated; subgroup at capacity)'' @ c_reset t @ [LF] else []) @
        [LF])"

definition print_groups_hierarchy :: "terminal \<Rightarrow> group_view list \<Rightarrow> string" where
  "print_groups_hierarchy t groups =
     concat (map (\<lambda>g. concat (map (print_subgroup_plain t) (gv_subgroups g))) groups)"

definition print_brand_line :: "terminal \<Rightarrow> string \<Rightarrow> string" where
  "print_brand_line t banner = ''  '' @ c_brand t @ ''[bythos]'' @ c_reset t @ '' '' @ banner @ [LF]"

definition print_plain :: "terminal \<Rightarrow> string \<Rightarrow> group_view list \<Rightarrow> posture_summary \<Rightarrow> string" where
  "print_plain t banner groups overall =
     [LF] @ print_brand_line t banner @
     ''    '' @ c_accent t @ ''summary:'' @ c_reset t @
     ''  '' @ c_green t @ dec_nat (ok_count overall) @ '' ok'' @ c_reset t @
     ''  '' @ c_yellow t @ dec_nat (warn_count overall) @ '' warn'' @ c_reset t @
     ''  '' @ c_red t @ dec_nat (fail_count overall) @ '' fail'' @ c_reset t @
     ''  '' @ c_dim t @ dec_nat (skip_count overall) @ '' skip'' @ c_reset t @ [LF, LF] @
     print_groups_hierarchy t groups"

datatype render_mode = RENDER_PLAIN | RENDER_JSON

definition bythos_render ::
  "terminal \<Rightarrow> render_mode \<Rightarrow> string \<Rightarrow> string \<Rightarrow> group_view list \<Rightarrow> posture_summary \<Rightarrow> nat \<Rightarrow> string" where
  "bythos_render t mode mode_str banner groups overall exit_code =
     (if mode = RENDER_JSON then print_json mode_str banner groups overall exit_code
      else print_plain t banner groups overall)"

section \<open>Summaries and severity\<close>

text \<open>
  The severity order of the states, worst last. The summary of a list of rows counts its rows by
  state, and the state of a summary is the worst state that occurs.
\<close>

fun severity :: "check_state \<Rightarrow> nat" where
  "severity CHECK_SKIP = 0"
| "severity CHECK_OK = 1"
| "severity CHECK_WARN = 2"
| "severity CHECK_FAIL = 3"

lemma severity_inj: "severity a = severity b \<Longrightarrow> a = b"
  by (cases a; cases b) simp_all

instantiation check_state :: linorder
begin

definition less_eq_check_state :: "check_state \<Rightarrow> check_state \<Rightarrow> bool" where
  "less_eq_check_state a b \<longleftrightarrow> severity a \<le> severity b"

definition less_check_state :: "check_state \<Rightarrow> check_state \<Rightarrow> bool" where
  "less_check_state a b \<longleftrightarrow> severity a < severity b"

instance
  by standard (auto simp: less_eq_check_state_def less_check_state_def dest: severity_inj)

end

definition state_count :: "check_state \<Rightarrow> check_result list \<Rightarrow> nat" where
  "state_count st rs = length (filter (\<lambda>r. r_state r = st) rs)"

text \<open>The summary a list of rows should have: how many rows carry each state.\<close>

definition summary_of :: "check_result list \<Rightarrow> posture_summary" where
  "summary_of rs = \<lparr>ok_count = state_count CHECK_OK rs, warn_count = state_count CHECK_WARN rs,
     fail_count = state_count CHECK_FAIL rs, skip_count = state_count CHECK_SKIP rs\<rparr>"

lemma summary_fold_counts:
  "ok_count (foldl bythos_summary_add s rs) = ok_count s + state_count CHECK_OK rs"
  "warn_count (foldl bythos_summary_add s rs) = warn_count s + state_count CHECK_WARN rs"
  "fail_count (foldl bythos_summary_add s rs) = fail_count s + state_count CHECK_FAIL rs"
  "skip_count (foldl bythos_summary_add s rs) = skip_count s + state_count CHECK_SKIP rs"
  by (induction rs arbitrary: s; simp add: bythos_summary_add_def state_count_def split: check_state.split)+

lemma summary_of_counts:
  "ok_count (summary_of rs) = state_count CHECK_OK rs" "warn_count (summary_of rs) = state_count CHECK_WARN rs"
  "fail_count (summary_of rs) = state_count CHECK_FAIL rs" "skip_count (summary_of rs) = state_count CHECK_SKIP rs"
  by (simp_all add: summary_of_def)

lemma summary_fold: "foldl bythos_summary_add summary_zero rs = summary_of rs"
  by (rule posture_summary.equality) (simp_all add: summary_fold_counts summary_of_def summary_zero_def)

lemma state_count_append: "state_count st (xs @ ys) = state_count st xs + state_count st ys"
  by (simp add: state_count_def)

lemma summary_merge_of: "bythos_summary_merge (summary_of xs) (summary_of ys) = summary_of (xs @ ys)"
  by (rule posture_summary.equality)
    (simp_all add: bythos_summary_merge_def summary_of_counts state_count_append)

lemma summary_zero_of: "summary_zero = summary_of []"
  by (simp add: summary_of_def summary_zero_def state_count_def)

lemma state_count_pos: "0 < state_count st rs \<longleftrightarrow> st \<in> r_state ` set rs"
  by (auto simp: state_count_def filter_empty_conv)

lemma summary_state_worst:
  "rs \<noteq> [] \<Longrightarrow> bythos_summary_state (summary_of rs) = Max (r_state ` set rs)"
proof -
  assume ne: "rs \<noteq> []"
  let ?S = "r_state ` set rs"
  have fin: "finite ?S" "?S \<noteq> {}" using ne by simp_all
  have mem: "bythos_summary_state (summary_of rs) \<in> ?S"
  proof -
    have "r_state (hd rs) \<in> ?S" using ne by simp
    then show ?thesis
      by (cases "r_state (hd rs)") (auto simp: bythos_summary_state_def summary_of_counts state_count_pos)
  qed
  have "st \<le> bythos_summary_state (summary_of rs)" if "st \<in> ?S" for st
    using that unfolding bythos_summary_state_def summary_of_counts state_count_pos
    by (cases st) (auto simp: less_eq_check_state_def)
  with fin mem show ?thesis by (intro Max_eqI [symmetric]) auto
qed

end
