(* ===== verification/Utf8.thy ===== *)
theory Utf8
  imports Output
begin

text \<open>
  The abstract side of the JSON strings: UTF-8 as the encoding of Unicode scalar values. The
  byte-range table of \<open>utf8_valid_len\<close> is shown to recognise exactly the encodings of the scalar
  values from 0x80 up, and the text of a JSON string to be well-formed UTF-8 whatever bytes it
  is printed from.
\<close>

definition scalar_value :: "nat \<Rightarrow> bool" where
  "scalar_value cp \<longleftrightarrow> cp < 0xD800 \<or> (0xE000 \<le> cp \<and> cp < 0x110000)"

definition utf8_bytes :: "nat \<Rightarrow> nat list" where
  "utf8_bytes cp =
     (if cp < 0x80 then [cp]
      else if cp < 0x800 then [0xC0 + cp div 64, 0x80 + cp mod 64]
      else if cp < 0x10000 then [0xE0 + cp div 4096, 0x80 + cp div 64 mod 64, 0x80 + cp mod 64]
      else [0xF0 + cp div 262144, 0x80 + cp div 4096 mod 64, 0x80 + cp div 64 mod 64, 0x80 + cp mod 64])"

definition utf8_encode :: "nat \<Rightarrow> string" where
  "utf8_encode cp = map char_of (utf8_bytes cp)"

definition valid_utf8 :: "string \<Rightarrow> bool" where
  "valid_utf8 s \<longleftrightarrow> (\<exists>cps. list_all scalar_value cps \<and> s = concat (map utf8_encode cps))"

section \<open>Well-formed text\<close>

lemma valid_utf8_Nil [simp]: "valid_utf8 []"
  unfolding valid_utf8_def by (rule exI [of _ "[]"]) simp

lemma valid_utf8_append [intro]: "valid_utf8 a \<Longrightarrow> valid_utf8 b \<Longrightarrow> valid_utf8 (a @ b)"
  unfolding valid_utf8_def by (metis concat_append list_all_append map_append)

lemma valid_utf8_encode: "scalar_value cp \<Longrightarrow> valid_utf8 (utf8_encode cp)"
  unfolding valid_utf8_def by (rule exI [of _ "[cp]"]) simp

lemma utf8_encode_ascii: "n < 0x80 \<Longrightarrow> utf8_encode n = [char_of n]"
  by (simp add: utf8_encode_def utf8_bytes_def)

lemma valid_utf8_ascii1: "byte_val c < 0x80 \<Longrightarrow> valid_utf8 [c]"
  using valid_utf8_encode [of "byte_val c"] by (simp add: utf8_encode_ascii scalar_value_def)

lemma valid_utf8_Cons: "byte_val c < 0x80 \<Longrightarrow> valid_utf8 s \<Longrightarrow> valid_utf8 (c # s)"
  using valid_utf8_append [OF valid_utf8_ascii1, of c s] by simp

lemma valid_utf8_ascii: "list_all (\<lambda>c. byte_val c < 0x80) s \<Longrightarrow> valid_utf8 s"
  by (induction s) (simp_all add: valid_utf8_Cons)

section \<open>The table\<close>

lemma div_mod_64: fixes cp :: nat shows "cp = cp div 64 * 64 + cp mod 64"
  by simp

lemma ex_digits2:
  fixes R :: "nat \<Rightarrow> nat \<Rightarrow> nat \<Rightarrow> bool"
  shows "(\<exists>cp. R cp (cp div 64) (cp mod 64)) \<longleftrightarrow> (\<exists>a b. b < 64 \<and> R (a * 64 + b) a b)"
proof
  assume "\<exists>cp. R cp (cp div 64) (cp mod 64)"
  then obtain cp where "R cp (cp div 64) (cp mod 64)" ..
  then have "cp mod 64 < 64 \<and> R (cp div 64 * 64 + cp mod 64) (cp div 64) (cp mod 64)" by simp
  then show "\<exists>a b. b < 64 \<and> R (a * 64 + b) a b" by blast
next
  assume "\<exists>a b. b < 64 \<and> R (a * 64 + b) a b"
  then obtain a b where "b < 64" "R (a * 64 + b) a b" by blast
  then show "\<exists>cp. R cp (cp div 64) (cp mod 64)" by (intro exI [of _ "a * 64 + b"]) simp
qed

lemma ex_digits3:
  fixes R :: "nat \<Rightarrow> nat \<Rightarrow> nat \<Rightarrow> nat \<Rightarrow> bool"
  shows "(\<exists>cp. R cp (cp div 4096) (cp div 64 mod 64) (cp mod 64)) \<longleftrightarrow>
    (\<exists>a b c. b < 64 \<and> c < 64 \<and> R (a * 4096 + b * 64 + c) a b c)"
proof -
  have e: "cp div 4096 = cp div 64 div 64" for cp :: nat by (simp flip: div_mult2_eq)
  have "(\<exists>cp. R cp (cp div 64 div 64) (cp div 64 mod 64) (cp mod 64)) \<longleftrightarrow>
     (\<exists>q c. c < 64 \<and> R (q * 64 + c) (q div 64) (q mod 64) c)"
    using ex_digits2 [of "\<lambda>cp q c. R cp (q div 64) (q mod 64) c"] .
  also have "\<dots> \<longleftrightarrow> (\<exists>c. c < 64 \<and> (\<exists>q. R (q * 64 + c) (q div 64) (q mod 64) c))" by blast
  also have "\<dots> \<longleftrightarrow> (\<exists>c. c < 64 \<and> (\<exists>a b. b < 64 \<and> R ((a * 64 + b) * 64 + c) a b c))"
    using ex_digits2 [of "\<lambda>q a b. R (q * 64 + c) a b c" for c] by simp
  finally show ?thesis unfolding e by (auto simp: algebra_simps)
qed

lemma ex_digits4:
  fixes R :: "nat \<Rightarrow> nat \<Rightarrow> nat \<Rightarrow> nat \<Rightarrow> nat \<Rightarrow> bool"
  shows "(\<exists>cp. R cp (cp div 262144) (cp div 4096 mod 64) (cp div 64 mod 64) (cp mod 64)) \<longleftrightarrow>
    (\<exists>a b c d. b < 64 \<and> c < 64 \<and> d < 64 \<and> R (a * 262144 + b * 4096 + c * 64 + d) a b c d)"
proof -
  have e: "cp div 262144 = cp div 64 div 4096" "cp div 4096 = cp div 64 div 64" for cp :: nat
    by (simp_all flip: div_mult2_eq)
  have "(\<exists>cp. R cp (cp div 64 div 4096) (cp div 64 div 64 mod 64) (cp div 64 mod 64) (cp mod 64)) \<longleftrightarrow>
     (\<exists>q d. d < 64 \<and> R (q * 64 + d) (q div 4096) (q div 64 mod 64) (q mod 64) d)"
    using ex_digits2 [of "\<lambda>cp q d. R cp (q div 4096) (q div 64 mod 64) (q mod 64) d"] .
  also have "\<dots> \<longleftrightarrow> (\<exists>d. d < 64 \<and> (\<exists>q. R (q * 64 + d) (q div 4096) (q div 64 mod 64) (q mod 64) d))" by blast
  also have "\<dots> \<longleftrightarrow> (\<exists>d. d < 64 \<and> (\<exists>a b c. b < 64 \<and> c < 64 \<and> R ((a * 4096 + b * 64 + c) * 64 + d) a b c d))"
    using ex_digits3 [of "\<lambda>q a b c. R (q * 64 + d) a b c d" for d] by simp
  finally show ?thesis unfolding e by (auto simp: algebra_simps)
qed

lemma prefix_bytes_iff:
  "list_all (\<lambda>n. 0 < n \<and> n < 256) ns \<Longrightarrow>
     prefix (map char_of ns) p \<longleftrightarrow> (\<forall>i<length ns. at p i = ns ! i)"
proof (induction ns arbitrary: p)
  case (Cons n ns)
  show ?case
  proof (cases p)
    case Nil
    with Cons.prems show ?thesis by (auto simp: at_def)
  next
    case p: (Cons c cs)
    have shift: "at p (Suc i) = at cs i" for i by (simp add: at_def p)
    have "(\<forall>i<length (n # ns). at p i = (n # ns) ! i) \<longleftrightarrow> at p 0 = n \<and> (\<forall>i<length ns. at cs i = ns ! i)"
      by (auto simp: All_less_Suc2 shift)
    also have "at p 0 = n \<longleftrightarrow> c = char_of n"
      using Cons.prems by (auto simp: at_def p byte_val_char_of)
    finally show ?thesis using Cons by (auto simp: p)
  qed
qed simp

lemma utf8_bytes_range: "0 < cp \<Longrightarrow> scalar_value cp \<Longrightarrow> list_all (\<lambda>n. 0 < n \<and> n < 256) (utf8_bytes cp)"
  by (auto simp: utf8_bytes_def scalar_value_def less_mult_imp_div_less)

definition seq_at :: "string \<Rightarrow> nat \<Rightarrow> bool" where
  "seq_at p cp \<longleftrightarrow> 0x80 \<le> cp \<and> scalar_value cp \<and> prefix (utf8_encode cp) p"

lemma seq_at_bytes:
  "seq_at p cp \<longleftrightarrow> 0x80 \<le> cp \<and> scalar_value cp \<and> (\<forall>i<length (utf8_bytes cp). at p i = utf8_bytes cp ! i)"
  using prefix_bytes_iff [OF utf8_bytes_range, of cp p]
  by (cases "0x80 \<le> cp \<and> scalar_value cp") (auto simp: seq_at_def utf8_encode_def)

lemma all_less2: "(\<forall>i<length [a, b]. f i = [a, b] ! i) \<longleftrightarrow> f 0 = a \<and> f 1 = b"
  by (simp add: All_less_Suc2)

lemma all_less3: "(\<forall>i<length [a, b, c]. f i = [a, b, c] ! i) \<longleftrightarrow> f 0 = a \<and> f 1 = b \<and> f 2 = c"
  by (simp add: All_less_Suc2 numeral_2_eq_2)

lemma all_less4:
  "(\<forall>i<length [a, b, c, d]. f i = [a, b, c, d] ! i) \<longleftrightarrow> f 0 = a \<and> f 1 = b \<and> f 2 = c \<and> f 3 = d"
  by (simp add: All_less_Suc2 numeral_2_eq_2 numeral_3_eq_3)

lemma seq_at_2:
  "seq_at p cp \<and> cp < 0x800 \<longleftrightarrow>
     0x80 \<le> cp \<and> cp < 0x800 \<and> at p 0 = 0xC0 + cp div 64 \<and> at p 1 = 0x80 + cp mod 64"
proof (cases "0x80 \<le> cp \<and> cp < 0x800")
  case True
  then have "utf8_bytes cp = [0xC0 + cp div 64, 0x80 + cp mod 64]" "scalar_value cp"
    by (simp_all add: utf8_bytes_def scalar_value_def)
  with True show ?thesis unfolding seq_at_bytes by (simp only: all_less2) simp
next
  case False
  then show ?thesis by (auto simp: seq_at_def)
qed

lemma seq_at_3:
  "seq_at p cp \<and> 0x800 \<le> cp \<and> cp < 0x10000 \<longleftrightarrow>
     0x800 \<le> cp \<and> cp < 0x10000 \<and> (cp < 0xD800 \<or> 0xE000 \<le> cp) \<and>
     at p 0 = 0xE0 + cp div 4096 \<and> at p 1 = 0x80 + cp div 64 mod 64 \<and> at p 2 = 0x80 + cp mod 64"
proof (cases "0x800 \<le> cp \<and> cp < 0x10000")
  case True
  then have "utf8_bytes cp = [0xE0 + cp div 4096, 0x80 + cp div 64 mod 64, 0x80 + cp mod 64]"
    "scalar_value cp \<longleftrightarrow> cp < 0xD800 \<or> 0xE000 \<le> cp" "0x80 \<le> cp"
    by (auto simp add: utf8_bytes_def scalar_value_def)
  with True show ?thesis unfolding seq_at_bytes by (simp only: all_less3) blast
next
  case False
  then show ?thesis by blast
qed

lemma seq_at_4:
  "seq_at p cp \<and> 0x10000 \<le> cp \<longleftrightarrow>
     0x10000 \<le> cp \<and> cp < 0x110000 \<and> at p 0 = 0xF0 + cp div 262144 \<and>
     at p 1 = 0x80 + cp div 4096 mod 64 \<and> at p 2 = 0x80 + cp div 64 mod 64 \<and> at p 3 = 0x80 + cp mod 64"
proof (cases "0x10000 \<le> cp")
  case True
  then have "utf8_bytes cp = [0xF0 + cp div 262144, 0x80 + cp div 4096 mod 64, 0x80 + cp div 64 mod 64, 0x80 + cp mod 64]"
    "scalar_value cp \<longleftrightarrow> cp < 0x110000" "0x80 \<le> cp"
    by (auto simp add: utf8_bytes_def scalar_value_def)
  with True show ?thesis unfolding seq_at_bytes by (simp only: all_less4) blast
next
  case False
  then show ?thesis by blast
qed

lemma seq2_iff:
  "(\<exists>cp. seq_at p cp \<and> cp < 0x800) \<longleftrightarrow> in_range 0xC2 0xDF (at p 0) \<and> in_range 0x80 0xBF (at p 1)"
  unfolding seq_at_2
    ex_digits2 [of "\<lambda>cp a b. 0x80 \<le> cp \<and> cp < 0x800 \<and> at p 0 = 0xC0 + a \<and> at p 1 = 0x80 + b"]
proof
  assume "in_range 0xC2 0xDF (at p 0) \<and> in_range 0x80 0xBF (at p 1)"
  then show "\<exists>a b. b < 64 \<and> 0x80 \<le> a * 64 + b \<and> a * 64 + b < 0x800 \<and> at p 0 = 0xC0 + a \<and> at p 1 = 0x80 + b"
    by (intro exI [of _ "at p 0 - 0xC0"] exI [of _ "at p 1 - 0x80"]) (auto simp: in_range_def)
qed (auto simp: in_range_def)

definition table3 :: "nat \<Rightarrow> nat \<Rightarrow> nat \<Rightarrow> bool" where
  "table3 b0 b1 b2 \<longleftrightarrow> in_range 0x80 0xBF b2 \<and>
     (b0 = 0xE0 \<and> in_range 0xA0 0xBF b1 \<or>
      (in_range 0xE1 0xEC b0 \<or> b0 = 0xEE \<or> b0 = 0xEF) \<and> in_range 0x80 0xBF b1 \<or>
      b0 = 0xED \<and> in_range 0x80 0x9F b1)"

definition table4 :: "nat \<Rightarrow> nat \<Rightarrow> nat \<Rightarrow> nat \<Rightarrow> bool" where
  "table4 b0 b1 b2 b3 \<longleftrightarrow> in_range 0x80 0xBF b2 \<and> in_range 0x80 0xBF b3 \<and>
     (b0 = 0xF0 \<and> in_range 0x90 0xBF b1 \<or>
      in_range 0xF1 0xF3 b0 \<and> in_range 0x80 0xBF b1 \<or>
      b0 = 0xF4 \<and> in_range 0x80 0x8F b1)"

lemma seq3_iff:
  "(\<exists>cp. seq_at p cp \<and> 0x800 \<le> cp \<and> cp < 0x10000) \<longleftrightarrow> table3 (at p 0) (at p 1) (at p 2)"
  unfolding seq_at_3
    ex_digits3 [of "\<lambda>cp a b c. 0x800 \<le> cp \<and> cp < 0x10000 \<and> (cp < 0xD800 \<or> 0xE000 \<le> cp) \<and>
      at p 0 = 0xE0 + a \<and> at p 1 = 0x80 + b \<and> at p 2 = 0x80 + c"]
proof
  assume "table3 (at p 0) (at p 1) (at p 2)"
  then show "\<exists>a b c. b < 64 \<and> c < 64 \<and> 0x800 \<le> a * 4096 + b * 64 + c \<and> a * 4096 + b * 64 + c < 0x10000 \<and>
      (a * 4096 + b * 64 + c < 0xD800 \<or> 0xE000 \<le> a * 4096 + b * 64 + c) \<and>
      at p 0 = 0xE0 + a \<and> at p 1 = 0x80 + b \<and> at p 2 = 0x80 + c"
    unfolding table3_def in_range_def
    by (intro exI [of _ "at p 0 - 0xE0"] exI [of _ "at p 1 - 0x80"] exI [of _ "at p 2 - 0x80"]) linarith
next
  assume "\<exists>a b c. b < 64 \<and> c < 64 \<and> 0x800 \<le> a * 4096 + b * 64 + c \<and> a * 4096 + b * 64 + c < 0x10000 \<and>
      (a * 4096 + b * 64 + c < 0xD800 \<or> 0xE000 \<le> a * 4096 + b * 64 + c) \<and>
      at p 0 = 0xE0 + a \<and> at p 1 = 0x80 + b \<and> at p 2 = 0x80 + c"
  then show "table3 (at p 0) (at p 1) (at p 2)"
    unfolding table3_def in_range_def by (elim exE conjE) linarith
qed

lemma seq4_iff:
  "(\<exists>cp. seq_at p cp \<and> 0x10000 \<le> cp) \<longleftrightarrow> table4 (at p 0) (at p 1) (at p 2) (at p 3)"
  unfolding seq_at_4
    ex_digits4 [of "\<lambda>cp a b c d. 0x10000 \<le> cp \<and> cp < 0x110000 \<and>
      at p 0 = 0xF0 + a \<and> at p 1 = 0x80 + b \<and> at p 2 = 0x80 + c \<and> at p 3 = 0x80 + d"]
proof
  assume "table4 (at p 0) (at p 1) (at p 2) (at p 3)"
  then show "\<exists>a b c d. b < 64 \<and> c < 64 \<and> d < 64 \<and> 0x10000 \<le> a * 262144 + b * 4096 + c * 64 + d \<and>
      a * 262144 + b * 4096 + c * 64 + d < 0x110000 \<and>
      at p 0 = 0xF0 + a \<and> at p 1 = 0x80 + b \<and> at p 2 = 0x80 + c \<and> at p 3 = 0x80 + d"
    unfolding table4_def in_range_def
    by (intro exI [of _ "at p 0 - 0xF0"] exI [of _ "at p 1 - 0x80"] exI [of _ "at p 2 - 0x80"]
        exI [of _ "at p 3 - 0x80"]) linarith
next
  assume "\<exists>a b c d. b < 64 \<and> c < 64 \<and> d < 64 \<and> 0x10000 \<le> a * 262144 + b * 4096 + c * 64 + d \<and>
      a * 262144 + b * 4096 + c * 64 + d < 0x110000 \<and>
      at p 0 = 0xF0 + a \<and> at p 1 = 0x80 + b \<and> at p 2 = 0x80 + c \<and> at p 3 = 0x80 + d"
  then show "table4 (at p 0) (at p 1) (at p 2) (at p 3)"
    unfolding table4_def in_range_def by (elim exE conjE) linarith
qed

lemma utf8_valid_len_table:
  "utf8_valid_len p =
     (if in_range 0xC2 0xDF (at p 0) \<and> in_range 0x80 0xBF (at p 1) then 2
      else if table3 (at p 0) (at p 1) (at p 2) then 3
      else if table4 (at p 0) (at p 1) (at p 2) (at p 3) then 4 else 0)"
proof -
  have dis: "in_range a b x \<Longrightarrow> b < c \<Longrightarrow> \<not> in_range c d x" "in_range a b x \<Longrightarrow> b < c \<Longrightarrow> x \<noteq> c"
      "in_range a b x \<Longrightarrow> c < a \<Longrightarrow> x \<noteq> c" for a b c d x
    by (auto simp: in_range_def)
  have num: "in_range a b (numeral k) \<longleftrightarrow> a \<le> numeral k \<and> numeral k \<le> b" for a b k
    by (simp add: in_range_def)
  consider "in_range 0xC2 0xDF (at p 0)" | "at p 0 = 0xE0" | "in_range 0xE1 0xEC (at p 0)" | "at p 0 = 0xEE"
    | "at p 0 = 0xEF" | "at p 0 = 0xED" | "at p 0 = 0xF0" | "in_range 0xF1 0xF3 (at p 0)" | "at p 0 = 0xF4"
    | "\<not> in_range 0xC2 0xDF (at p 0)" "at p 0 \<noteq> 0xE0" "\<not> in_range 0xE1 0xEC (at p 0)" "at p 0 \<noteq> 0xEE"
      "at p 0 \<noteq> 0xEF" "at p 0 \<noteq> 0xED" "at p 0 \<noteq> 0xF0" "\<not> in_range 0xF1 0xF3 (at p 0)" "at p 0 \<noteq> 0xF4"
    by blast
  then show ?thesis
  proof cases
    case 1
    note d = dis(1) [OF 1] dis(2) [OF 1]
    show ?thesis unfolding utf8_valid_len_def Let_def table3_def table4_def using 1 by (simp add: d)
  next
    case 3
    have "\<not> in_range 0xC2 0xDF (at p 0)" using 3 by (auto simp: in_range_def)
    moreover note d = dis(1) [OF 3] dis(2) [OF 3] dis(3) [OF 3]
    ultimately show ?thesis unfolding utf8_valid_len_def Let_def table3_def table4_def using 3 by (simp add: d)
  next
    case 8
    have "\<not> in_range 0xC2 0xDF (at p 0)" "\<not> in_range 0xE1 0xEC (at p 0)" using 8 by (auto simp: in_range_def)
    moreover note d = dis(1) [OF 8] dis(2) [OF 8] dis(3) [OF 8]
    ultimately show ?thesis unfolding utf8_valid_len_def Let_def table3_def table4_def using 8 by (simp add: d)
  qed (unfold utf8_valid_len_def Let_def table3_def table4_def, simp_all add: num)
qed

lemma tables_disjoint:
  "in_range 0xC2 0xDF (at p 0) \<Longrightarrow> \<not> table3 (at p 0) (at p 1) (at p 2)"
  "in_range 0xC2 0xDF (at p 0) \<Longrightarrow> \<not> table4 (at p 0) (at p 1) (at p 2) (at p 3)"
  "table3 (at p 0) (at p 1) (at p 2) \<Longrightarrow> \<not> table4 (at p 0) (at p 1) (at p 2) (at p 3)"
  unfolding table3_def table4_def in_range_def by auto

lemma utf8_encode_length:
  "length (utf8_encode cp) = (if cp < 0x80 then 1 else if cp < 0x800 then 2 else if cp < 0x10000 then 3 else 4)"
  by (simp add: utf8_encode_def utf8_bytes_def)

lemma seq_at_length:
  "(\<exists>cp. seq_at p cp \<and> n = length (utf8_encode cp)) \<longleftrightarrow>
     n = 2 \<and> (\<exists>cp. seq_at p cp \<and> cp < 0x800) \<or>
     n = 3 \<and> (\<exists>cp. seq_at p cp \<and> 0x800 \<le> cp \<and> cp < 0x10000) \<or>
     n = 4 \<and> (\<exists>cp. seq_at p cp \<and> 0x10000 \<le> cp)" (is "?l \<longleftrightarrow> ?r")
proof
  assume ?l
  then obtain cp where cp: "seq_at p cp" "n = length (utf8_encode cp)" by blast
  then have "0x80 \<le> cp" by (simp add: seq_at_def)
  consider "cp < 0x800" | "0x800 \<le> cp" "cp < 0x10000" | "0x10000 \<le> cp" by linarith
  then show ?r
  proof cases
    case 1
    with cp \<open>0x80 \<le> cp\<close> show ?thesis unfolding utf8_encode_length by auto
  next
    case 2
    with cp have "n = 3" unfolding utf8_encode_length by simp
    with cp 2 show ?thesis by blast
  next
    case 3
    with cp have "n = 4" unfolding utf8_encode_length by simp
    with cp 3 show ?thesis by blast
  qed
next
  assume ?r
  then show ?l
  proof (elim disjE conjE exE)
    fix cp assume "n = 2" "seq_at p cp" "cp < 0x800"
    then show ?l unfolding utf8_encode_length by (intro exI [of _ cp]) (auto simp: seq_at_def)
  next
    fix cp :: nat assume "n = 3" "seq_at p cp" "0x800 \<le> cp" "cp < 0x10000"
    then show ?l unfolding utf8_encode_length by (intro exI [of _ cp]) simp
  next
    fix cp :: nat assume "n = 4" "seq_at p cp" "0x10000 \<le> cp"
    then show ?l unfolding utf8_encode_length by (intro exI [of _ cp]) simp
  qed
qed

lemma utf8_len_iff: "(n \<noteq> 0 \<and> utf8_valid_len p = n) \<longleftrightarrow> (\<exists>cp. seq_at p cp \<and> n = length (utf8_encode cp))"
  unfolding seq_at_length seq2_iff seq3_iff seq4_iff utf8_valid_len_table
  using tables_disjoint [of p] by (auto split: if_splits)

lemma valid_len_pos:
  assumes "utf8_valid_len p \<noteq> 0"
  obtains cp where "0x80 \<le> cp" "scalar_value cp" "take (utf8_valid_len p) p = utf8_encode cp"
proof -
  from assms utf8_len_iff [of "utf8_valid_len p" p] obtain cp where
    cp: "seq_at p cp" "utf8_valid_len p = length (utf8_encode cp)" by blast
  then have "take (utf8_valid_len p) p = utf8_encode cp" by (auto simp: seq_at_def elim: prefixE)
  with cp that [of cp] show ?thesis unfolding seq_at_def by metis
qed

section \<open>The text of a JSON string\<close>

text \<open>What a reader of the JSON string gets: the text with every ill-formed byte replaced by U+FFFD.\<close>

definition sanitize_step :: "string \<Rightarrow> string \<times> string" where
  "sanitize_step p =
     (if byte_val (hd p) < 0x80 then ([hd p], tl p)
      else if utf8_valid_len p = 0 then (utf8_encode 0xFFFD, tl p)
      else (take (utf8_valid_len p) p, drop (utf8_valid_len p) p))"

lemma sanitize_step_shrinks: "p \<noteq> [] \<Longrightarrow> length (snd (sanitize_step p)) < length p"
  by (cases p) (auto simp: sanitize_step_def)

function sanitize :: "string \<Rightarrow> string" where
  "sanitize p = (if p = [] then [] else fst (sanitize_step p) @ sanitize (snd (sanitize_step p)))"
  by pat_completeness auto
termination
  by (relation "measure length") (auto intro: sanitize_step_shrinks)

declare sanitize.simps [simp del]

lemma replacement_bytes_encode: "replacement_bytes = utf8_encode 0xFFFD"
  by (simp add: replacement_bytes_def utf8_encode_def utf8_bytes_def) code_simp

lemma valid_utf8_step: "p \<noteq> [] \<Longrightarrow> valid_utf8 (fst (sanitize_step p))"
proof (cases "byte_val (hd p) < 0x80")
  case True
  then show ?thesis by (simp add: sanitize_step_def valid_utf8_ascii1)
next
  case False
  have "valid_utf8 (take (utf8_valid_len p) p)" if "utf8_valid_len p \<noteq> 0"
    using that by (rule valid_len_pos) (simp add: valid_utf8_encode)
  with False show ?thesis by (simp add: sanitize_step_def valid_utf8_encode scalar_value_def)
qed

lemma sanitize_valid: "valid_utf8 (sanitize p)"
proof (induction p rule: sanitize.induct)
  case (1 p)
  then show ?case by (subst sanitize.simps) (simp add: valid_utf8_append valid_utf8_step)
qed

lemma utf8_bytes_high: "0x80 \<le> cp \<Longrightarrow> list_all (\<lambda>n. 0x80 \<le> n) (utf8_bytes cp)"
  by (simp add: utf8_bytes_def)

lemma utf8_encode_hd:
  assumes "0x80 \<le> cp" "scalar_value cp"
  shows "list_all (\<lambda>c. 0x80 \<le> byte_val c) (utf8_encode cp)"
proof -
  have "list_all (\<lambda>n. 0x80 \<le> n) ns \<Longrightarrow> list_all (\<lambda>n. 0 < n \<and> n < 256) ns \<Longrightarrow>
      list_all (\<lambda>c. 0x80 \<le> byte_val c) (map char_of ns)" for ns :: "nat list"
    by (induction ns) (simp_all add: byte_val_char_of)
  from this [OF utf8_bytes_high [OF assms(1)] utf8_bytes_range] assms show ?thesis
    by (simp add: utf8_encode_def)
qed

lemma sanitize_step_encode:
  assumes "scalar_value cp"
  shows "sanitize_step (utf8_encode cp @ r) = (utf8_encode cp, r)"
proof (cases "cp < 0x80")
  case True
  then show ?thesis by (simp add: utf8_encode_ascii sanitize_step_def byte_val_char_of)
next
  case False
  with assms have "seq_at (utf8_encode cp @ r) cp" by (simp add: seq_at_def)
  then have len: "utf8_valid_len (utf8_encode cp @ r) = length (utf8_encode cp)" "utf8_encode cp \<noteq> []"
    using utf8_len_iff [of "length (utf8_encode cp)" "utf8_encode cp @ r"]
    by (auto simp: utf8_encode_def utf8_bytes_def)
  with utf8_encode_hd [of cp] assms False have "\<not> byte_val (hd (utf8_encode cp @ r)) < 0x80"
    by (cases "utf8_encode cp") auto
  with len show ?thesis by (simp add: sanitize_step_def)
qed

text \<open>Well-formed text is left alone.\<close>

lemma sanitize_id: "valid_utf8 s \<Longrightarrow> sanitize s = s"
proof -
  have "list_all scalar_value cps \<Longrightarrow> sanitize (concat (map utf8_encode cps)) = concat (map utf8_encode cps)" for cps
  proof (induction cps)
    case Nil
    then show ?case by (simp add: sanitize.simps)
  next
    case (Cons cp cps)
    have "utf8_encode cp \<noteq> []" by (simp add: utf8_encode_def utf8_bytes_def)
    with Cons sanitize_step_encode [of cp "concat (map utf8_encode cps)"] show ?case
      by (subst sanitize.simps) simp
  qed
  then show "valid_utf8 s \<Longrightarrow> ?thesis" by (auto simp: valid_utf8_def)
qed

lemma hex_digit_lower_ascii: "d < 16 \<Longrightarrow> byte_val (hex_digit_lower d) < 0x80"
  by (simp add: hex_digit_lower_def byte_val_char_of)

lemma byte_val_specials:
  "byte_val BSL = 92" "byte_val DQ = 34" "byte_val LF = 10" "byte_val CR = 13" "byte_val TAB = 9"
  "byte_val (CHR ''u'') = 117" "byte_val (CHR ''n'') = 110" "byte_val (CHR ''r'') = 114" "byte_val (CHR ''t'') = 116"
  by (simp_all add: byte_val_def)

lemma json_step_ascii:
  "byte_val (hd p) < 0x80 \<Longrightarrow> list_all (\<lambda>c. byte_val c < 0x80) (fst (json_step p))"
  by (simp add: json_step_def Let_def u_escape_def hex_digit_lower_ascii byte_val_specials)

lemma json_step_high:
  "\<not> byte_val (hd p) < 0x80 \<Longrightarrow> json_step p = sanitize_step p"
proof -
  assume h: "\<not> byte_val (hd p) < 0x80"
  then have "hd p \<noteq> BSL" "hd p \<noteq> DQ" "hd p \<noteq> LF" "hd p \<noteq> CR" "hd p \<noteq> TAB" "\<not> byte_val (hd p) < 0x20"
    by (auto simp: byte_val_specials)
  with h show ?thesis by (simp add: json_step_def sanitize_step_def Let_def replacement_bytes_encode)
qed

lemma json_step_valid: "p \<noteq> [] \<Longrightarrow> valid_utf8 (fst (json_step p))"
  using valid_utf8_ascii [OF json_step_ascii, of p] json_step_high [of p] valid_utf8_step [of p]
  by (cases "byte_val (hd p) < 0x80") simp_all

lemma json_chars_valid: "valid_utf8 (json_chars p)"
proof (induction p rule: json_chars.induct)
  case (1 p)
  then show ?case by (subst json_chars.simps) (simp add: valid_utf8_append json_step_valid)
qed

end
