(* ===== verification/JsonDoc.thy ===== *)
theory JsonDoc
  imports Utf8
begin

text \<open>
  The abstract side of the JSON document: JSON values, a reader for them, and the value the
  renderer means to print. The printed document is shown to be well-formed UTF-8 and to read back
  as that value, whatever bytes the names and details hold.
\<close>

section \<open>Reading a JSON string\<close>

fun push :: "string \<Rightarrow> (string \<times> 'a) option \<Rightarrow> (string \<times> 'a) option" where
  "push u None = None"
| "push u (Some (s, r)) = Some (u @ s, r)"

definition simple_escape :: "char \<Rightarrow> char option" where
  "simple_escape c =
     (if c = DQ \<or> c = BSL \<or> c = CHR ''/'' then Some c
      else if c = CHR ''n'' then Some LF else if c = CHR ''r'' then Some CR
      else if c = CHR ''t'' then Some TAB else if c = CHR ''b'' then Some (CHR 0x08)
      else if c = CHR ''f'' then Some (CHR 0x0C) else None)"

definition hex4_value :: "string \<Rightarrow> nat" where
  "hex4_value hs = num_val 16 xdigit_val hs"

text \<open>From after the opening quote: the text and what follows the closing quote (RFC 8259, without surrogate pairs).\<close>

fun read_jstring :: "string \<Rightarrow> (string \<times> string) option" where
  "read_jstring [] = None"
| "read_jstring (c # cs) =
     (if c = DQ then Some ([], cs)
      else if c = BSL then
        (case cs of
           [] \<Rightarrow> None
         | d # ds \<Rightarrow>
             if d = CHR ''u'' then
               (if length ds < 4 \<or> \<not> list_all c_isxdigit (take 4 ds) \<or> \<not> scalar_value (hex4_value (take 4 ds))
                then None
                else push (utf8_encode (hex4_value (take 4 ds))) (read_jstring (drop 4 ds)))
             else (case simple_escape d of None \<Rightarrow> None | Some x \<Rightarrow> push [x] (read_jstring ds)))
      else if byte_val c < 0x20 then None
      else push [c] (read_jstring cs))"

lemma push_append [simp]: "push u (push v x) = push (u @ v) x"
  by (cases x) auto

lemma push_Nil [simp]: "push [] x = x"
  by (cases x) auto

lemma read_high: "list_all (\<lambda>c. 0x80 \<le> byte_val c) u \<Longrightarrow> read_jstring (u @ r) = push u (read_jstring r)"
proof (induction u)
  case (Cons c u)
  then have "c \<noteq> DQ" "c \<noteq> BSL" "\<not> byte_val c < 0x20" by (auto simp: byte_val_specials)
  with Cons show ?case by simp
qed simp

lemma byte_val_hex_digit_lower:
  "d < 16 \<Longrightarrow> byte_val (hex_digit_lower d) = (if d < 10 then 48 + d else 87 + d)"
  by (simp add: hex_digit_lower_def byte_val_char_of)

lemma hex_lower_digit:
  assumes "d < 16"
  shows "c_isxdigit (hex_digit_lower d)" "xdigit_val (hex_digit_lower d) = d"
proof -
  have "list_all (\<lambda>d. c_isxdigit (hex_digit_lower d) \<and> xdigit_val (hex_digit_lower d) = d) [0..<16]"
    by code_simp
  then have "c_isxdigit (hex_digit_lower d) \<and> xdigit_val (hex_digit_lower d) = d"
    using assms by (simp add: list_all_iff)
  then show "c_isxdigit (hex_digit_lower d)" "xdigit_val (hex_digit_lower d) = d" by simp_all
qed

lemma read_u_escape:
  assumes "n < 0x20"
  shows "read_jstring (u_escape n @ r) = push [char_of n] (read_jstring r)"
proof -
  have n: "n div 4096 mod 16 = 0" "n div 256 mod 16 = 0" "n div 16 mod 16 = n div 16" "n div 16 < 16"
    using assms by (auto simp: less_mult_imp_div_less)
  have v: "hex4_value [hex_digit_lower 0, hex_digit_lower 0, hex_digit_lower (n div 16), hex_digit_lower (n mod 16)] = n"
    using n by (simp add: hex4_value_def num_val_def hex_lower_digit)
  show ?thesis
    using n v assms
    by (simp add: u_escape_def hex_lower_digit utf8_encode_ascii scalar_value_def)
qed

lemma read_json_step:
  assumes "p \<noteq> []"
  shows "read_jstring (fst (json_step p) @ r) = push (fst (sanitize_step p)) (read_jstring r)
       \<and> snd (json_step p) = snd (sanitize_step p)"
proof (cases "byte_val (hd p) < 0x80")
  case True
  consider "hd p = BSL" | "hd p = DQ" | "hd p = LF" | "hd p = CR" | "hd p = TAB"
    | "hd p \<notin> {BSL, DQ, LF, CR, TAB}" "byte_val (hd p) < 0x20"
    | "hd p \<notin> {BSL, DQ, LF, CR, TAB}" "\<not> byte_val (hd p) < 0x20" by blast
  then show ?thesis
    by cases (simp_all add: json_step_def sanitize_step_def Let_def byte_val_specials simple_escape_def
        read_u_escape True)
next
  case False
  moreover have "list_all (\<lambda>c. 0x80 \<le> byte_val c) (fst (sanitize_step p))"
  proof (cases "utf8_valid_len p = 0")
    case True
    with False show ?thesis by (simp add: sanitize_step_def utf8_encode_hd scalar_value_def)
  next
    case ne: False
    then have "list_all (\<lambda>c. 0x80 \<le> byte_val c) (take (utf8_valid_len p) p)"
      by (rule valid_len_pos) (simp add: utf8_encode_hd)
    with False ne show ?thesis by (simp add: sanitize_step_def)
  qed
  ultimately show ?thesis by (simp add: json_step_high read_high)
qed

lemma read_json_chars: "read_jstring (json_chars p @ DQ # r) = Some (sanitize p, r)"
proof (induction p rule: json_chars.induct)
  case (1 p)
  show ?case
  proof (cases "p = []")
    case True
    then show ?thesis by (simp add: json_chars.simps sanitize.simps)
  next
    case False
    have j: "json_chars p = fst (json_step p) @ json_chars (snd (json_step p))"
      using False by (subst json_chars.simps) simp
    have s: "sanitize p = fst (sanitize_step p) @ sanitize (snd (sanitize_step p))"
      using False by (subst sanitize.simps) simp
    have "read_jstring (json_chars p @ DQ # r) =
        push (fst (sanitize_step p)) (read_jstring (json_chars (snd (json_step p)) @ DQ # r))"
      using read_json_step [OF False] by (simp add: j)
    also have "\<dots> = Some (sanitize p, r)"
      using 1 [OF False] read_json_step [OF False] by (simp add: s)
    finally show ?thesis .
  qed
qed

section \<open>JSON values and their reader\<close>

datatype json = JStr string | JNum nat | JBool bool | JArr "json list" | JObj "(string \<times> json) list"

fun render :: "json \<Rightarrow> string"
  and render_elems :: "json list \<Rightarrow> string"
  and render_members :: "(string \<times> json) list \<Rightarrow> string" where
  "render (JStr s) = print_json_string s"
| "render (JNum n) = dec_nat n"
| "render (JBool b) = print_bool b"
| "render (JArr vs) = ''['' @ render_elems vs @ '']''"
| "render (JObj ms) = ''{'' @ render_members ms @ ''}''"
| "render_elems [] = []"
| "render_elems (v # vs) = render v @ (if vs = [] then [] else '','' @ render_elems vs)"
| "render_members [] = []"
| "render_members ((k, v) # ms) =
     print_json_string k @ '':'' @ render v @ (if ms = [] then [] else '','' @ render_members ms)"

text \<open>A reader of compact JSON texts with natural numbers; the fuel bounds the nesting and the lengths.\<close>

fun read_value :: "nat \<Rightarrow> string \<Rightarrow> (json \<times> string) option"
  and read_elems :: "nat \<Rightarrow> string \<Rightarrow> (json list \<times> string) option"
  and read_members :: "nat \<Rightarrow> string \<Rightarrow> ((string \<times> json) list \<times> string) option" where
  "read_value 0 s = None"
| "read_value (Suc n) s =
     (if s = [] then None
      else if hd s = DQ then map_option (apfst JStr) (read_jstring (tl s))
      else if c_isdigit (hd s) then
        Some (JNum (num_val 10 digit_val (takeWhile c_isdigit s)), dropWhile c_isdigit s)
      else if prefix ''true'' s then Some (JBool True, drop 4 s)
      else if prefix ''false'' s then Some (JBool False, drop 5 s)
      else if prefix ''[]'' s then Some (JArr [], drop 2 s)
      else if hd s = CHR ''['' then map_option (apfst JArr) (read_elems n (tl s))
      else if prefix ''{}'' s then Some (JObj [], drop 2 s)
      else if hd s = CHR ''{'' then map_option (apfst JObj) (read_members n (tl s))
      else None)"
| "read_elems 0 s = None"
| "read_elems (Suc n) s =
     (case read_value n s of
        Some (v, c # r) \<Rightarrow>
          if c = CHR '']'' then Some ([v], r)
          else if c = CHR '','' then map_option (apfst ((#) v)) (read_elems n r) else None
      | _ \<Rightarrow> None)"
| "read_members 0 s = None"
| "read_members (Suc n) s =
     (if s = [] \<or> hd s \<noteq> DQ then None
      else case read_jstring (tl s) of
        Some (k, c # r) \<Rightarrow>
          if c \<noteq> CHR '':'' then None
          else (case read_value n r of
             Some (v, d # r') \<Rightarrow>
               if d = CHR ''}'' then Some ([(k, v)], r')
               else if d = CHR '','' then map_option (apfst ((#) (k, v))) (read_members n r') else None
           | _ \<Rightarrow> None)
      | _ \<Rightarrow> None)"

text \<open>What the reader gets for each string of a value.\<close>

fun clean :: "json \<Rightarrow> json" where
  "clean (JStr s) = JStr (sanitize s)"
| "clean (JNum n) = JNum n"
| "clean (JBool b) = JBool b"
| "clean (JArr vs) = JArr (map clean vs)"
| "clean (JObj ms) = JObj (map (\<lambda>(k, v). (sanitize k, clean v)) ms)"

definition stop_char :: "string \<Rightarrow> bool" where
  "stop_char r \<longleftrightarrow> r = [] \<or> \<not> c_isdigit (hd r)"

lemma hd_dec_nat: "c_isdigit (hd (dec_nat n))"
  using dec_nat_digits [of "hd (dec_nat n)" n] by simp

lemma render_hd: "render v \<noteq> []" "hd (render v) \<noteq> CHR '']''"
proof -
  have "\<not> c_isdigit (CHR '']'')" by code_simp
  then have "hd (dec_nat n) \<noteq> CHR '']''" for n using hd_dec_nat [of n] by auto
  then show "render v \<noteq> []" "hd (render v) \<noteq> CHR '']''"
    by (cases v; simp add: print_json_string_def print_bool_def)+
qed

lemma render_elems_hd: "vs \<noteq> [] \<Longrightarrow> render_elems vs \<noteq> [] \<and> hd (render_elems vs) \<noteq> CHR '']''"
  by (cases vs) (simp_all add: render_hd)

lemma read_number:
  assumes "stop_char r"
  shows "takeWhile c_isdigit (dec_nat n @ r) = dec_nat n" "dropWhile c_isdigit (dec_nat n @ r) = r"
proof -
  have all: "\<And>c. c \<in> set (dec_nat n) \<Longrightarrow> c_isdigit c" by (rule dec_nat_digits)
  have r: "takeWhile c_isdigit r = []" "dropWhile c_isdigit r = r"
    using assms by (cases r; simp add: stop_char_def)+
  show "takeWhile c_isdigit (dec_nat n @ r) = dec_nat n"
    using takeWhile_append2 [where P = c_isdigit and xs = "dec_nat n" and ys = r, OF all] r by simp
  show "dropWhile c_isdigit (dec_nat n @ r) = r"
    using dropWhile_append2 [where P = c_isdigit and xs = "dec_nat n" and ys = r, OF all] r by simp
qed

lemma read_value_string: "read_value (Suc n) (print_json_string t @ r) = Some (JStr (sanitize t), r)"
  by (simp add: print_json_string_def read_json_chars)

lemma read_value_number:
  assumes "stop_char r"
  shows "read_value (Suc n) (dec_nat m @ r) = Some (JNum m, r)"
proof -
  have "c_isdigit (hd (dec_nat m @ r))" by (simp add: hd_dec_nat)
  moreover from this have "hd (dec_nat m @ r) \<noteq> DQ" by (auto simp: c_isdigit_def char_le_iff byte_val_specials byte_val_def)
  ultimately show ?thesis by (simp add: read_number [OF assms] num_val_dec_nat)
qed

lemma not_digit_specials:
  "\<not> c_isdigit (CHR ''t'')" "\<not> c_isdigit (CHR ''f'')" "\<not> c_isdigit (CHR ''['')" "\<not> c_isdigit (CHR ''{'')"
  "\<not> c_isdigit (CHR '']'')" "\<not> c_isdigit (CHR ''}'')" "\<not> c_isdigit (CHR '','')" "\<not> c_isdigit LF"
  by code_simp+

lemma read_value_bool: "read_value (Suc n) (print_bool b @ r) = Some (JBool b, r)"
  by (cases b) (simp_all add: print_bool_def not_digit_specials)

lemma read_value_arr:
  assumes "s \<noteq> []" "hd s \<noteq> CHR '']''"
  shows "read_value (Suc n) (CHR ''['' # s) = map_option (apfst JArr) (read_elems n s)"
  using assms by (cases s) (simp_all add: not_digit_specials)

lemma read_value_obj: "read_value (Suc n) (CHR ''{'' # DQ # s) = map_option (apfst JObj) (read_members n (DQ # s))"
  by (simp add: not_digit_specials)

declare read_value.simps [simp del]

lemma read_render:
  "length (render v) \<le> n \<Longrightarrow> stop_char r \<Longrightarrow> read_value n (render v @ r) = Some (clean v, r)"
  "vs \<noteq> [] \<Longrightarrow> length (render_elems vs) < n \<Longrightarrow>
     read_elems n (render_elems vs @ CHR '']'' # r) = Some (map clean vs, r)"
  "ms \<noteq> [] \<Longrightarrow> length (render_members ms) < n \<Longrightarrow>
     read_members n (render_members ms @ CHR ''}'' # r) = Some (map (\<lambda>(k, v). (sanitize k, clean v)) ms, r)"
proof (induction v and vs and ms arbitrary: n r and n r and n r rule: render_render_elems_render_members.induct)
  case (1 s)
  then obtain m where "n = Suc m" by (cases n) (auto simp: print_json_string_def)
  then show ?case by (simp add: read_value_string)
next
  case (2 k)
  then obtain m where "n = Suc m" by (cases n) auto
  with 2 show ?case by (simp add: read_value_number)
next
  case (3 b)
  then obtain m where "n = Suc m" by (cases n; cases b) (auto simp: print_bool_def)
  then show ?case by (simp add: read_value_bool)
next
  case (4 vs)
  from "4.prems" obtain m where m: "n = Suc m" by (cases n) auto
  show ?case
  proof (cases "vs = []")
    case True
    then show ?thesis by (simp add: m read_value.simps not_digit_specials)
  next
    case False
    with "4.IH" [of m r] "4.prems" m render_elems_hd [OF False] show ?thesis by (simp add: read_value_arr)
  qed
next
  case (5 ms)
  from "5.prems" obtain m where m: "n = Suc m" by (cases n) auto
  show ?case
  proof (cases ms)
    case Nil
    then show ?thesis by (simp add: m read_value.simps not_digit_specials)
  next
    case (Cons km ms')
    then obtain s where s: "render_members ms = DQ # s" by (cases km) (simp add: print_json_string_def)
    from Cons "5.IH" [of m r] "5.prems" m have
      "read_members m (render_members ms @ CHR ''}'' # r) = Some (map (\<lambda>(k, v). (sanitize k, clean v)) ms, r)" by simp
    with m s show ?thesis by (simp add: read_value_obj)
  qed
next
  case 6
  then show ?case by simp
next
  case (7 v vs)
  from "7.prems" obtain m where m: "n = Suc m" by (cases n) auto
  have st: "stop_char (CHR '']'' # r)" "stop_char (CHR '','' # q)" for q by (simp_all add: stop_char_def not_digit_specials)
  show ?case
  proof (cases "vs = []")
    case True
    with "7.prems" m "7.IH"(1) [of m "CHR '']'' # r"] st show ?thesis by simp
  next
    case False
    with "7.prems" m "7.IH"(1) [of m "CHR '','' # render_elems vs @ CHR '']'' # r"] "7.IH"(2) [of m r] st
    show ?thesis by simp
  qed
next
  case 8
  then show ?case by simp
next
  case (9 k v ms)
  from "9.prems" obtain m where m: "n = Suc m" by (cases n) auto
  have st: "stop_char (CHR ''}'' # r)" "stop_char (CHR '','' # q)" for q by (simp_all add: stop_char_def not_digit_specials)
  show ?case
  proof (cases "ms = []")
    case True
    with "9.prems" m "9.IH"(1) [of m "CHR ''}'' # r"] st show ?thesis
      by (simp add: print_json_string_def read_json_chars)
  next
    case False
    with "9.prems" m "9.IH"(1) [of m "CHR '','' # render_members ms @ CHR ''}'' # r"] "9.IH"(2) [of m r] st
    show ?thesis by (simp add: print_json_string_def read_json_chars)
  qed
qed

section \<open>The document\<close>

definition summary_value :: "posture_summary \<Rightarrow> json" where
  "summary_value s =
     JObj [(''state'', JStr (bythos_state_name (bythos_summary_state s))),
           (''counts'', JObj [(''ok'', JNum (ok_count s)), (''warn'', JNum (warn_count s)),
                              (''fail'', JNum (fail_count s)), (''skip'', JNum (skip_count s))])]"

definition result_value :: "check_result \<Rightarrow> json" where
  "result_value r =
     JObj [(''name'', JStr (r_name r)), (''state'', JStr (bythos_state_name (r_state r))),
           (''skip_reason'', JStr (bythos_skip_reason_name (r_skip_reason r))), (''detail'', JStr (r_detail r)),
           (''requires_root'', JBool (r_requires_root r)), (''actionable'', JBool (r_actionable r))]"

definition subgroup_value :: "check_subgroup \<Rightarrow> json" where
  "subgroup_value sg =
     JObj [(''name'', JStr (sg_name sg)), (''summary'', summary_value (sg_summary sg)),
           (''results'', JArr (map result_value (sg_results sg))), (''truncated'', JBool (sg_truncated sg))]"

definition group_value :: "group_view \<Rightarrow> json" where
  "group_value g =
     JObj [(''name'', JStr (gv_name g)), (''summary'', summary_value (gv_summary g)),
           (''subgroups'', JArr (map subgroup_value (gv_subgroups g)))]"

definition document_value :: "string \<Rightarrow> string \<Rightarrow> group_view list \<Rightarrow> posture_summary \<Rightarrow> nat \<Rightarrow> json" where
  "document_value mode banner groups overall exit_code =
     JObj [(''mode'', JStr mode), (''banner'', JStr banner), (''groups'', JArr (map group_value groups)),
           (''overall'', summary_value overall), (''exit_code'', JNum exit_code),
           (''exit_meaning'', JStr (exit_meaning exit_code))]"

text \<open>The literal keys of the format strings are what \<open>print_json_string\<close> prints for them.\<close>

definition plain_char :: "char \<Rightarrow> bool" where
  "plain_char c \<longleftrightarrow> 0x20 \<le> byte_val c \<and> byte_val c < 0x80 \<and> c \<noteq> DQ \<and> c \<noteq> BSL"

definition plain_text :: "string \<Rightarrow> bool" where
  "plain_text s \<longleftrightarrow> list_all plain_char s"

lemma json_chars_plain: "plain_text s \<Longrightarrow> json_chars s = s"
  unfolding plain_text_def
proof (induction s)
  case Nil
  then show ?case by (simp add: json_chars.simps)
next
  case (Cons c s)
  then have "c \<noteq> BSL" "c \<noteq> DQ" "c \<noteq> LF" "c \<noteq> CR" "c \<noteq> TAB" "\<not> byte_val c < 0x20" "byte_val c < 0x80"
    by (auto simp: plain_char_def byte_val_specials)
  with Cons show ?case by (subst json_chars.simps) (simp add: json_step_def)
qed

lemma sanitize_plain: "plain_text s \<Longrightarrow> sanitize s = s"
  by (intro sanitize_id valid_utf8_ascii) (auto simp: plain_text_def plain_char_def list_all_iff)

lemma plain_key: "plain_text s \<Longrightarrow> print_json_string s @ CHR '':'' # r = jkey s @ r"
  by (simp add: print_json_string_def json_chars_plain jkey_def)

lemma plain_keys [simp]:
  "plain_text ''state''" "plain_text ''counts''" "plain_text ''ok''"
  "plain_text ''warn''" "plain_text ''fail''" "plain_text ''skip''"
  "plain_text ''name''" "plain_text ''skip_reason''" "plain_text ''detail''"
  "plain_text ''requires_root''" "plain_text ''actionable''" "plain_text ''summary''"
  "plain_text ''results''" "plain_text ''truncated''" "plain_text ''subgroups''"
  "plain_text ''mode''" "plain_text ''banner''" "plain_text ''groups''"
  "plain_text ''overall''" "plain_text ''exit_code''" "plain_text ''exit_meaning''"
  by code_simp+

lemma render_items:
  "(\<And>x. x \<in> set xs \<Longrightarrow> f x = render (g x)) \<Longrightarrow> print_items f 0 xs = render_elems (map g xs)"
proof -
  have pos: "print_items f (Suc i) ys = (if ys = [] then [] else '','' @ render_elems (map g ys))"
    if "\<forall>x\<in>set ys. f x = render (g x)" for i ys
    using that by (induction ys arbitrary: i) simp_all
  assume "\<And>x. x \<in> set xs \<Longrightarrow> f x = render (g x)"
  then have "\<forall>x\<in>set xs. f x = render (g x)" by blast
  then show ?thesis by (cases xs) (simp_all add: pos)
qed

lemma print_json_string_plain: "plain_text t \<Longrightarrow> print_json_string t = DQ # t @ [DQ]"
  by (simp add: print_json_string_def json_chars_plain)

lemma render_key:
  "plain_text k \<Longrightarrow>
     render_members ((k, v) # ms) = jkey k @ render v @ (if ms = [] then [] else '','' @ render_members ms)"
  by (simp add: print_json_string_plain jkey_def)

lemma print_json_summary_value: "print_json_summary s = render (summary_value s)"
  by (simp add: print_json_summary_def summary_value_def render_key del: render_members.simps(2))

lemma print_json_result_value: "print_json_result r = render (result_value r)"
  by (simp add: print_json_result_def result_value_def render_key del: render_members.simps(2))

lemma print_json_subgroup_value: "print_json_subgroup sg = render (subgroup_value sg)"
  by (simp add: print_json_subgroup_def subgroup_value_def render_key print_json_summary_value
      render_items [OF print_json_result_value] del: render_members.simps(2))

lemma print_json_group_value: "print_json_group g = render (group_value g)"
  by (simp add: print_json_group_def group_value_def render_key print_json_summary_value
      render_items [OF print_json_subgroup_value] del: render_members.simps(2))

lemma print_json_document:
  "print_json mode banner groups overall exit_code =
     render (document_value mode banner groups overall exit_code) @ [LF]"
  by (simp add: print_json_def document_value_def render_key print_json_summary_value
      render_items [OF print_json_group_value] del: render_members.simps(2))

lemma valid_utf8_print_json_string: "valid_utf8 (print_json_string s)"
  unfolding print_json_string_def
  by (intro valid_utf8_append json_chars_valid valid_utf8_ascii) (simp_all add: byte_val_specials)

lemma dec_nat_ascii: "list_all (\<lambda>c. byte_val c < 0x80) (dec_nat n)"
proof -
  have "byte_val c < 0x80" if "c_isdigit c" for c
    using that by (simp add: c_isdigit_def char_le_iff) (simp add: byte_val_def)
  then show ?thesis using dec_nat_digits [of _ n] by (simp add: list_all_iff)
qed

lemma ascii_specials:
  "byte_val (CHR ''['') < 0x80" "byte_val (CHR '']'') < 0x80" "byte_val (CHR ''{'') < 0x80"
  "byte_val (CHR ''}'') < 0x80" "byte_val (CHR '':'') < 0x80" "byte_val (CHR '','') < 0x80" "byte_val LF < 0x80"
  by (simp_all add: byte_val_def)

lemma print_bool_utf8: "valid_utf8 (print_bool b)"
  by (rule valid_utf8_ascii) (cases b; simp add: print_bool_def byte_val_def)

lemma render_utf8:
  "valid_utf8 (render v)" "valid_utf8 (render_elems vs)" "valid_utf8 (render_members ms)"
  by (induction v and vs and ms rule: render_render_elems_render_members.induct)
    (simp_all add: valid_utf8_print_json_string valid_utf8_ascii [OF dec_nat_ascii] print_bool_utf8
      valid_utf8_append valid_utf8_Cons ascii_specials valid_utf8_ascii1)

section \<open>Properties\<close>

text \<open>
  Claim C21: the byte table of \<open>utf8_valid_len\<close> is exact: it accepts a sequence of length n at a
  position precisely when the UTF-8 encoding of a Unicode scalar value from 0x80 up, of that
  length, starts there; overlong forms, surrogates and values above 0x10FFFF are rejected and
  nothing else is.
\<close>

theorem utf8_table_exact:
  "utf8_valid_len p = n \<and> n \<noteq> 0 \<longleftrightarrow>
     (\<exists>cp. 0x80 \<le> cp \<and> scalar_value cp \<and> prefix (utf8_encode cp) p \<and> n = length (utf8_encode cp))"
  using utf8_len_iff [of n p] unfolding seq_at_def by blast

text \<open>
  Claim C19: the JSON document reads back, by a JSON reader with fuel for its length, as exactly
  the intended value followed by a line feed: the mode, the groups with their subgroups, rows and
  counts in order, the overall summary and the exit code. No byte of a name or a detail can close
  its string or add a member; what the reader gets for a text is the text with each ill-formed
  byte replaced by U+FFFD. The whole output is well-formed UTF-8.
\<close>

theorem json_document_reads_back:
  "read_value (length (print_json mode banner groups overall exit_code))
      (print_json mode banner groups overall exit_code)
     = Some (clean (document_value mode banner groups overall exit_code), [LF])
   \<and> valid_utf8 (print_json mode banner groups overall exit_code)"
  unfolding print_json_document
  by (simp add: read_render stop_char_def not_digit_specials valid_utf8_append render_utf8
      valid_utf8_ascii1 ascii_specials)

text \<open>
  Claim C20: a JSON string is lossless on well-formed text: what a JSON reader gets from the
  printed string of a well-formed UTF-8 text is that text, whatever quotes, backslashes, line
  breaks and control characters it holds.
\<close>

theorem json_string_roundtrip:
  assumes "valid_utf8 t"
  shows "read_jstring (tl (print_json_string t) @ rest) = Some (t, rest)"
  using read_json_chars [of t rest] sanitize_id [OF assms] by (simp add: print_json_string_def)

theorem json_string_roundtrip_witness:
  "read_jstring (tl (print_json_string [DQ, LF, CHR 0x01, CHR 0xC3, CHR 0xA9]) @ ''}'')
     = Some ([DQ, LF, CHR 0x01, CHR 0xC3, CHR 0xA9], ''}'')"
proof -
  have e: "utf8_encode 0xE9 = [CHR 0xC3, CHR 0xA9]"
    by (simp add: utf8_encode_def utf8_bytes_def) code_simp
  have a: "utf8_encode 0x22 = [DQ]" "utf8_encode 0x0A = [LF]" "utf8_encode (Suc 0) = [CHR 0x01]"
    by (simp_all add: utf8_encode_ascii) code_simp+
  have "valid_utf8 [DQ, LF, CHR 0x01, CHR 0xC3, CHR 0xA9]"
    unfolding valid_utf8_def
    by (rule exI [of _ "[0x22, 0x0A, 0x01, 0xE9]"]) (simp add: e a scalar_value_def)
  from json_string_roundtrip [OF this] show ?thesis .
qed

end
