(* ===== verification/Runtime.thy ===== *)
theory Runtime
  imports CheckTypes
begin

text \<open>
  The runtime layer \<open>src/runtime.c\<close>: string helpers, resolution of helpers on the trusted
  path, file and directory reads, the mount table, key/value files, the capture of a helper's
  output and the systemd probe.

  The operating system is a parameter: a record \<open>env\<close> of functions that answer the system
  calls the program makes. bythos only reads, so one run sees one snapshot: a call with the same
  arguments gives the same answer. The default build is modelled (the test-only macro
  \<open>BYTHOS_ALLOW_PATH_OVERRIDE\<close> is off). Out pointers that every caller sets to its own
  local are results of the model; \<open>malloc\<close> failure in \<open>strdup\<close> is not modelled.
\<close>

section \<open>The environment\<close>

datatype errno = ENOENT | EACCES | EOTHER

record file_stat =
  st_uid :: nat
  st_mode :: u32
  st_dev :: nat
  st_ino :: nat

text \<open>
  A file as stdio sees it: \<open>fopen\<close> fails, or the stream delivers these bytes and then end of
  file or (flag true) a read error.
\<close>

datatype file_data = OpenFails | Opened bytes bool

datatype dir_data = DirFails errno | DirNames "string list"

datatype wait_result = Exited nat | NotExited | WaitError

text \<open>
  A helper process: whether \<open>pipe\<close> and \<open>fork\<close> succeed, the successive chunks \<open>read\<close> returns
  before the capture loop ends, whether the alarm had fired by then, the answer of the
  \<open>WNOHANG\<close> wait after a timeout and of the blocking wait otherwise.
\<close>

record proc =
  proc_spawned :: bool
  proc_reads :: "bytes list"
  proc_alarm :: bool
  proc_reap :: wait_result
  proc_wait :: wait_result

text \<open>\<open>open\<close> then \<open>pread\<close> (or \<open>ioctl\<close>): the open fails, or the call returns these bytes / flags.\<close>

datatype 'a fd_answer = FdOpenFails errno | FdFails | FdGot 'a

record env =
  env_stat :: "string \<Rightarrow> file_stat option"
  env_lstat :: "string \<Rightarrow> file_stat option"
  env_access_x :: "string \<Rightarrow> bool"
  env_file :: "string \<Rightarrow> file_data"
  env_dir :: "string \<Rightarrow> dir_data"
  env_run :: "string list \<Rightarrow> proc"
  env_pread :: "string \<Rightarrow> nat \<Rightarrow> nat \<Rightarrow> bytes fd_answer"
  env_flags :: "string \<Rightarrow> u32 fd_answer"

definition PATH_MAX :: nat where "PATH_MAX = 4096"

definition S_IFMT :: u32 where "S_IFMT = 0xF000"
definition S_ISREG :: "u32 \<Rightarrow> bool" where "S_ISREG m \<longleftrightarrow> m AND S_IFMT = 0x8000"
definition S_ISDIR :: "u32 \<Rightarrow> bool" where "S_ISDIR m \<longleftrightarrow> m AND S_IFMT = 0x4000"
definition S_ISLNK :: "u32 \<Rightarrow> bool" where "S_ISLNK m \<longleftrightarrow> m AND S_IFMT = 0xA000"

text \<open>\<open>(mode & 0022) != 0\<close>, in octal: group or world writable.\<close>

definition group_world_writable :: "u32 \<Rightarrow> bool" where
  "group_world_writable m \<longleftrightarrow> m AND 0x12 \<noteq> 0"

section \<open>String helpers\<close>

definition bythos_to_lower_ascii :: "string \<Rightarrow> nat \<Rightarrow> string" where
  "bythos_to_lower_ascii src dst_size = map c_tolower (take (dst_size - 1) src)"

text \<open>The backward loop of \<open>bythos_trim\<close>, on the reversed text; it never drops the first byte.\<close>

fun trim_end_rev :: "string \<Rightarrow> string" where
  "trim_end_rev (c # d # r) = (if c_isspace c then trim_end_rev (d # r) else c # d # r)"
| "trim_end_rev r = r"

definition trim_text :: "string \<Rightarrow> string" where
  "trim_text text = (let t = dropWhile c_isspace text in if t = [] then t else rev (trim_end_rev (rev t)))"

definition bythos_trim :: "cptr \<Rightarrow> cptr" where
  "bythos_trim text = (case text of None \<Rightarrow> None | Some t \<Rightarrow> Some (trim_text t))"

text \<open>\<open>in_quotes\<close> and the open quote character are the loop's state.\<close>

fun strip_comment_loop :: "bool \<Rightarrow> char \<Rightarrow> string \<Rightarrow> string" where
  "strip_comment_loop in_quotes quote [] = []"
| "strip_comment_loop in_quotes quote (c # cs) =
     (if c = BSL \<and> cs \<noteq> [] then
        (case cs of [] \<Rightarrow> [c] | d # ds \<Rightarrow> c # d # strip_comment_loop in_quotes quote ds)
      else if c = DQ \<or> c = SQ then
        c # (if \<not> in_quotes then strip_comment_loop True c cs
             else if c = quote then strip_comment_loop False NUL cs
             else strip_comment_loop in_quotes quote cs)
      else if \<not> in_quotes \<and> c = CHR ''#'' then []
      else c # strip_comment_loop in_quotes quote cs)"

definition strip_inline_comment :: "string \<Rightarrow> string" where
  "strip_inline_comment text = strip_comment_loop False NUL text"

definition strip_matching_quotes :: "string \<Rightarrow> string" where
  "strip_matching_quotes text =
     (if 2 \<le> length text \<and> ((hd text = DQ \<and> last text = DQ) \<or> (hd text = SQ \<and> last text = SQ))
      then butlast (tl text) else text)"

section \<open>Lines\<close>

text \<open>
  The cursor walk shared by the line parsers: measure a line with \<open>strcspn\<close> (up to LF, and
  also up to CR when \<open>crlf\<close>), use it, step over it and over every CR or LF that follows.
\<close>

lemma c_lines_shrinks:
  assumes "text \<noteq> []"
  shows "length (dropWhile is_eol (dropWhile (\<lambda>c. c \<noteq> LF \<and> (crlf \<longrightarrow> c \<noteq> CR)) text)) < length text"
proof (cases "text")
  case Nil
  with assms show ?thesis by simp
next
  case (Cons c cs)
  show ?thesis
  proof (cases "c = LF \<or> (crlf \<and> c = CR)")
    case True
    then have "is_eol c" by (auto simp: is_eol_def)
    with True Cons show ?thesis by (auto simp: less_Suc_eq_le length_dropWhile_le)
  next
    case False
    with Cons have "length (dropWhile is_eol (dropWhile (\<lambda>c. c \<noteq> LF \<and> (crlf \<longrightarrow> c \<noteq> CR)) text))
      \<le> length (dropWhile (\<lambda>c. c \<noteq> LF \<and> (crlf \<longrightarrow> c \<noteq> CR)) cs)"
      by (simp add: length_dropWhile_le)
    also have "\<dots> \<le> length cs" by (simp add: length_dropWhile_le)
    finally show ?thesis using Cons by simp
  qed
qed

function c_lines :: "bool \<Rightarrow> string \<Rightarrow> string list" where
  "c_lines crlf text =
     (if text = [] then []
      else let stop = (\<lambda>c. c = LF \<or> (crlf \<and> c = CR))
           in takeWhile (\<lambda>c. \<not> stop c) text #
              c_lines crlf (dropWhile is_eol (dropWhile (\<lambda>c. \<not> stop c) text)))"
  by pat_completeness auto
termination
  by (relation "measure (\<lambda>(crlf, text). length text)") (auto intro: c_lines_shrinks)

declare c_lines.simps [simp del]

section \<open>Helpers on the trusted path\<close>

definition BYTHOS_DEFAULT_PATH :: string where
  "BYTHOS_DEFAULT_PATH = ''/usr/local/sbin:/usr/local/bin:/usr/sbin:/usr/bin:/sbin:/bin''"

text \<open>\<open>strtok_r(path, ":")\<close>: the nonempty runs between colons.\<close>

lemma path_dirs_shrinks:
  assumes "dropWhile (\<lambda>c. c = CHR '':'') p \<noteq> []"
  shows "length (dropWhile (\<lambda>c. c \<noteq> CHR '':'') (dropWhile (\<lambda>c. c = CHR '':'') p)) < length p"
proof -
  obtain d ds where d: "dropWhile (\<lambda>c. c = CHR '':'') p = d # ds"
    using assms by (cases "dropWhile (\<lambda>c. c = CHR '':'') p") auto
  then have "d \<noteq> CHR '':''" by (auto simp: dropWhile_eq_Cons_conv)
  then have "length (dropWhile (\<lambda>c. c \<noteq> CHR '':'') (d # ds)) \<le> length ds"
    by (simp add: length_dropWhile_le)
  also have "\<dots> < length p" using length_dropWhile_le [of "\<lambda>c. c = CHR '':''" p] d by simp
  finally show ?thesis by (simp add: d)
qed

function path_dirs :: "string \<Rightarrow> string list" where
  "path_dirs p =
     (let q = dropWhile (\<lambda>c. c = CHR '':'') p
      in if q = [] then []
         else takeWhile (\<lambda>c. c \<noteq> CHR '':'') q # path_dirs (dropWhile (\<lambda>c. c \<noteq> CHR '':'') q))"
  by pat_completeness auto
termination
  by (relation "measure length") (auto intro: path_dirs_shrinks simp del: dropWhile_eq_Nil_conv)

declare path_dirs.simps [simp del]

datatype path_match = PATH_MATCH_NONE | PATH_MATCH_TRUSTED | PATH_MATCH_UNTRUSTED

definition trusted_binary :: "env \<Rightarrow> string \<Rightarrow> bool" where
  "trusted_binary e candidate =
     (case env_stat e candidate of None \<Rightarrow> False
      | Some st \<Rightarrow> st_uid st = 0 \<and> \<not> group_world_writable (st_mode st))"

fun resolve_dirs :: "env \<Rightarrow> string \<Rightarrow> string list \<Rightarrow> path_match" where
  "resolve_dirs e name [] = PATH_MATCH_NONE"
| "resolve_dirs e name (dir # dirs) =
     (let candidate = dir @ ''/'' @ name
      in if PATH_MAX \<le> length candidate then resolve_dirs e name dirs
         else if \<not> env_access_x e candidate then resolve_dirs e name dirs
         else if trusted_binary e candidate then PATH_MATCH_TRUSTED else PATH_MATCH_UNTRUSTED)"

definition resolve_on_trusted_path :: "env \<Rightarrow> cptr \<Rightarrow> path_match" where
  "resolve_on_trusted_path e name =
     (case name of None \<Rightarrow> PATH_MATCH_NONE
      | Some n \<Rightarrow> if n = [] then PATH_MATCH_NONE
                  else resolve_dirs e n (path_dirs BYTHOS_DEFAULT_PATH))"

definition bythos_command_exists :: "env \<Rightarrow> string \<Rightarrow> bool" where
  "bythos_command_exists e name \<longleftrightarrow> resolve_on_trusted_path e (Some name) = PATH_MATCH_TRUSTED"

definition bythos_command_untrusted :: "env \<Rightarrow> string \<Rightarrow> bool" where
  "bythos_command_untrusted e name \<longleftrightarrow> resolve_on_trusted_path e (Some name) = PATH_MATCH_UNTRUSTED"

definition row_skip_tool_or_untrusted :: "env \<Rightarrow> string \<Rightarrow> string \<Rightarrow> string \<Rightarrow> check_result" where
  "row_skip_tool_or_untrusted e name binary tool =
     (if bythos_command_untrusted e binary
      then make_result name CHECK_WARN
             (Some (binary @ '' on PATH is not root-owned; refusing to run it as root''))
      else make_skip_actionable name SKIP_TOOL_ABSENT (Some (''requires '' @ tool)))"

section \<open>Files\<close>

definition bythos_file_exists :: "env \<Rightarrow> string \<Rightarrow> bool" where
  "bythos_file_exists e path \<longleftrightarrow> env_stat e path \<noteq> None"

text \<open>
  \<open>fread\<close> of \<open>n\<close> bytes: what it stores, whether \<open>ferror\<close> then holds, and whether \<open>getc\<close> would
  deliver one more byte.
\<close>

definition c_fread :: "nat \<Rightarrow> bytes \<Rightarrow> bool \<Rightarrow> bytes \<times> bool \<times> bool" where
  "c_fread n data err = (take n data, err \<and> length data < n, n < length data)"

text \<open>The text buffer is only ever read as a C string, so the result is that string.\<close>

definition bythos_read_file_text_ex :: "env \<Rightarrow> string \<Rightarrow> nat \<Rightarrow> (string \<times> bool) option" where
  "bythos_read_file_text_ex e path sz =
     (if sz = 0 then None
      else case env_file e path of OpenFails \<Rightarrow> None
        | Opened data err \<Rightarrow>
            (let (buf, failed, more) = c_fread (sz - 1) data err
             in if failed then None
                else Some (cstr buf, length buf = sz - 1 \<and> more)))"

definition bythos_read_file_text :: "env \<Rightarrow> string \<Rightarrow> nat \<Rightarrow> string option" where
  "bythos_read_file_text e path sz = map_option fst (bythos_read_file_text_ex e path sz)"

definition bythos_read_file_binary_ex :: "env \<Rightarrow> string \<Rightarrow> nat \<Rightarrow> (bytes \<times> bool) option" where
  "bythos_read_file_binary_ex e path sz =
     (if sz = 0 then None
      else case env_file e path of OpenFails \<Rightarrow> None
        | Opened data err \<Rightarrow>
            (let (buf, failed, more) = c_fread sz data err
             in if failed then None else Some (buf, length buf = sz \<and> more)))"

definition bythos_read_file_binary :: "env \<Rightarrow> string \<Rightarrow> nat \<Rightarrow> bytes option" where
  "bythos_read_file_binary e path sz = map_option fst (bythos_read_file_binary_ex e path sz)"

text \<open>\<open>fgets(line, n + 1)\<close>: at most \<open>n\<close> bytes, up to and including a newline.\<close>

fun fgets1 :: "nat \<Rightarrow> bytes \<Rightarrow> bytes \<times> bytes" where
  "fgets1 0 s = ([], s)"
| "fgets1 (Suc n) [] = ([], [])"
| "fgets1 (Suc n) (c # cs) =
     (if c = LF then ([c], cs) else (let (a, b) = fgets1 n cs in (c # a, b)))"

lemma fgets1_length: "length (snd (fgets1 n s)) \<le> length s"
  by (induction n s rule: fgets1.induct) (auto split: prod.splits)

lemma fgets1_shrinks: "s \<noteq> [] \<Longrightarrow> length (snd (fgets1 (Suc n) s)) < length s"
  using fgets1_length by (cases s) (auto split: prod.splits, metis le_imp_less_Suc snd_conv)

function fgets_chunks :: "nat \<Rightarrow> bytes \<Rightarrow> bytes list" where
  "fgets_chunks n s =
     (if s = [] then [] else fst (fgets1 (Suc n) s) # fgets_chunks n (snd (fgets1 (Suc n) s)))"
  by pat_completeness auto
termination
  by (relation "measure (\<lambda>(n, s). length s)") (auto simp del: fgets1.simps intro: fgets1_shrinks)

declare fgets_chunks.simps [simp del]

text \<open>
  The lines \<open>fgets\<close> hands to a loop with a buffer of \<open>sz\<close> bytes, as C strings. When the read after
  the data fails, the call that meets the failure returns NULL, so a last piece that is neither a
  whole line nor a full buffer is lost.
\<close>

definition cut_short :: "nat \<Rightarrow> bytes \<Rightarrow> bool" where
  "cut_short sz chunk \<longleftrightarrow> last chunk \<noteq> LF \<and> length chunk < sz - 1"

definition fgets_lines :: "nat \<Rightarrow> file_data \<Rightarrow> string list" where
  "fgets_lines sz f =
     (case f of OpenFails \<Rightarrow> []
      | Opened data err \<Rightarrow>
          (let chunks = fgets_chunks (sz - 2) data
           in map cstr (if err \<and> chunks \<noteq> [] \<and> cut_short sz (last chunks) then butlast chunks else chunks)))"

definition prefix_line_matches :: "string \<Rightarrow> string \<Rightarrow> bool" where
  "prefix_line_matches pre line \<longleftrightarrow>
     starts_with line pre \<and>
     (length line = length pre \<or> \<not> c_isalnum (line ! length pre))"

definition bythos_first_line_with_prefix :: "env \<Rightarrow> string \<Rightarrow> string \<Rightarrow> nat \<Rightarrow> string option" where
  "bythos_first_line_with_prefix e path pre sz =
     (if sz = 0 then None
      else case env_file e path of OpenFails \<Rightarrow> None
        | Opened data err \<Rightarrow>
            map_option (snprintf_s sz)
              (find (prefix_line_matches pre) (fgets_lines 4096 (Opened data err))))"

section \<open>The mount table\<close>

definition mount_fields :: "string \<Rightarrow> string \<times> string \<times> string" where
  "mount_fields line =
     (let p1 = dropWhile is_blank (dropWhile (\<lambda>c. \<not> is_blank c) line);
          point = takeWhile (\<lambda>c. \<not> is_blank c) p1;
          p2 = dropWhile is_blank (dropWhile (\<lambda>c. \<not> is_blank c) p1);
          fs = takeWhile (\<lambda>c. \<not> is_blank c) p2;
          p3 = dropWhile is_blank (dropWhile (\<lambda>c. \<not> is_blank c) p2);
          opts = takeWhile (\<lambda>c. \<not> is_blank c) p3
      in (point, fs, opts))"

definition mount_step :: "string \<Rightarrow> (string \<times> string) option \<Rightarrow> string \<Rightarrow> (string \<times> string) option" where
  "mount_step mount_point found line =
     (let (point, fs, opts) = mount_fields line
      in if point = mount_point then Some (fs, opts) else found)"

text \<open>A size of \<open>None\<close> stands for a NULL out pointer.\<close>

definition bythos_find_mount_entry ::
    "string \<Rightarrow> string \<Rightarrow> nat option \<Rightarrow> nat option \<Rightarrow> (string \<times> string) option" where
  "bythos_find_mount_entry mounts mount_point fstype_size opts_size =
     (if mount_point = [] then None
      else case foldl (mount_step mount_point) None (c_lines False mounts) of
        None \<Rightarrow> None
      | Some (fs, opts) \<Rightarrow>
          if (case fstype_size of None \<Rightarrow> False | Some n \<Rightarrow> fs = [] \<or> n \<le> length fs) then None
          else if (case opts_size of None \<Rightarrow> False | Some n \<Rightarrow> opts = [] \<or> n \<le> length opts) then None
          else Some (fs, opts))"

section \<open>Directories\<close>

definition env_names :: "env \<Rightarrow> string \<Rightarrow> string list option" where
  "env_names e path = (case env_dir e path of DirFails _ \<Rightarrow> None | DirNames ns \<Rightarrow> Some ns)"

definition is_child_dir :: "env \<Rightarrow> string \<Rightarrow> string \<Rightarrow> bool" where
  "is_child_dir e path name \<longleftrightarrow>
     name \<noteq> ''.'' \<and> name \<noteq> ''..'' \<and>
     (let candidate = path @ ''/'' @ name
      in length candidate < PATH_MAX \<and>
         (case env_stat e candidate of None \<Rightarrow> False | Some st \<Rightarrow> S_ISDIR (st_mode st)))"

definition bythos_count_child_dirs :: "env \<Rightarrow> string \<Rightarrow> nat option" where
  "bythos_count_child_dirs e path =
     (case env_names e path of None \<Rightarrow> None
      | Some names \<Rightarrow> Some (foldl (\<lambda>used name. if is_child_dir e path name then used + 1 else used) 0 names))"

text \<open>The first name that yields a value, in directory order.\<close>

fun first_some :: "('a \<Rightarrow> 'b option) \<Rightarrow> 'a list \<Rightarrow> 'b option" where
  "first_some f [] = None"
| "first_some f (x # xs) = (case f x of Some y \<Rightarrow> Some y | None \<Rightarrow> first_some f xs)"

section \<open>Key and value files\<close>

definition key_value_of_line :: "string \<Rightarrow> (string \<times> string) option" where
  "key_value_of_line line =
     (let text = trim_text line
      in if text = [] \<or> hd text = CHR ''#'' then None
         else case strchr text (CHR ''='') of
           None \<Rightarrow> None
         | Some sep \<Rightarrow>
             (let lhs = trim_text (take (length text - length sep) text);
                  rhs = trim_text (tl sep);
                  rhs = strip_inline_comment rhs;
                  rhs = trim_text rhs;
                  rhs = strip_matching_quotes rhs
              in Some (lhs, rhs)))"

fun read_key_lines :: "string \<Rightarrow> nat \<Rightarrow> string list \<Rightarrow> string option" where
  "read_key_lines key sz [] = None"
| "read_key_lines key sz (line # lines) =
     (case key_value_of_line line of
        None \<Rightarrow> read_key_lines key sz lines
      | Some (lhs, rhs) \<Rightarrow> if lhs \<noteq> key then read_key_lines key sz lines
                           else Some (snprintf_s sz rhs))"

definition bythos_read_key_value :: "env \<Rightarrow> string \<Rightarrow> string \<Rightarrow> nat \<Rightarrow> string option" where
  "bythos_read_key_value e path key sz =
     (if sz = 0 then None else read_key_lines key sz (fgets_lines 1024 (env_file e path)))"

section \<open>Facts about the string helpers\<close>

lemma length_to_lower: "length (bythos_to_lower_ascii s n) \<le> n - 1"
  by (simp add: bythos_to_lower_ascii_def)

lemma to_lower_fits: "length s < n \<Longrightarrow> bythos_to_lower_ascii s n = map c_tolower s"
  by (simp add: bythos_to_lower_ascii_def)

lemma trim_end_rev_eq:
  "r \<noteq> [] \<Longrightarrow> \<not> c_isspace (last r) \<Longrightarrow> trim_end_rev r = dropWhile c_isspace r"
  by (induction r rule: trim_end_rev.induct) auto

lemma trim_text_eq: "trim_text s = rev (dropWhile c_isspace (rev (dropWhile c_isspace s)))"
proof (cases "dropWhile c_isspace s")
  case Nil
  then show ?thesis unfolding trim_text_def Nil by simp
next
  case (Cons c cs)
  then have "\<not> c_isspace c" by (auto simp: dropWhile_eq_Cons_conv)
  with Cons show ?thesis by (simp add: trim_text_def trim_end_rev_eq)
qed

text \<open>
  What \<open>bythos_trim\<close> returns: the text without its leading and trailing white space, and
  nothing else removed.
\<close>

lemma trim_text_decomp:
  "\<exists>l r. s = l @ trim_text s @ r \<and> list_all c_isspace l \<and> list_all c_isspace r"
proof -
  let ?t = "dropWhile c_isspace s"
  have "?t = rev (rev ?t)" by simp
  also have "rev ?t = takeWhile c_isspace (rev ?t) @ dropWhile c_isspace (rev ?t)" by simp
  finally have t: "?t = trim_text s @ rev (takeWhile c_isspace (rev ?t))"
    unfolding trim_text_eq rev_append .
  have "s = takeWhile c_isspace s @ ?t" by simp
  also note t
  finally have "s = takeWhile c_isspace s @ trim_text s @ rev (takeWhile c_isspace (rev ?t))" .
  moreover have "list_all c_isspace (takeWhile c_isspace s)"
    "list_all c_isspace (rev (takeWhile c_isspace (rev ?t)))"
    by (auto simp: list_all_iff dest: set_takeWhileD)
  ultimately show ?thesis by blast
qed

lemma trim_text_ends: "trim_text s \<noteq> [] \<Longrightarrow> \<not> c_isspace (hd (trim_text s)) \<and> \<not> c_isspace (last (trim_text s))"
proof -
  assume ne: "trim_text s \<noteq> []"
  let ?t = "dropWhile c_isspace s" and ?u = "dropWhile c_isspace (rev (dropWhile c_isspace s))"
  from ne have u: "?u \<noteq> []" by (simp add: trim_text_eq)
  then have last: "\<not> c_isspace (hd ?u)" using hd_dropWhile by blast
  have "suffix ?u (rev ?t)" by (rule suffix_dropWhile)
  then have "prefix (rev ?u) ?t" by (simp add: suffix_to_prefix)
  then obtain v where v: "?t = rev ?u @ v" by (auto simp: prefix_def)
  have ru: "rev ?u \<noteq> []" using u by (simp only: rev_is_Nil_conv not_False_eq_True)
  have t: "?t \<noteq> []"
  proof
    assume "?t = []"
    with v have "rev ?u = []" by (metis Nil_is_append_conv)
    with ru show False by contradiction
  qed
  from v ru have "hd (rev ?u) = hd ?t" by (metis hd_append2)
  moreover have "\<not> c_isspace (hd ?t)" using t by (rule hd_dropWhile)
  ultimately have "\<not> c_isspace (hd (rev ?u))" by metis
  with last u show ?thesis unfolding trim_text_eq by (metis last_rev)
qed

lemma trim_text_length: "length (trim_text s) \<le> length s"
  by (metis length_dropWhile_le length_rev order_trans trim_text_eq)

section \<open>Facts about lines and reads\<close>

lemma c_lines_Nil [simp]: "c_lines b [] = []"
  by (subst c_lines.simps) simp

lemma c_lines_Cons:
  "s \<noteq> [] \<Longrightarrow> c_lines b s = takeWhile (\<lambda>c. \<not> (c = LF \<or> (b \<and> c = CR))) s #
     c_lines b (dropWhile is_eol (dropWhile (\<lambda>c. \<not> (c = LF \<or> (b \<and> c = CR))) s))"
  by (subst c_lines.simps) simp

text \<open>A line followed by a line break that starts the next line.\<close>

lemma c_lines_line:
  assumes "\<forall>c\<in>set l. c \<noteq> LF \<and> c \<noteq> CR" and "rest = [] \<or> \<not> is_eol (hd rest)"
  shows "c_lines b (l @ LF # rest) = l # c_lines b rest"
proof -
  have "takeWhile (\<lambda>c. \<not> (c = LF \<or> (b \<and> c = CR))) (l @ LF # rest) = l"
    "dropWhile (\<lambda>c. \<not> (c = LF \<or> (b \<and> c = CR))) (l @ LF # rest) = LF # rest"
    using assms(1) by (auto simp: takeWhile_append dropWhile_append)
  moreover have "dropWhile is_eol (LF # rest) = rest"
    using assms(2) by (cases rest) (auto simp: is_eol_def)
  ultimately show ?thesis by (simp add: c_lines_Cons)
qed

lemma c_lines_last: "l \<noteq> [] \<Longrightarrow> \<forall>c\<in>set l. c \<noteq> LF \<and> c \<noteq> CR \<Longrightarrow> c_lines b l = [l]"
  by (auto simp: c_lines_Cons takeWhile_eq_all_conv[THEN iffD2] dropWhile_eq_Nil_conv[THEN iffD2])

lemma c_lines_no_LF: "l \<in> set (c_lines b s) \<Longrightarrow> LF \<notin> set l"
proof (induction b s rule: c_lines.induct)
  case (1 b s)
  show ?case
  proof (cases "s = []")
    case True
    with "1.prems" show ?thesis by simp
  next
    case False
    with 1 show ?thesis by (auto simp: c_lines_Cons dest: set_takeWhileD)
  qed
qed

lemma read_text_length:
  "bythos_read_file_text_ex e p n = Some (t, tr) \<Longrightarrow> length t < n \<and> NUL \<notin> set t"
proof (cases "env_file e p")
  case OpenFails
  moreover assume "bythos_read_file_text_ex e p n = Some (t, tr)"
  ultimately show ?thesis by (simp add: bythos_read_file_text_ex_def split: if_splits)
next
  case (Opened d err)
  assume "bythos_read_file_text_ex e p n = Some (t, tr)"
  with Opened have "t = cstr (take (n - 1) d)" "n \<noteq> 0"
    by (auto simp: bythos_read_file_text_ex_def c_fread_def split: if_splits)
  then show ?thesis using length_cstr_le [of "take (n - 1) d"] by auto
qed

text \<open>A read is complete unless it says that it was truncated.\<close>

lemma read_binary_complete:
  "bythos_read_file_binary_ex e p n = Some (b, tr) \<Longrightarrow>
     \<exists>d err. env_file e p = Opened d err \<and> b = take n d \<and> (tr \<longleftrightarrow> n < length d)"
  by (auto simp: bythos_read_file_binary_ex_def c_fread_def split: if_splits file_data.splits)

end
