(* ===== verification/Process.thy ===== *)
theory Process
  imports Runtime
begin

text \<open>
  Helpers run by \<open>src/runtime.c\<close>: the bounded capture of a child's output, the quiet run, the
  systemd service probe and the ESP base directory.
\<close>

section \<open>Capturing a helper's output\<close>

text \<open>
  The outcome of \<open>bythos_capture_argv_status_ex\<close>: its return value, the caller's buffer, the
  exit status if it was stored and the truncation flag. The flag and the buffer are written even
  when the call returns false.
\<close>

record capture =
  cap_ok :: bool
  cap_buf :: bytes
  cap_exit :: "nat option"
  cap_truncated :: bool

definition capture_step :: "nat \<Rightarrow> bytes \<times> bool \<Rightarrow> bytes \<Rightarrow> bytes \<times> bool" where
  "capture_step sz st chunk =
     (let (buffer, truncated) = st; used = length buffer
      in if used + 1 < sz then
           (let remaining = sz - used - 1
            in if length chunk > remaining then (buffer @ take remaining chunk, True)
               else (buffer @ chunk, truncated))
         else (buffer, True))"

definition capture_loop :: "nat \<Rightarrow> bytes list \<Rightarrow> bytes \<times> bool" where
  "capture_loop sz reads = foldl (capture_step sz) ([], False) reads"

definition bythos_capture_argv_status_ex :: "env \<Rightarrow> string list \<Rightarrow> nat \<Rightarrow> capture" where
  "bythos_capture_argv_status_ex e argv sz =
     (let p = env_run e argv
      in if argv = [] \<or> sz = 0 \<or> \<not> proc_spawned p
         then \<lparr>cap_ok = False, cap_buf = [], cap_exit = None, cap_truncated = False\<rparr>
         else
           (let (buffer, truncated) = capture_loop sz (proc_reads p);
                status = (if proc_alarm p then proc_reap p else proc_wait p)
            in case status of
                 Exited code \<Rightarrow> \<lparr>cap_ok = True, cap_buf = buffer, cap_exit = Some code, cap_truncated = truncated\<rparr>
               | _ \<Rightarrow> \<lparr>cap_ok = False, cap_buf = buffer, cap_exit = None, cap_truncated = truncated\<rparr>))"

definition bythos_capture_argv_status :: "env \<Rightarrow> string list \<Rightarrow> nat \<Rightarrow> capture" where
  "bythos_capture_argv_status e argv sz = bythos_capture_argv_status_ex e argv sz"

definition cap_text :: "capture \<Rightarrow> string" where
  "cap_text c = cstr (cap_buf c)"

text \<open>\<open>captured && exit_status == 0\<close>, with \<open>exit_status\<close> preset to -1 by every caller.\<close>

definition cap_success :: "capture \<Rightarrow> bool" where
  "cap_success c \<longleftrightarrow> cap_ok c \<and> cap_exit c = Some 0"

definition bythos_run_argv_quiet :: "env \<Rightarrow> string list \<Rightarrow> int" where
  "bythos_run_argv_quiet e argv =
     (let c = bythos_capture_argv_status e argv 256
      in if \<not> cap_ok c then -1 else (case cap_exit c of None \<Rightarrow> -1 | Some code \<Rightarrow> int code))"

datatype service_state = SERVICE_STATE_UNKNOWN | SERVICE_STATE_SYSTEMCTL_UNAVAILABLE
  | SERVICE_STATE_ACTIVE | SERVICE_STATE_INACTIVE | SERVICE_STATE_MISSING

definition bythos_probe_systemd_service :: "env \<Rightarrow> string \<Rightarrow> service_state" where
  "bythos_probe_systemd_service e unit =
     (if unit = [] then SERVICE_STATE_UNKNOWN
      else if \<not> bythos_command_exists e ''systemctl'' then SERVICE_STATE_SYSTEMCTL_UNAVAILABLE
      else
        (let active = bythos_run_argv_quiet e [''systemctl'', ''is-active'', ''--quiet'', unit]
         in if active = 0 then SERVICE_STATE_ACTIVE
            else if active < 0 then SERVICE_STATE_UNKNOWN
            else
              (let c = bythos_capture_argv_status e
                         [''systemctl'', ''show'', ''-p'', ''LoadState'', ''--value'', ''--no-pager'', unit] 64
               in if \<not> cap_success c then SERVICE_STATE_UNKNOWN
                  else if trim_text (cap_text c) = ''not-found'' then SERVICE_STATE_MISSING
                  else SERVICE_STATE_INACTIVE)))"

text \<open>The base directory is found once and cached; one snapshot gives one answer.\<close>

definition esp_base_candidates :: "string list" where
  "esp_base_candidates = [''/boot/efi/EFI'', ''/efi/EFI'', ''/boot/EFI'']"

definition bythos_esp_efi_base :: "env \<Rightarrow> string" where
  "bythos_esp_efi_base e =
     (case find (bythos_file_exists e) esp_base_candidates of
        Some b \<Rightarrow> b | None \<Rightarrow> hd esp_base_candidates)"

section \<open>The capture loop\<close>

lemma capture_step_spec:
  assumes "0 < sz" "chunk \<noteq> []"
  shows "capture_step sz (take (sz - 1) done, sz - 1 < length done) chunk
       = (take (sz - 1) (done @ chunk), sz - 1 < length (done @ chunk))"
  using assms
  by (cases "length done < sz - 1") (auto simp: capture_step_def Let_def min_def length_greater_0_conv[symmetric]
      simp del: length_greater_0_conv)

lemma capture_loop_spec:
  assumes "0 < sz" and "\<forall>c\<in>set reads. c \<noteq> []"
  shows "foldl (capture_step sz) (take (sz - 1) done, sz - 1 < length done) reads
       = (take (sz - 1) (done @ concat reads), sz - 1 < length (done @ concat reads))"
  using assms(2)
proof (induction reads arbitrary: "done")
  case Nil
  then show ?case by simp
next
  case (Cons c cs)
  then have "capture_step sz (take (sz - 1) done, sz - 1 < length done) c
    = (take (sz - 1) (done @ c), sz - 1 < length (done @ c))"
    using capture_step_spec [OF assms(1), of c "done"] by simp
  with Cons.IH [of "done @ c"] Cons.prems show ?case by simp
qed

lemma capture_loop_eq:
  "0 < sz \<Longrightarrow> \<forall>c\<in>set reads. c \<noteq> [] \<Longrightarrow>
     capture_loop sz reads = (take (sz - 1) (concat reads), sz - 1 < length (concat reads))"
  using capture_loop_spec [of sz reads "[]"] by (simp add: capture_loop_def)

lemma cap_exit_ok: "cap_ok (bythos_capture_argv_status_ex e argv sz) \<longleftrightarrow>
    cap_exit (bythos_capture_argv_status_ex e argv sz) \<noteq> None"
  by (auto simp: bythos_capture_argv_status_ex_def Let_def split: prod.splits wait_result.splits)

text \<open>Only the answer of the named helper is used.\<close>

lemma capture_cong:
  "env_run e argv = env_run e' argv \<Longrightarrow>
     bythos_capture_argv_status_ex e argv sz = bythos_capture_argv_status_ex e' argv sz"
  by (simp add: bythos_capture_argv_status_ex_def)

section \<open>Resolution of helpers\<close>

lemma resolve_dirs_none:
  "resolve_dirs e n ds = PATH_MATCH_NONE \<longleftrightarrow>
     (\<forall>d\<in>set ds. length (d @ ''/'' @ n) < PATH_MAX \<longrightarrow> \<not> env_access_x e (d @ ''/'' @ n))"
  by (induction ds) (auto simp: Let_def not_less)

lemma resolve_dirs_first:
  "resolve_dirs e n ds = m \<Longrightarrow> m \<noteq> PATH_MATCH_NONE \<Longrightarrow>
     \<exists>pre d post. ds = pre @ d # post \<and> length (d @ ''/'' @ n) < PATH_MAX \<and>
       env_access_x e (d @ ''/'' @ n) \<and>
       (m = PATH_MATCH_TRUSTED \<longleftrightarrow> trusted_binary e (d @ ''/'' @ n)) \<and>
       (\<forall>d'\<in>set pre. length (d' @ ''/'' @ n) < PATH_MAX \<longrightarrow> \<not> env_access_x e (d' @ ''/'' @ n))"
proof (induction ds)
  case Nil
  then show ?case by simp
next
  case (Cons d ds)
  show ?case
  proof (cases "length (d @ ''/'' @ n) < PATH_MAX \<and> env_access_x e (d @ ''/'' @ n)")
    case True
    with Cons.prems have "m = PATH_MATCH_TRUSTED \<longleftrightarrow> trusted_binary e (d @ ''/'' @ n)"
      by (auto simp: Let_def split: if_splits)
    with True show ?thesis by (intro exI [of _ "[]"] exI [of _ d] exI [of _ ds]) auto
  next
    case False
    with Cons.prems have "resolve_dirs e n ds = m" by (auto simp: Let_def)
    with Cons.IH Cons.prems(2) obtain pre d' post where
      "ds = pre @ d' # post" "length (d' @ ''/'' @ n) < PATH_MAX" "env_access_x e (d' @ ''/'' @ n)"
      "m = PATH_MATCH_TRUSTED \<longleftrightarrow> trusted_binary e (d' @ ''/'' @ n)"
      "\<forall>d''\<in>set pre. length (d'' @ ''/'' @ n) < PATH_MAX \<longrightarrow> \<not> env_access_x e (d'' @ ''/'' @ n)"
      by blast
    with False show ?thesis
      by (intro exI [of _ "d # pre"] exI [of _ d'] exI [of _ post]) auto
  qed
qed

lemma not_exists_and_untrusted: "\<not> (bythos_command_exists e n \<and> bythos_command_untrusted e n)"
  by (simp add: bythos_command_exists_def bythos_command_untrusted_def)

lemma wf_row_tool_or_untrusted [simp]: "wf_row (row_skip_tool_or_untrusted e n b t)"
  by (simp add: row_skip_tool_or_untrusted_def wf_make_result wf_make_skip)

lemma row_tool_or_untrusted [simp]:
  "r_name (row_skip_tool_or_untrusted e n b t) = n"
  "r_state (row_skip_tool_or_untrusted e n b t) = (if bythos_command_untrusted e b then CHECK_WARN else CHECK_SKIP)"
  by (simp_all add: row_skip_tool_or_untrusted_def make_result_def make_skip_def make_skip_actionable_def)

section \<open>Properties\<close>

text \<open>
  Claim C7: whatever chunks a helper's output arrives in, the captured buffer is the longest
  prefix of the whole output that leaves room for the terminator, and the truncation flag is
  set exactly when some of the output did not fit.
\<close>

theorem capture_is_prefix_of_output:
  assumes "argv \<noteq> []" "0 < sz" "proc_spawned (env_run e argv)"
    and "\<forall>c\<in>set (proc_reads (env_run e argv)). c \<noteq> []"
  shows "cap_buf (bythos_capture_argv_status_ex e argv sz) = take (sz - 1) (concat (proc_reads (env_run e argv)))
       \<and> (cap_truncated (bythos_capture_argv_status_ex e argv sz) \<longleftrightarrow>
            sz - 1 < length (concat (proc_reads (env_run e argv))))"
  using assms
  by (auto simp: bythos_capture_argv_status_ex_def capture_loop_eq Let_def split: wait_result.splits)

definition demo_env :: env where
  "demo_env = \<lparr>env_stat = (\<lambda>_. None), env_lstat = (\<lambda>_. None), env_access_x = (\<lambda>_. False),
     env_file = (\<lambda>_. OpenFails), env_dir = (\<lambda>_. DirFails ENOENT),
     env_run = (\<lambda>_. \<lparr>proc_spawned = True, proc_reads = [''abc'', ''de''], proc_alarm = False,
                     proc_reap = NotExited, proc_wait = Exited 0\<rparr>),
     env_pread = (\<lambda>_ _ _. FdFails), env_flags = (\<lambda>_. FdFails)\<rparr>"

theorem capture_is_prefix_of_output_witness:
  "cap_buf (bythos_capture_argv_status_ex demo_env [''x''] 5) = ''abcd''
   \<and> cap_truncated (bythos_capture_argv_status_ex demo_env [''x''] 5)"
  using capture_is_prefix_of_output [of "[''x'']" 5 demo_env] by (simp add: demo_env_def)

lemma trusted_binary_iff:
  "trusted_binary e p \<longleftrightarrow> (\<exists>st. env_stat e p = Some st \<and> st_uid st = 0 \<and> st_mode st AND 0x12 = 0)"
  by (simp add: trusted_binary_def group_world_writable_def split: option.split)

lemma command_exists_first_match:
  "bythos_command_exists e n \<longleftrightarrow>
     n \<noteq> [] \<and> (\<exists>pre d post. path_dirs BYTHOS_DEFAULT_PATH = pre @ d # post \<and>
        length (d @ ''/'' @ n) < PATH_MAX \<and> env_access_x e (d @ ''/'' @ n) \<and>
        trusted_binary e (d @ ''/'' @ n) \<and>
        (\<forall>d'\<in>set pre. \<not> (length (d' @ ''/'' @ n) < PATH_MAX \<and> env_access_x e (d' @ ''/'' @ n))))"
    (is "_ \<longleftrightarrow> _ \<and> ?first")
proof (cases "n = []")
  case True
  then show ?thesis by (simp add: bythos_command_exists_def resolve_on_trusted_path_def)
next
  case ne: False
  have step: "resolve_dirs e n (pre @ d # post) = PATH_MATCH_TRUSTED"
    if "length (d @ ''/'' @ n) < PATH_MAX" "env_access_x e (d @ ''/'' @ n)" "trusted_binary e (d @ ''/'' @ n)"
      "\<forall>d'\<in>set pre. \<not> (length (d' @ ''/'' @ n) < PATH_MAX \<and> env_access_x e (d' @ ''/'' @ n))"
    for pre d post
    using that by (induction pre) (auto simp: Let_def not_less)
  have "resolve_dirs e n (path_dirs BYTHOS_DEFAULT_PATH) = PATH_MATCH_TRUSTED \<longleftrightarrow> ?first"
    using resolve_dirs_first [of e n "path_dirs BYTHOS_DEFAULT_PATH" PATH_MATCH_TRUSTED] step by fastforce
  with ne show ?thesis by (simp add: bythos_command_exists_def resolve_on_trusted_path_def)
qed

text \<open>
  Claim C6: a helper counts as present exactly when the first directory of the trusted path that
  has an executable file of its name (in a path that fits the buffer) has one that is owned by
  root and not writable by group or others; a later trusted copy never makes up for an untrusted
  first match. (This is the answer of the check; the spawn looks the name up again.)
\<close>

theorem command_exists_iff_first_match_trusted:
  "bythos_command_exists e n \<longleftrightarrow>
     n \<noteq> [] \<and> (\<exists>pre d post. path_dirs BYTHOS_DEFAULT_PATH = pre @ d # post \<and>
        length (d @ ''/'' @ n) < PATH_MAX \<and> env_access_x e (d @ ''/'' @ n) \<and>
        (\<exists>st. env_stat e (d @ ''/'' @ n) = Some st \<and> st_uid st = 0 \<and> st_mode st AND 0x12 = 0) \<and>
        (\<forall>d'\<in>set pre. \<not> (length (d' @ ''/'' @ n) < PATH_MAX \<and> env_access_x e (d' @ ''/'' @ n))))"
  using command_exists_first_match [of e n] unfolding trusted_binary_iff .

definition helper_env :: env where
  "helper_env = demo_env\<lparr>env_access_x := (\<lambda>p. p = ''/usr/bin/sbctl''),
     env_stat := (\<lambda>p. Some \<lparr>st_uid = 0, st_mode = 0x81ED, st_dev = 1, st_ino = 1\<rparr>)\<rparr>"

theorem command_exists_iff_first_match_trusted_witness: "bythos_command_exists helper_env ''sbctl''"
proof -
  have dirs: "path_dirs BYTHOS_DEFAULT_PATH =
      [''/usr/local/sbin'', ''/usr/local/bin'', ''/usr/sbin''] @ ''/usr/bin'' # [''/sbin'', ''/bin'']"
    by code_simp
  then show ?thesis
    by (subst command_exists_iff_first_match_trusted)
      (rule conjI, simp, rule exI, rule exI, rule exI, rule conjI, assumption,
       simp add: helper_env_def PATH_MAX_def)
qed

end
