(* ===== verification/SiliconParsers.thy ===== *)
theory SiliconParsers
  imports Process
begin

text \<open>
  The parsers of \<open>src/silicon_parsers.c\<close>: kernel command line flags for the IOMMU, PCR dumps,
  the CPU vendor and flags, the microcode revision and the Intel ME version.
\<close>

record iommu_cmdline =
  iommu_disabled :: bool
  vendor_iommu_on :: bool
  passthrough_on :: bool
  passthrough_off :: bool
  strict_on :: bool
  strict_off :: bool

datatype cpu_vendor = CPU_VENDOR_UNKNOWN | CPU_VENDOR_AMD | CPU_VENDOR_INTEL

record mem_enc_flags =
  amd_sme :: bool
  intel_tme :: bool

section \<open>Tokens\<close>

text \<open>The delimiters of \<open>strcspn(cursor, " \t\r\n")\<close>.\<close>

definition is_tok_end :: "char \<Rightarrow> bool" where
  "is_tok_end c \<longleftrightarrow> c = SP \<or> c = TAB \<or> c = CR \<or> c = LF"

lemma tok_end_space: "is_tok_end c \<Longrightarrow> c_isspace c"
  by (auto simp: is_tok_end_def c_isspace_def)

lemma token_shrinks:
  assumes "dropWhile c_isspace s \<noteq> []"
  shows "length (dropWhile (\<lambda>c. \<not> is_tok_end c) (dropWhile c_isspace s)) < length s"
proof -
  obtain d ds where d: "dropWhile c_isspace s = d # ds" using assms by (cases "dropWhile c_isspace s") auto
  then have "\<not> is_tok_end d" using tok_end_space by (auto simp: dropWhile_eq_Cons_conv)
  then have "length (dropWhile (\<lambda>c. \<not> is_tok_end c) (d # ds)) \<le> length ds" by (simp add: length_dropWhile_le)
  also have "\<dots> < length s" using length_dropWhile_le [of c_isspace s] d by simp
  finally show ?thesis by (simp add: d)
qed

function token_present :: "string \<Rightarrow> string \<Rightarrow> bool" where
  "token_present text needle =
     (let cursor = dropWhile c_isspace text
      in if cursor = [] then False
         else if takeWhile (\<lambda>c. \<not> is_tok_end c) cursor = needle then True
         else token_present (dropWhile (\<lambda>c. \<not> is_tok_end c) cursor) needle)"
  by pat_completeness auto
termination
  by (relation "measure (\<lambda>(t, n). length t)") (auto intro: token_shrinks simp del: dropWhile_eq_Nil_conv)

declare token_present.simps [simp del]

definition bythos_parse_iommu_cmdline :: "cptr \<Rightarrow> iommu_cmdline" where
  "bythos_parse_iommu_cmdline text =
     (case text of None \<Rightarrow> \<lparr>iommu_disabled = False, vendor_iommu_on = False, passthrough_on = False,
                            passthrough_off = False, strict_on = False, strict_off = False\<rparr>
      | Some t \<Rightarrow>
        if t = [] then \<lparr>iommu_disabled = False, vendor_iommu_on = False, passthrough_on = False,
                        passthrough_off = False, strict_on = False, strict_off = False\<rparr>
        else
          \<lparr>iommu_disabled = (token_present t ''iommu=off'' \<or> token_present t ''intel_iommu=off'' \<or>
                             token_present t ''amd_iommu=off''),
           vendor_iommu_on = (token_present t ''intel_iommu=on'' \<or> token_present t ''amd_iommu=on''),
           passthrough_on = (token_present t ''iommu=pt'' \<or> token_present t ''iommu.passthrough=1''),
           passthrough_off = token_present t ''iommu.passthrough=0'',
           strict_on = token_present t ''iommu.strict=1'',
           strict_off = token_present t ''iommu.strict=0''\<rparr>)"

section \<open>PCR dumps\<close>

text \<open>The hex digits after the first \<open>0x\<close> of a line: 1 for all zeros, 0 otherwise, -1 for none.\<close>

definition pcr_line_value :: "string \<Rightarrow> int" where
  "pcr_line_value p =
     (case strstr p ''0x'' of None \<Rightarrow> -1
      | Some ox \<Rightarrow>
          (let hex = takeWhile (\<lambda>c. c \<noteq> LF \<and> c \<noteq> CR \<and> c \<noteq> SP) (drop 2 ox)
           in if hex = [] then -1 else if list_all (\<lambda>c. c = CHR ''0'') hex then 1 else 0))"

definition pcr_line_matches :: "string \<Rightarrow> string \<Rightarrow> bool" where
  "pcr_line_matches pre p \<longleftrightarrow>
     starts_with p pre \<and> length pre < length p \<and>
     (p ! length pre = SP \<or> p ! length pre = CHR '':'' \<or> p ! length pre = TAB)"

lemma next_line_shrinks: "s \<noteq> [] \<Longrightarrow> length (drop 1 (dropWhile P s)) < length s"
  using length_dropWhile_le [of P s] by (cases s) (auto simp: less_Suc_eq_le intro: le_trans [OF diff_le_self])

function pcr_loop :: "string \<Rightarrow> string \<Rightarrow> int" where
  "pcr_loop pre text =
     (if text = [] then -1
      else let line = takeWhile (\<lambda>c. c \<noteq> LF) text; p = dropWhile is_blank line
           in if pcr_line_matches pre p then pcr_line_value p
              else pcr_loop pre (drop 1 (dropWhile (\<lambda>c. c \<noteq> LF) text)))"
  by pat_completeness auto
termination
proof (relation "measure (\<lambda>(p, t). length t)")
  fix pre s :: string
  assume "s \<noteq> []"
  then show "((pre, drop 1 (dropWhile (\<lambda>c. c \<noteq> LF) s)), (pre, s)) \<in> measure (\<lambda>(p, t). length t)"
    using next_line_shrinks by simp
qed simp

declare pcr_loop.simps [simp del]

definition bythos_pcr_zero_check :: "cptr \<Rightarrow> nat \<Rightarrow> int" where
  "bythos_pcr_zero_check buf pcr_num =
     (case buf of None \<Rightarrow> -1 | Some b \<Rightarrow> pcr_loop (snprintf_s 8 (dec_nat pcr_num)) b)"

section \<open>/proc/cpuinfo\<close>

definition vendor_of_line :: "string \<Rightarrow> cpu_vendor" where
  "vendor_of_line line =
     (case strchr line (CHR '':'') of None \<Rightarrow> CPU_VENDOR_UNKNOWN
      | Some colon \<Rightarrow>
          (let v = dropWhile is_blank (tl colon)
           in if starts_with v ''AuthenticAMD'' then CPU_VENDOR_AMD
              else if starts_with v ''GenuineIntel'' then CPU_VENDOR_INTEL else CPU_VENDOR_UNKNOWN))"

fun vendor_lines :: "string list \<Rightarrow> cpu_vendor" where
  "vendor_lines [] = CPU_VENDOR_UNKNOWN"
| "vendor_lines (line # lines) =
     (if 10 < length line \<and> starts_with line ''vendor_id'' then vendor_of_line line else vendor_lines lines)"

definition bythos_cpu_vendor :: "env \<Rightarrow> cpu_vendor" where
  "bythos_cpu_vendor e =
     (case bythos_read_file_text e ''/proc/cpuinfo'' 4096 of None \<Rightarrow> CPU_VENDOR_UNKNOWN
      | Some buf \<Rightarrow> vendor_lines (c_lines True buf))"

fun flags_lines :: "nat \<Rightarrow> string list \<Rightarrow> string option" where
  "flags_lines out_size [] = None"
| "flags_lines out_size (line # lines) =
     (if 5 < length line \<and> starts_with line ''flags'' \<and>
         (line ! 5 = TAB \<or> line ! 5 = SP \<or> line ! 5 = CHR '':'') then
        (case strchr line (CHR '':'') of
           None \<Rightarrow> flags_lines out_size lines
         | Some colon \<Rightarrow> Some (take (out_size - 1) (dropWhile is_blank (tl colon))))
      else flags_lines out_size lines)"

definition extract_cpuinfo_flags_line :: "cptr \<Rightarrow> nat \<Rightarrow> string option" where
  "extract_cpuinfo_flags_line cpuinfo out_size =
     (case cpuinfo of None \<Rightarrow> None
      | Some t \<Rightarrow> if out_size = 0 then None else flags_lines out_size (c_lines True t))"

definition bythos_parse_memory_encryption_flags :: "cptr \<Rightarrow> mem_enc_flags" where
  "bythos_parse_memory_encryption_flags cpuinfo =
     (case extract_cpuinfo_flags_line cpuinfo 2048 of
        None \<Rightarrow> \<lparr>amd_sme = False, intel_tme = False\<rparr>
      | Some fl \<Rightarrow> \<lparr>amd_sme = token_present fl ''sme'', intel_tme = token_present fl ''tme''\<rparr>)"

fun microcode_lines :: "nat \<Rightarrow> string list \<Rightarrow> string option" where
  "microcode_lines sz [] = None"
| "microcode_lines sz (raw # lines) =
     (let line = take 511 raw; lhs = trim_text line
      in if starts_with lhs ''microcode'' then
           (case strchr lhs (CHR '':'') of
              None \<Rightarrow> microcode_lines sz lines
            | Some sep \<Rightarrow> (let rhs = trim_text (tl sep)
                           in if rhs \<noteq> [] then Some (snprintf_s sz rhs) else microcode_lines sz lines))
         else microcode_lines sz lines)"

definition bythos_extract_microcode_revision :: "cptr \<Rightarrow> nat \<Rightarrow> string option" where
  "bythos_extract_microcode_revision text sz =
     (case text of None \<Rightarrow> None
      | Some t \<Rightarrow> if sz = 0 then None else microcode_lines sz (c_lines True t))"

section \<open>The Intel ME version\<close>

text \<open>
  \<open>sscanf\<close>'s \<open>%u\<close> (as glibc converts: \<open>strtoul\<close>, stored in 32 bits) and a literal character.
\<close>

definition scan_u :: "string \<Rightarrow> (nat \<times> string) option" where
  "scan_u s = (let (v, r) = strtoul 10 s in if r = s then None else Some (v mod 2 ^ 32, r))"

definition scan_lit :: "char \<Rightarrow> string \<Rightarrow> string option" where
  "scan_lit c s = (case s of [] \<Rightarrow> None | d # ds \<Rightarrow> if d = c then Some ds else None)"

definition scan_dotted :: "string \<Rightarrow> (nat \<times> nat \<times> nat \<times> nat) option" where
  "scan_dotted s =
     do { (major, s) \<leftarrow> scan_u s; s \<leftarrow> scan_lit (CHR ''.'') s;
          (minor, s) \<leftarrow> scan_u s; s \<leftarrow> scan_lit (CHR ''.'') s;
          (hotfix, s) \<leftarrow> scan_u s; s \<leftarrow> scan_lit (CHR ''.'') s;
          (build, s) \<leftarrow> scan_u s; Some (major, minor, hotfix, build) }"

definition print_version :: "nat \<times> nat \<times> nat \<times> nat \<Rightarrow> string" where
  "print_version v = (case v of (a, b, c, d) \<Rightarrow>
     dec_nat a @ ''.'' @ dec_nat b @ ''.'' @ dec_nat c @ ''.'' @ dec_nat d)"

definition bythos_parse_me_version :: "cptr \<Rightarrow> nat \<Rightarrow> string option" where
  "bythos_parse_me_version text sz =
     (case text of None \<Rightarrow> None
      | Some t \<Rightarrow>
        if sz = 0 then None
        else case do { (platform, s) \<leftarrow> scan_u t; s \<leftarrow> scan_lit (CHR '':'') s; scan_dotted s } of
          Some v \<Rightarrow> Some (snprintf_s sz (print_version v))
        | None \<Rightarrow> (case scan_dotted t of
            Some v \<Rightarrow> Some (snprintf_s sz (print_version v)) | None \<Rightarrow> None))"

end
