(* ===== verification/ChecksPlatform.thy ===== *)
theory ChecksPlatform
  imports SiliconParsers
begin

text \<open>
  The checks of platform trust: \<open>check_iommu.c\<close>, \<open>check_dci.c\<close> (with chipsec), \<open>check_bolt.c\<close>,
  \<open>check_efi.c\<close>, \<open>check_me_version.c\<close>, \<open>check_memory_encryption.c\<close>, \<open>check_microcode.c\<close> and
  \<open>check_bios_cntl.c\<close>. The rows of a check are a function of the environment, one definition per
  block of the code; the check emits them through the guarded append. Every check is an
  interpretation of \<open>check_fn\<close>, the contract of the group runner.
\<close>

section \<open>IOMMU\<close>

definition iommu_group_count :: "env \<Rightarrow> nat option" where
  "iommu_group_count e = bythos_count_child_dirs e ''/sys/kernel/iommu_groups''"

definition iommu_groups_visible :: "env \<Rightarrow> bool" where
  "iommu_groups_visible e \<longleftrightarrow>
     (case iommu_group_count e of None \<Rightarrow> False | Some group_count \<Rightarrow> group_count > 0)"

definition iommu_groups_row :: "env \<Rightarrow> check_result" where
  "iommu_groups_row e =
     (case iommu_group_count e of
        None \<Rightarrow> row ''IOMMU groups'' CHECK_WARN ''none visible''
      | Some n \<Rightarrow>
          if n > 0 then row ''IOMMU groups'' CHECK_OK
            (snprintf_s 128 (dec_nat n @ '' '' @ bythos_pl n ''group'' ''groups'' @ '' active''))
          else row ''IOMMU groups'' CHECK_WARN ''none visible'')"

definition iommu_visible_detail :: "iommu_cmdline \<Rightarrow> string" where
  "iommu_visible_detail parsed =
     (if passthrough_off parsed \<and> strict_on parsed
      then ''runtime groups visible; passthrough disabled; strict mode enabled''
      else if passthrough_off parsed then ''runtime groups visible; passthrough disabled''
      else if strict_on parsed then ''runtime groups visible; strict mode enabled''
      else if vendor_iommu_on parsed then ''runtime groups visible; vendor IOMMU enable flag present''
      else ''runtime groups visible; no passthrough override seen'')"

definition iommu_posture_row :: "env \<Rightarrow> check_result" where
  "iommu_posture_row e =
     (let groups_visible = iommu_groups_visible e
      in case bythos_read_file_text e ''/proc/cmdline'' 4096 of
        None \<Rightarrow>
          if groups_visible
          then row ''IOMMU DMA posture'' CHECK_OK ''runtime groups visible; kernel cmdline unavailable''
          else row ''IOMMU DMA posture'' CHECK_WARN ''unable to inspect kernel cmdline''
      | Some cmdline \<Rightarrow>
          (let parsed = bythos_parse_iommu_cmdline (Some cmdline)
           in if iommu_disabled parsed
              then row ''IOMMU DMA posture'' CHECK_FAIL ''IOMMU disabled in kernel cmdline''
              else if passthrough_on parsed
              then row ''IOMMU DMA posture'' CHECK_FAIL ''passthrough override enabled in kernel cmdline''
              else if strict_off parsed
              then row ''IOMMU DMA posture'' CHECK_WARN
                     (if groups_visible then ''runtime groups visible; strict mode explicitly disabled''
                      else ''strict mode explicitly disabled in kernel cmdline'')
              else if groups_visible
              then row ''IOMMU DMA posture'' CHECK_OK (snprintf_s 192 (iommu_visible_detail parsed))
              else if passthrough_off parsed \<or> strict_on parsed \<or> vendor_iommu_on parsed
              then row ''IOMMU DMA posture'' CHECK_WARN ''cmdline looks hardened but runtime groups are not visible''
              else row ''IOMMU DMA posture'' CHECK_WARN ''unable to confirm DMA remapping posture''))"

definition iommu_rows :: "env \<Rightarrow> check_result list" where
  "iommu_rows e = [iommu_groups_row e, iommu_posture_row e]"

definition bythos_check_iommu :: "env \<Rightarrow> nat \<Rightarrow> check_result list" where
  "bythos_check_iommu e max_results = emit_all max_results [] (iommu_rows e)"

lemma wf_iommu_rows [row_simps]: "wf_row (iommu_groups_row e)" "wf_row (iommu_posture_row e)"
  by (simp_all add: iommu_groups_row_def iommu_posture_row_def Let_def split: option.split)

interpretation iommu: check_fn bythos_check_iommu iommu_rows 2
  by (rule check_fn_emit) (simp_all add: bythos_check_iommu_def iommu_rows_def row_simps)

section \<open>DCI and chipsec\<close>

definition DCI_ENABLE_BIT :: u64 where "DCI_ENABLE_BIT = push_bit 0 1"
definition DCI_LOCK_BIT :: u64 where "DCI_LOCK_BIT = push_bit 30 1"
definition MSR_IA32_DEBUG_INTERFACE :: nat where "MSR_IA32_DEBUG_INTERFACE = 0xC80"

text \<open>The eight bytes stored through \<open>&val\<close> on a little-endian host.\<close>

definition u64_of_bytes :: "bytes \<Rightarrow> u64" where
  "u64_of_bytes bs = foldr (\<lambda>b w. of_char b OR push_bit 8 w) bs 0"

definition dci_value_row :: "u64 \<Rightarrow> check_result" where
  "dci_value_row val =
     (let enabled = val AND DCI_ENABLE_BIT \<noteq> 0; locked = val AND DCI_LOCK_BIT \<noteq> 0
      in if enabled then row ''Intel DCI'' CHECK_FAIL
           (if locked then ''DCI enabled and locked (cannot be disabled without reboot)''
            else ''DCI enabled; USB-C debug access possible'')
         else if locked then row ''Intel DCI'' CHECK_OK ''DCI disabled and locked''
         else row ''Intel DCI'' CHECK_WARN ''DCI disabled but not locked'')"

definition dci_row :: "env \<Rightarrow> check_result" where
  "dci_row e =
     (case bythos_cpu_vendor e of
        CPU_VENDOR_AMD \<Rightarrow>
          if bythos_file_exists e ''/sys/module/ccp''
          then row ''AMD PSP visibility'' CHECK_OK ''AMD PSP driver visible''
          else row ''AMD PSP visibility'' CHECK_WARN ''AMD PSP driver not loaded''
      | CPU_VENDOR_UNKNOWN \<Rightarrow> row_skip_vendor ''Intel DCI'' ''Intel-only check''
      | CPU_VENDOR_INTEL \<Rightarrow>
          if \<not> bythos_file_exists e ''/dev/cpu/0/msr'' then row_skip_feature ''Intel DCI'' ''MSR device''
          else (case env_pread e ''/dev/cpu/0/msr'' MSR_IA32_DEBUG_INTERFACE 8 of
              FdOpenFails err \<Rightarrow> if err = EACCES then row_skip_exec_root ''Intel DCI'' ''MSR''
                                  else row_skip_exec ''Intel DCI'' ''MSR''
            | FdFails \<Rightarrow> row_skip_exec ''Intel DCI'' ''MSR''
            | FdGot val \<Rightarrow> if length val \<noteq> 8 then row_skip_exec ''Intel DCI'' ''MSR''
                           else dci_value_row (u64_of_bytes val)))"

definition bythos_check_dci :: "env \<Rightarrow> nat \<Rightarrow> check_result list" where
  "bythos_check_dci e max_results = (if max_results = 0 then [] else [dci_row e])"

definition dci_rows :: "env \<Rightarrow> check_result list" where "dci_rows e = [dci_row e]"

lemma wf_dci_row [row_simps]: "wf_row (dci_row e)"
  by (simp add: dci_row_def dci_value_row_def Let_def split: cpu_vendor.split fd_answer.split)

interpretation dci: check_fn bythos_check_dci dci_rows 1
  by (rule check_fn_single [where r = dci_row]) (simp_all add: bythos_check_dci_def dci_rows_def row_simps)

definition chipsec_row :: "env \<Rightarrow> check_result" where
  "chipsec_row e =
     (if bythos_command_exists e ''chipsec_main'' \<or> bythos_command_exists e ''chipsec''
      then row_skip ''platform firmware deep audit'' SKIP_NOT_CONFIGURED
             ''chipsec available; run manually for a deep audit''
      else if bythos_command_untrusted e ''chipsec_main'' \<or> bythos_command_untrusted e ''chipsec''
      then row ''platform firmware deep audit'' CHECK_WARN
             ''chipsec on PATH is not root-owned; refusing to run it as root''
      else row_skip_tool_install ''platform firmware deep audit'' ''chipsec'')"

definition chipsec_rows :: "env \<Rightarrow> check_result list" where "chipsec_rows e = [chipsec_row e]"

definition bythos_check_chipsec :: "env \<Rightarrow> nat \<Rightarrow> check_result list" where
  "bythos_check_chipsec e max_results = emit_all max_results [] (chipsec_rows e)"

lemma wf_chipsec_row [row_simps]: "wf_row (chipsec_row e)"
  by (simp add: chipsec_row_def)

interpretation chipsec: check_fn bythos_check_chipsec chipsec_rows 1
  by (rule check_fn_emit) (simp_all add: bythos_check_chipsec_def chipsec_rows_def row_simps)

section \<open>Thunderbolt\<close>

datatype tb_dma_state = TB_DMA_UNREADABLE | TB_DMA_ALL_ON | TB_DMA_SOME_OFF

definition BOLT_SYSFS_BASE :: string where "BOLT_SYSFS_BASE = ''/sys/bus/thunderbolt/devices''"

text \<open>The loop's counters are (readable, unprotected).\<close>

definition tb_step :: "env \<Rightarrow> nat \<times> nat \<Rightarrow> string \<Rightarrow> nat \<times> nat" where
  "tb_step e st name =
     (let (readable, unprotected) = st;
          path = BOLT_SYSFS_BASE @ ''/'' @ name @ ''/iommu_dma_protection''
      in if \<not> starts_with name ''domain'' then st
         else if PATH_MAX \<le> length path then st
         else case bythos_read_file_text e path 8 of None \<Rightarrow> st
           | Some val \<Rightarrow> (readable + 1, if trim_text val \<noteq> ''1'' then unprotected + 1 else unprotected))"

definition read_tb_dma_state :: "env \<Rightarrow> tb_dma_state" where
  "read_tb_dma_state e =
     (case env_names e BOLT_SYSFS_BASE of None \<Rightarrow> TB_DMA_UNREADABLE
      | Some names \<Rightarrow>
          (let (readable, unprotected) = foldl (tb_step e) (0, 0) names
           in if readable = 0 then TB_DMA_UNREADABLE
              else if unprotected > 0 then TB_DMA_SOME_OFF else TB_DMA_ALL_ON))"

definition tb_controller_present :: "env \<Rightarrow> bool" where
  "tb_controller_present e =
     (case env_names e BOLT_SYSFS_BASE of None \<Rightarrow> False
      | Some names \<Rightarrow> list_ex (\<lambda>name. starts_with name ''domain'') names)"

definition bolt_row :: "env \<Rightarrow> check_result" where
  "bolt_row e =
     (if \<not> tb_controller_present e then row_skip_hw ''Thunderbolt DMA protection'' ''Thunderbolt''
      else case read_tb_dma_state e of
        TB_DMA_UNREADABLE \<Rightarrow> row_skip_feature ''Thunderbolt DMA protection'' ''iommu_dma_protection''
      | TB_DMA_ALL_ON \<Rightarrow> row ''Thunderbolt DMA protection'' CHECK_OK ''pre-boot DMA active''
      | TB_DMA_SOME_OFF \<Rightarrow> row ''Thunderbolt DMA protection'' CHECK_WARN
                              ''pre-boot DMA inactive on at least one domain'')"

definition bolt_rows :: "env \<Rightarrow> check_result list" where "bolt_rows e = [bolt_row e]"

definition bythos_check_bolt_dma :: "env \<Rightarrow> nat \<Rightarrow> check_result list" where
  "bythos_check_bolt_dma e max_results = emit_all max_results [] (bolt_rows e)"

lemma wf_bolt_row [row_simps]: "wf_row (bolt_row e)"
  by (simp add: bolt_row_def split: tb_dma_state.split)

interpretation bolt: check_fn bythos_check_bolt_dma bolt_rows 1
  by (rule check_fn_emit) (simp_all add: bythos_check_bolt_dma_def bolt_rows_def row_simps)

section \<open>EFI runtime\<close>

definition efi_visible :: "env \<Rightarrow> bool" where
  "efi_visible e = bythos_file_exists e ''/sys/firmware/efi''"

definition efi_boot_mode_row :: "env \<Rightarrow> check_result" where
  "efi_boot_mode_row e =
     (if efi_visible e then row ''EFI boot mode'' CHECK_OK ''UEFI firmware interface visible''
      else row ''EFI boot mode'' CHECK_WARN ''EFI runtime interface not visible; legacy BIOS mode likely'')"

definition esrt_row :: "env \<Rightarrow> check_result" where
  "esrt_row e =
     (if \<not> efi_visible e then row_skip_feature ''ESRT entries'' ''EFI runtime''
      else case bythos_count_child_dirs e ''/sys/firmware/efi/esrt/entries'' of
        None \<Rightarrow> row ''ESRT entries'' CHECK_WARN ''no ESRT entries; fwupd cannot update firmware''
      | Some n \<Rightarrow>
          if n = 0 then row ''ESRT entries'' CHECK_WARN ''no ESRT entries; fwupd cannot update firmware''
          else row ''ESRT entries'' CHECK_OK
                 (snprintf_s 256 (dec_nat n @ '' firmware '' @ bythos_pl n ''entry'' ''entries'')))"

definition efi_rows :: "env \<Rightarrow> check_result list" where
  "efi_rows e = [efi_boot_mode_row e, esrt_row e]"

definition bythos_check_efi :: "env \<Rightarrow> nat \<Rightarrow> check_result list" where
  "bythos_check_efi e max_results = emit_all max_results [] (efi_rows e)"

lemma wf_efi_rows [row_simps]: "wf_row (efi_boot_mode_row e)" "wf_row (esrt_row e)"
  by (simp_all add: efi_boot_mode_row_def esrt_row_def split: option.split)

interpretation efi: check_fn bythos_check_efi efi_rows 2
  by (rule check_fn_emit) (simp_all add: bythos_check_efi_def efi_rows_def row_simps)

section \<open>Intel ME version\<close>

definition me_trim_end :: "string \<Rightarrow> string" where
  "me_trim_end buf = rev (dropWhile (\<lambda>c. c = LF \<or> c = CR \<or> c = SP) (rev buf))"

definition me_version_row :: "env \<Rightarrow> check_result" where
  "me_version_row e =
     (if bythos_cpu_vendor e \<noteq> CPU_VENDOR_INTEL then row_skip_vendor ''Intel ME version'' ''Intel-only check''
      else if \<not> bythos_file_exists e ''/sys/class/mei/mei0/fw_version''
      then row_skip_feature ''Intel ME version'' ''Intel ME''
      else case bythos_read_file_text e ''/sys/class/mei/mei0/fw_version'' 64 of
        None \<Rightarrow> row_skip_exec ''Intel ME version'' ''ME version''
      | Some buf \<Rightarrow>
          (case bythos_parse_me_version (Some (me_trim_end buf)) 64 of
             None \<Rightarrow> row_skip_parse ''Intel ME version'' ''ME version''
           | Some version \<Rightarrow> row ''Intel ME version'' CHECK_OK
                 (snprintf_s 256 (version @ ''; compare against Intel SA advisories''))))"

definition me_version_rows :: "env \<Rightarrow> check_result list" where "me_version_rows e = [me_version_row e]"

definition bythos_check_me_version :: "env \<Rightarrow> nat \<Rightarrow> check_result list" where
  "bythos_check_me_version e max_results = (if max_results = 0 then [] else [me_version_row e])"

lemma wf_me_version_row [row_simps]: "wf_row (me_version_row e)"
  by (simp add: me_version_row_def split: option.split)

interpretation me_version: check_fn bythos_check_me_version me_version_rows 1
  by (rule check_fn_single [where r = me_version_row])
    (simp_all add: bythos_check_me_version_def me_version_rows_def row_simps)

section \<open>Memory encryption\<close>

definition memory_encryption_row :: "env \<Rightarrow> check_result" where
  "memory_encryption_row e =
     (let vendor = bythos_cpu_vendor e
      in if vendor = CPU_VENDOR_UNKNOWN then row_skip_vendor ''memory encryption'' ''CPU vendor undetermined''
         else if vendor \<noteq> CPU_VENDOR_AMD \<and> vendor \<noteq> CPU_VENDOR_INTEL
         then row_skip_vendor ''memory encryption'' ''vendor not supported (non-Intel/AMD)''
         else case bythos_first_line_with_prefix e ''/proc/cpuinfo'' ''flags'' 4096 of
           None \<Rightarrow> row_skip_exec ''memory encryption'' ''cpuinfo''
         | Some flags_line \<Rightarrow>
             (let flags = bythos_parse_memory_encryption_flags (Some flags_line)
              in if vendor = CPU_VENDOR_AMD then
                   (if \<not> amd_sme flags
                    then row_skip ''memory encryption'' SKIP_FEATURE_ABSENT ''CPU encryption flags not detected''
                    else row ''memory encryption'' CHECK_OK
                           ''AMD SME capability present; activation not verified'')
                 else
                   (if \<not> intel_tme flags
                    then row_skip ''memory encryption'' SKIP_FEATURE_ABSENT ''CPU encryption flags not detected''
                    else row ''memory encryption'' CHECK_OK
                           ''Intel TME capability present; activation not verified'')))"

definition memory_encryption_rows :: "env \<Rightarrow> check_result list" where
  "memory_encryption_rows e = [memory_encryption_row e]"

definition bythos_check_memory_encryption :: "env \<Rightarrow> nat \<Rightarrow> check_result list" where
  "bythos_check_memory_encryption e max_results = (if max_results = 0 then [] else [memory_encryption_row e])"

lemma wf_memory_encryption_row [row_simps]: "wf_row (memory_encryption_row e)"
  by (simp add: memory_encryption_row_def Let_def split: option.split)

interpretation memory_encryption: check_fn bythos_check_memory_encryption memory_encryption_rows 1
  by (rule check_fn_single [where r = memory_encryption_row])
    (simp_all add: bythos_check_memory_encryption_def memory_encryption_rows_def row_simps)

section \<open>Microcode and CPU vulnerabilities\<close>

definition microcode_row :: "env \<Rightarrow> check_result" where
  "microcode_row e =
     (let vendor = bythos_cpu_vendor e
      in if vendor \<noteq> CPU_VENDOR_INTEL \<and> vendor \<noteq> CPU_VENDOR_AMD
         then row_skip_vendor ''CPU microcode'' ''x86-only check''
         else case bythos_first_line_with_prefix e ''/proc/cpuinfo'' ''microcode'' 256 of
           None \<Rightarrow> row ''CPU microcode'' CHECK_WARN ''revision not visible''
         | Some microcode_line \<Rightarrow>
             (case bythos_extract_microcode_revision (Some microcode_line) 128 of
                Some revision \<Rightarrow> row ''CPU microcode'' CHECK_OK (snprintf_s 160 (''loaded revision '' @ revision))
              | None \<Rightarrow> row ''CPU microcode'' CHECK_WARN ''revision not visible''))"

record vuln_counts =
  v_total :: nat
  v_vulnerable :: nat
  v_unknown :: nat
  v_first :: string

definition vuln_dir :: string where "vuln_dir = ''/sys/devices/system/cpu/vulnerabilities''"

definition vuln_step :: "env \<Rightarrow> vuln_counts \<Rightarrow> string \<Rightarrow> vuln_counts" where
  "vuln_step e st name =
     (let path = vuln_dir @ ''/'' @ name
      in if starts_with name ''.'' then st
         else if PATH_MAX \<le> length path then st
         else case bythos_read_file_text e path 256 of None \<Rightarrow> st
           | Some content \<Rightarrow>
               (let st = st\<lparr>v_total := v_total st + 1\<rparr>;
                    lower = bythos_to_lower_ascii content 256
                in if has_sub lower ''vulnerable'' then
                     st\<lparr>v_vulnerable := v_vulnerable st + 1,
                        v_first := (if v_first st = [] then snprintf_s 64 (prec_s 60 name) else v_first st)\<rparr>
                   else if starts_with lower ''unknown'' then st\<lparr>v_unknown := v_unknown st + 1\<rparr>
                   else st))"

definition vulnerabilities_row :: "env \<Rightarrow> check_result" where
  "vulnerabilities_row e =
     (case env_names e vuln_dir of
        None \<Rightarrow> row_skip ''CPU vulnerabilities'' SKIP_FEATURE_ABSENT ''kernel vulnerabilities sysfs not exposed''
      | Some names \<Rightarrow>
          (let st = foldl (vuln_step e) \<lparr>v_total = 0, v_vulnerable = 0, v_unknown = 0, v_first = []\<rparr> names
           in if v_total st = 0 then row_skip ''CPU vulnerabilities'' SKIP_FEATURE_ABSENT ''no vulnerability entries''
              else if v_vulnerable st > 0 then row ''CPU vulnerabilities'' CHECK_WARN
                (snprintf_s 256 (dec_nat (v_vulnerable st) @ '' of '' @ dec_nat (v_total st) @
                                 '' vulnerable (e.g. '' @ v_first st @ '')''))
              else if v_unknown st > 0 then row ''CPU vulnerabilities'' CHECK_WARN
                (snprintf_s 256 (dec_nat (v_unknown st) @ '' of '' @ dec_nat (v_total st) @
                                 '' indeterminate (kernel reports unknown)''))
              else row ''CPU vulnerabilities'' CHECK_OK
                (snprintf_s 256 (dec_nat (v_total st) @ '' '' @ bythos_pl (v_total st) ''check'' ''checks'' @
                                 ''; all mitigated or not affected''))))"

definition vulnerability_scan_row :: "env \<Rightarrow> check_result" where
  "vulnerability_scan_row e =
     (if bythos_command_exists e ''spectre-meltdown-checker''
      then row_skip ''CPU vulnerability scan'' SKIP_NOT_CONFIGURED
             ''spectre-meltdown-checker available; run manually for a deep scan''
      else row_skip_tool_or_untrusted e ''CPU vulnerability scan''
             ''spectre-meltdown-checker'' ''spectre-meltdown-checker'')"

definition microcode_rows :: "env \<Rightarrow> check_result list" where
  "microcode_rows e = [microcode_row e, vulnerabilities_row e, vulnerability_scan_row e]"

definition bythos_check_microcode :: "env \<Rightarrow> nat \<Rightarrow> check_result list" where
  "bythos_check_microcode e max_results = emit_all max_results [] (microcode_rows e)"

lemma wf_microcode_rows [row_simps]:
  "wf_row (microcode_row e)" "wf_row (vulnerabilities_row e)" "wf_row (vulnerability_scan_row e)"
  by (simp_all add: microcode_row_def vulnerabilities_row_def vulnerability_scan_row_def Let_def split: option.split)

interpretation microcode: check_fn bythos_check_microcode microcode_rows 3
  by (rule check_fn_emit) (simp_all add: bythos_check_microcode_def microcode_rows_def row_simps)

section \<open>BIOS write protection\<close>

definition bios_cntl_config_path :: "env \<Rightarrow> string option" where
  "bios_cntl_config_path e =
     (if bythos_file_exists e ''/sys/bus/pci/devices/0000:00:1f.5/config''
      then Some ''/sys/bus/pci/devices/0000:00:1f.5/config''
      else if bythos_file_exists e ''/sys/bus/pci/devices/0000:00:1f.0/config''
      then Some ''/sys/bus/pci/devices/0000:00:1f.0/config''
      else None)"

definition bios_cntl_value_row :: "nat \<Rightarrow> check_result" where
  "bios_cntl_value_row byte =
     (let bioswe = byte AND 1; ble = drop_bit 1 byte AND 1; smm_bwp = drop_bit 5 byte AND 1
      in if bioswe \<noteq> 0 then row ''Intel BIOS write protection'' CHECK_WARN ''BIOSWE set: BIOS region write enabled''
         else if ble = 0 then row ''Intel BIOS write protection'' CHECK_WARN ''BLE not set: BIOS lock enable missing''
         else if smm_bwp = 0 then row ''Intel BIOS write protection'' CHECK_WARN
                ''SMM_BWP not set: SMM-only write not enforced''
         else row ''Intel BIOS write protection'' CHECK_OK ''BLE and SMM_BWP set; BIOS region protected'')"

definition bios_cntl_row :: "env \<Rightarrow> check_result" where
  "bios_cntl_row e =
     (if bythos_cpu_vendor e \<noteq> CPU_VENDOR_INTEL
      then row_skip_vendor ''Intel BIOS write protection'' ''Intel-only check''
      else case bios_cntl_config_path e of
        None \<Rightarrow> row_skip_hw ''Intel BIOS write protection'' ''Intel PCH''
      | Some config_path \<Rightarrow>
          (case env_pread e config_path 0xDC 1 of
             FdOpenFails _ \<Rightarrow> row_skip_exec_root ''Intel BIOS write protection'' ''PCI config''
           | FdFails \<Rightarrow> row_skip_exec ''Intel BIOS write protection'' ''BIOS_CNTL''
           | FdGot bs \<Rightarrow> if length bs \<noteq> 1 then row_skip_exec ''Intel BIOS write protection'' ''BIOS_CNTL''
                         else bios_cntl_value_row (byte_val (hd bs))))"

definition bios_cntl_rows :: "env \<Rightarrow> check_result list" where "bios_cntl_rows e = [bios_cntl_row e]"

definition bythos_check_bios_cntl :: "env \<Rightarrow> nat \<Rightarrow> check_result list" where
  "bythos_check_bios_cntl e max_results = (if max_results = 0 then [] else [bios_cntl_row e])"

lemma wf_bios_cntl_row [row_simps]: "wf_row (bios_cntl_row e)"
  by (simp add: bios_cntl_row_def bios_cntl_value_row_def Let_def split: option.split fd_answer.split)

interpretation bios_cntl: check_fn bythos_check_bios_cntl bios_cntl_rows 1
  by (rule check_fn_single [where r = bios_cntl_row])
    (simp_all add: bythos_check_bios_cntl_def bios_cntl_rows_def row_simps)

end
