(* ===== verification/FirmwareParsers.thy ===== *)
theory FirmwareParsers
  imports Runtime
begin

text \<open>
  The text parsers of \<open>src/firmware_parsers.c\<close>: line counts and name lists, \<open>mokutil\<close> and
  \<open>fwupdmgr\<close> answers, \<open>sbctl status\<close> and the SBAT level variable. Out buffers that start out
  empty are results; a \<open>bool\<close> result with an out buffer is an option.
\<close>

section \<open>Types\<close>

datatype secure_boot_status = SECURE_BOOT_UNKNOWN | SECURE_BOOT_ENABLED | SECURE_BOOT_DISABLED

datatype fwupd_updates_status = FWUPD_UPDATES_UNKNOWN | FWUPD_UPDATES_NONE | FWUPD_UPDATES_AVAILABLE

record sbctl_status =
  installed_known :: bool
  installed :: bool
  setup_mode_known :: bool
  setup_mode_enabled :: bool
  secure_boot_known :: bool
  secure_boot_enabled :: bool
  owner_guid_present :: bool
  owner_guid :: string
  vendor_keys_present :: bool
  vendor_keys :: string

section \<open>Labels and lines\<close>

definition skip_label_value :: "string \<Rightarrow> string option" where
  "skip_label_value text =
     (case strchr text (CHR '':'') of None \<Rightarrow> None
      | Some sep \<Rightarrow> (let v = dropWhile c_isspace (tl sep) in if v = [] then None else Some v))"

definition trim_trailing :: "string \<Rightarrow> string" where
  "trim_trailing text = rev (dropWhile c_isspace (rev text))"

fun count_lines_loop :: "nat \<Rightarrow> bool \<Rightarrow> string \<Rightarrow> nat" where
  "count_lines_loop count in_line [] = (if in_line then count + 1 else count)"
| "count_lines_loop count in_line (c # cs) =
     (if c = LF \<or> c = CR then
        (if in_line then count_lines_loop (count + 1) False cs else count_lines_loop count in_line cs)
      else if c \<noteq> SP \<and> c \<noteq> TAB then count_lines_loop count True cs
      else count_lines_loop count in_line cs)"

definition bythos_count_nonempty_lines :: "cptr \<Rightarrow> nat" where
  "bythos_count_nonempty_lines text = (case text of None \<Rightarrow> 0 | Some t \<Rightarrow> count_lines_loop 0 False t)"

section \<open>Joining short list names\<close>

definition BYTHOS_JOIN_TRACK_MAX :: nat where "BYTHOS_JOIN_TRACK_MAX = 16"
definition BYTHOS_JOIN_TRACK_NAME :: nat where "BYTHOS_JOIN_TRACK_NAME = 64"
definition BYTHOS_JOIN_HASH_CHARS :: nat where "BYTHOS_JOIN_HASH_CHARS = 8"

text \<open>The hash and the name of a line \<open><hash> <name>\<close>, when both are there.\<close>

definition short_list_fields :: "string \<Rightarrow> (string \<times> string) option" where
  "short_list_fields line =
     (let p = dropWhile is_blank line;
          hash = takeWhile (\<lambda>c. \<not> is_blank c) p;
          name = dropWhile is_blank (dropWhile (\<lambda>c. \<not> is_blank c) p);
          name = rev (dropWhile (\<lambda>c. is_blank c \<or> c = CR) (rev name))
      in if p = [] \<or> hash = p \<or> name = [] then None else Some (hash, name))"

text \<open>The loop's state: the tracked names, how many lines named something, the buffer.\<close>

record join_state =
  j_emitted :: "string list"
  j_total :: nat
  j_buf :: string

definition join_suffix :: "string list \<Rightarrow> string \<Rightarrow> string \<Rightarrow> string" where
  "join_suffix emitted tracked hash =
     (if tracked \<in> set emitted \<and> hash \<noteq> []
      then '' ['' @ prec_s BYTHOS_JOIN_HASH_CHARS hash @ '']'' else [])"

definition join_step :: "nat \<Rightarrow> nat \<Rightarrow> nat \<Rightarrow> join_state \<Rightarrow> string \<Rightarrow> join_state" where
  "join_step emit_limit max_names max_name_chars st line =
     (case short_list_fields line of None \<Rightarrow> st
      | Some (hash, name) \<Rightarrow>
          (let st = st\<lparr>j_total := j_total st + 1\<rparr>;
               copy = take max_name_chars name;
               tracked = take BYTHOS_JOIN_TRACK_NAME copy;
               suffix = join_suffix (j_emitted st) tracked hash;
               sep = (if j_emitted st \<noteq> [] then '', '' else [])
           in if length (j_emitted st) < max_names \<and>
                 length (j_buf st) + length sep + length copy + length suffix + 1 < emit_limit
              then st\<lparr>j_buf := j_buf st @ sep @ copy @ suffix, j_emitted := j_emitted st @ [tracked]\<rparr>
              else st))"

definition join_tail :: "join_state \<Rightarrow> string" where
  "join_tail st =
     (if j_emitted st \<noteq> []
      then '' (and '' @ dec_nat (j_total st - length (j_emitted st)) @ '' more)''
      else dec_nat (j_total st) @ '' '' @ bythos_pl (j_total st) ''item'' ''items'' @ '', none fit'')"

text \<open>Returns (names seen, buffer).\<close>

definition bythos_join_short_list_names :: "cptr \<Rightarrow> nat \<Rightarrow> nat \<Rightarrow> nat \<Rightarrow> nat \<times> string" where
  "bythos_join_short_list_names text sz max_names max_name_chars =
     (case text of None \<Rightarrow> (0, [])
      | Some t \<Rightarrow>
        if sz = 0 \<or> max_names = 0 \<or> max_name_chars = 0 \<or> sz \<le> 32 then (0, [])
        else
          (let st = foldl (join_step (sz - 32) (min max_names BYTHOS_JOIN_TRACK_MAX) max_name_chars)
                      \<lparr>j_emitted = [], j_total = 0, j_buf = []\<rparr> (c_lines True t);
               tail = join_tail st
           in if length (j_emitted st) < j_total st \<and> length tail < 48 \<and>
                 length (j_buf st) + length tail + 1 < sz
              then (j_total st, j_buf st @ tail) else (j_total st, j_buf st)))"

definition bythos_extract_short_list_name :: "cptr \<Rightarrow> nat \<Rightarrow> string option" where
  "bythos_extract_short_list_name text sz =
     (case text of None \<Rightarrow> None
      | Some t \<Rightarrow>
        if sz = 0 then None
        else
          (let line = take 511 (takeWhile (\<lambda>c. \<not> is_eol c) t)
           in if line = [] then None
              else case strchr line SP of None \<Rightarrow> None
                | Some name \<Rightarrow>
                    (let name = dropWhile (\<lambda>c. c = SP) name
                     in if name = [] then None else Some (snprintf_s sz name))))"

section \<open>Answers of mokutil and fwupdmgr\<close>

definition bythos_parse_secure_boot_state :: "cptr \<Rightarrow> secure_boot_status" where
  "bythos_parse_secure_boot_state text =
     (case text of None \<Rightarrow> SECURE_BOOT_UNKNOWN
      | Some t \<Rightarrow> if has_sub t ''enabled'' then SECURE_BOOT_ENABLED
                  else if has_sub t ''disabled'' then SECURE_BOOT_DISABLED else SECURE_BOOT_UNKNOWN)"

definition bythos_secure_boot_setup_mode :: "cptr \<Rightarrow> bool" where
  "bythos_secure_boot_setup_mode text = (case text of None \<Rightarrow> False | Some t \<Rightarrow> has_sub t ''Setup Mode'')"

definition bythos_secure_boot_validation_disabled :: "cptr \<Rightarrow> bool" where
  "bythos_secure_boot_validation_disabled text =
     (case text of None \<Rightarrow> False | Some t \<Rightarrow> has_sub t ''validation is disabled'')"

definition bythos_parse_fwupd_updates :: "cptr \<Rightarrow> int \<Rightarrow> fwupd_updates_status" where
  "bythos_parse_fwupd_updates text exit_status =
     (case text of None \<Rightarrow> FWUPD_UPDATES_UNKNOWN
      | Some t \<Rightarrow> if has_sub t ''No updates available'' then FWUPD_UPDATES_NONE
                  else if exit_status = 0 then FWUPD_UPDATES_AVAILABLE else FWUPD_UPDATES_UNKNOWN)"

definition bythos_sbat_entries_present :: "cptr \<Rightarrow> bool" where
  "bythos_sbat_entries_present text =
     (case text of None \<Rightarrow> False
      | Some t \<Rightarrow> if dropWhile (\<lambda>c. is_blank c \<or> is_eol c) t = [] then False
                  else if has_sub t ''No SBAT'' then False else True)"

definition bythos_sb_has_ms_ca :: "cptr \<Rightarrow> bool" where
  "bythos_sb_has_ms_ca text =
     (case text of None \<Rightarrow> False
      | Some t \<Rightarrow> has_sub t ''Microsoft Corporation UEFI CA'' \<or> has_sub t ''Microsoft UEFI CA'')"

section \<open>sbctl status\<close>

definition sbctl_zero :: sbctl_status where
  "sbctl_zero = \<lparr>installed_known = False, installed = False, setup_mode_known = False,
     setup_mode_enabled = False, secure_boot_known = False, secure_boot_enabled = False,
     owner_guid_present = False, owner_guid = [], vendor_keys_present = False, vendor_keys = []\<rparr>"

definition sbctl_step :: "sbctl_status \<Rightarrow> string \<Rightarrow> sbctl_status" where
  "sbctl_step status raw =
     (let line = trim_trailing (take 255 raw)
      in case skip_label_value line of None \<Rightarrow> status
        | Some value \<Rightarrow>
          if starts_with line ''Installed:'' then
            (let status = status\<lparr>installed_known := True\<rparr>
             in if has_sub value ''not installed'' then status\<lparr>installed := False\<rparr>
                else if has_sub value ''installed'' then status\<lparr>installed := True\<rparr>
                else status\<lparr>installed_known := False\<rparr>)
          else if starts_with line ''Setup Mode:'' then
            (let status = status\<lparr>setup_mode_known := True\<rparr>
             in if has_sub value ''Enabled'' then status\<lparr>setup_mode_enabled := True\<rparr>
                else if has_sub value ''Disabled'' then status\<lparr>setup_mode_enabled := False\<rparr>
                else status\<lparr>setup_mode_known := False\<rparr>)
          else if starts_with line ''Secure Boot:'' then
            (let status = status\<lparr>secure_boot_known := True\<rparr>
             in if has_sub value ''Enabled'' then status\<lparr>secure_boot_enabled := True\<rparr>
                else if has_sub value ''Disabled'' then status\<lparr>secure_boot_enabled := False\<rparr>
                else status\<lparr>secure_boot_known := False\<rparr>)
          else if starts_with line ''Owner GUID:'' then
            (let guid = trim_trailing (snprintf_s 64 value)
             in status\<lparr>owner_guid := guid, owner_guid_present := guid \<noteq> []\<rparr>)
          else if starts_with line ''Vendor Keys:'' then
            (let keys = trim_trailing (snprintf_s 64 value)
             in status\<lparr>vendor_keys := keys, vendor_keys_present := keys \<noteq> []\<rparr>)
          else status)"

text \<open>The pair is (returned value, \<open>*status\<close>).\<close>

definition bythos_parse_sbctl_status :: "cptr \<Rightarrow> bool \<times> sbctl_status" where
  "bythos_parse_sbctl_status text =
     (case text of None \<Rightarrow> (False, sbctl_zero)
      | Some t \<Rightarrow>
          (let status = foldl sbctl_step sbctl_zero (c_lines True t)
           in (installed_known status \<or> setup_mode_known status \<or> secure_boot_known status \<or>
               owner_guid_present status, status)))"

section \<open>The SBAT level variable\<close>

definition bythos_parse_sbat_level :: "bytes \<Rightarrow> nat \<Rightarrow> string option" where
  "bythos_parse_sbat_level buf out_size =
     (if out_size = 0 \<or> length buf \<le> 4 then None
      else
        (let line = takeWhile (\<lambda>c. c \<noteq> LF \<and> c \<noteq> CR \<and> c \<noteq> NUL) (drop 4 buf)
         in if line = [] then None else Some (take (out_size - 1) line)))"

end
