(* ===== verification/ChecksTpm.thy ===== *)
theory ChecksTpm
  imports SiliconParsers FirmwareParsers
begin

text \<open>The checks of \<open>check_tpm.c\<close> and \<open>check_sbctl.c\<close>.\<close>

section \<open>The lockout counter\<close>

text \<open>
  Pointers are suffixes: \<open>cursor\<close> is the text after the property's name, \<open>end\<close> the next property
  (or the end of the text), and a match counts only when it starts before \<open>end\<close>.
\<close>

definition auth_fail_value :: "string \<Rightarrow> string \<Rightarrow> nat option" where
  "auth_fail_value cursor end_ptr =
     (case strstr cursor ''value:'' of None \<Rightarrow> None
      | Some value_kw \<Rightarrow>
          if length end_ptr < length value_kw then
            (let p = dropWhile is_blank (drop (length ''value:'') value_kw)
             in if p \<noteq> [] \<and> c_isdigit (hd p) then
                  (let (v, endptr) = strtoul 10 p in if endptr \<noteq> p then Some v else None)
                else None)
          else None)"

definition auth_fail_hex :: "string \<Rightarrow> string \<Rightarrow> nat option" where
  "auth_fail_hex cursor end_ptr =
     (case strstr cursor ''0x'' of None \<Rightarrow> None
      | Some hex \<Rightarrow>
          if length end_ptr < length hex then
            (let (v, endptr) = strtoul 16 hex in if endptr \<noteq> hex then Some v else None)
          else None)"

definition parse_max_auth_fail :: "string \<Rightarrow> nat option" where
  "parse_max_auth_fail text =
     (case strstr text ''TPM2_PT_MAX_AUTH_FAIL'' of None \<Rightarrow> None
      | Some key \<Rightarrow>
          (let cursor = drop (length ''TPM2_PT_MAX_AUTH_FAIL'') key;
               search_from = (if cursor \<noteq> [] then tl cursor else cursor);
               end_ptr = (case strstr search_from ''TPM2_PT_'' of Some p \<Rightarrow> p | None \<Rightarrow> [])
           in case auth_fail_value cursor end_ptr of Some v \<Rightarrow> Some v
              | None \<Rightarrow> auth_fail_hex cursor end_ptr))"

section \<open>The TPM rows\<close>

definition tpm_present :: "env \<Rightarrow> bool" where
  "tpm_present e = bythos_file_exists e ''/sys/class/tpm/tpm0''"

definition tpm_presence_row :: "env \<Rightarrow> check_result" where
  "tpm_presence_row e =
     (if \<not> tpm_present e then row ''TPM presence'' CHECK_WARN ''no TPM device visible''
      else case bythos_read_file_text e ''/sys/class/tpm/tpm0/tpm_version_major'' 64 of
        None \<Rightarrow> row ''TPM presence'' CHECK_WARN ''TPM device visible but version unreadable''
      | Some major \<Rightarrow>
          (let trimmed = trim_text major
           in if trimmed = ''2'' then row ''TPM presence'' CHECK_OK ''TPM 2.0 device visible''
              else if trimmed \<noteq> [] then row ''TPM presence'' CHECK_WARN
                     (snprintf_s 128 (''TPM '' @ trimmed @ ''.x device visible; expected TPM 2.0''))
              else row ''TPM presence'' CHECK_WARN ''TPM device visible but version not visible''))"

definition lockout_row :: "nat \<Rightarrow> check_result" where
  "lockout_row n =
     (if n = 0 then row ''DA lockout'' CHECK_WARN ''maxAuthFail=0; lockout disabled or misconfigured''
      else if n \<le> 32 then row ''DA lockout'' CHECK_OK
        (snprintf_s 256 (''maxAuthFail='' @ dec_nat n @ ''; strict policy''))
      else if n \<le> 255 then row ''DA lockout'' CHECK_OK
        (snprintf_s 256 (''maxAuthFail='' @ dec_nat n @ ''; moderate policy''))
      else if n < 1000 then row ''DA lockout'' CHECK_WARN
        (snprintf_s 256 (''maxAuthFail='' @ dec_nat n @ ''; loose policy''))
      else row ''DA lockout'' CHECK_WARN
        (snprintf_s 256 (''maxAuthFail='' @ dec_nat n @ ''; very loose policy (PIN brute-force risk)'')))"

definition da_lockout_row :: "env \<Rightarrow> check_result" where
  "da_lockout_row e =
     (if \<not> tpm_present e then row_skip_hw ''DA lockout'' ''TPM''
      else if \<not> bythos_command_exists e ''tpm2_getcap''
      then row_skip_tool_or_untrusted e ''DA lockout'' ''tpm2_getcap'' ''tpm2-tools''
      else
        (let c = bythos_capture_argv_status e [''tpm2_getcap'', ''properties-variable''] 4096
         in if \<not> cap_success c then row_skip_exec_root ''DA lockout'' ''tpm2_getcap''
            else case parse_max_auth_fail (cap_text c) of
              None \<Rightarrow> row_skip_parse ''DA lockout'' ''tpm2_getcap''
            | Some n \<Rightarrow> lockout_row n))"

text \<open>The PCR 7 and PCR 0 blocks are the same code over their names, argument and details.\<close>

definition pcr_row_of :: "env \<Rightarrow> string \<Rightarrow> string \<Rightarrow> nat \<Rightarrow> string \<Rightarrow> string \<Rightarrow> check_result" where
  "pcr_row_of e name arg pcr zero_detail ok_detail =
     (if \<not> tpm_present e then row_skip_hw name ''TPM''
      else if \<not> bythos_command_exists e ''tpm2_pcrread''
      then row_skip_tool_or_untrusted e name ''tpm2_pcrread'' ''tpm2-tools''
      else
        (let c = bythos_capture_argv_status e [''tpm2_pcrread'', arg] 512
         in if \<not> cap_success c then row_skip_exec_root name ''tpm2_pcrread''
            else
              (let z = bythos_pcr_zero_check (Some (cap_text c)) pcr
               in if z < 0 then row_skip_field name ''PCR'' ''tpm2_pcrread''
                  else if z = 1 then row name CHECK_WARN zero_detail
                  else row name CHECK_OK ok_detail)))"

definition pcr7_row :: "env \<Rightarrow> check_result" where
  "pcr7_row e = pcr_row_of e ''TPM PCR 7'' ''sha256:7'' 7
     ''empty; Secure Boot state not measured into TPM'' ''non-zero; Secure Boot state measured''"

definition pcr0_row :: "env \<Rightarrow> check_result" where
  "pcr0_row e = pcr_row_of e ''TPM PCR 0'' ''sha256:0'' 0
     ''zero; firmware not measured at boot'' ''non-zero; firmware measured at boot''"

definition event_log_ascii_row :: "env \<Rightarrow> check_result" where
  "event_log_ascii_row e =
     (case env_file e ''/sys/kernel/security/tpm0/ascii_bios_measurements'' of
        OpenFails \<Rightarrow> row_skip ''TPM event log ASCII'' SKIP_FEATURE_ABSENT ''kernel parser unavailable''
      | Opened data err \<Rightarrow>
          if list_ex (\<lambda>line. has_sub line ''S-CRTM Version'') (fgets_lines 512 (Opened data err))
          then row ''TPM event log ASCII'' CHECK_OK ''S-CRTM Version event present''
          else row ''TPM event log ASCII'' CHECK_WARN ''S-CRTM Version event absent'')"

definition event_log_rows :: "env \<Rightarrow> check_result list" where
  "event_log_rows e =
     (if \<not> tpm_present e then [row_skip_hw ''TPM event log'' ''TPM'', row_skip_hw ''TPM event log ASCII'' ''TPM'']
      else if \<not> bythos_file_exists e ''/sys/kernel/security/tpm0/binary_bios_measurements''
      then [row_skip ''TPM event log'' SKIP_FEATURE_ABSENT ''not exposed by firmware'',
            row_skip ''TPM event log ASCII'' SKIP_FEATURE_ABSENT ''binary log absent'']
      else [row ''TPM event log'' CHECK_OK ''binary log present'', event_log_ascii_row e])"

definition tpm_rows :: "env \<Rightarrow> check_result list" where
  "tpm_rows e = [tpm_presence_row e, da_lockout_row e, pcr7_row e, pcr0_row e] @ event_log_rows e"

definition bythos_check_tpm :: "env \<Rightarrow> nat \<Rightarrow> check_result list" where
  "bythos_check_tpm e max_results = emit_all max_results [] (tpm_rows e)"

lemma wf_lockout_row: "wf_row (lockout_row n)"
  by (simp add: lockout_row_def)

lemma wf_tpm_rows [row_simps]:
  "wf_row (tpm_presence_row e)" "wf_row (da_lockout_row e)" "wf_row (pcr_row_of e n a k z d)"
  "wf_row (event_log_ascii_row e)" "list_all wf_row (event_log_rows e)" "length (event_log_rows e) = 2"
  by (simp_all add: tpm_presence_row_def da_lockout_row_def wf_lockout_row pcr_row_of_def
      event_log_ascii_row_def event_log_rows_def Let_def split: option.split file_data.split)

interpretation tpm: check_fn bythos_check_tpm tpm_rows 6
  by (rule check_fn_emit) (simp_all add: bythos_check_tpm_def tpm_rows_def pcr7_row_def pcr0_row_def row_simps)

section \<open>sbctl\<close>

definition sbctl_row :: "env \<Rightarrow> check_result" where
  "sbctl_row e =
     (let c = bythos_capture_argv_status e [''sbctl'', ''status''] 2048;
          (ok, st) = bythos_parse_sbctl_status (Some (cap_text c))
      in if \<not> bythos_command_exists e ''sbctl''
         then row_skip_tool_or_untrusted e ''Secure Boot key management'' ''sbctl'' ''sbctl''
         else if \<not> cap_ok c then row_skip_probe ''Secure Boot key management'' ''sbctl''
         else if \<not> cap_success c
         then row_skip ''Secure Boot key management'' SKIP_NOT_CONFIGURED
                ''sbctl not configured; platform keys still in use''
         else if \<not> ok then row_skip_probe ''Secure Boot key management'' ''sbctl''
         else if \<not> installed_known st then row_skip_probe ''Secure Boot key management'' ''sbctl''
         else if \<not> installed st
         then row_skip ''Secure Boot key management'' SKIP_NOT_CONFIGURED
                ''sbctl not configured; platform keys still in use''
         else if \<not> owner_guid_present st
         then row_skip_field ''Secure Boot key management'' ''GUID'' ''sbctl''
         else row ''Secure Boot key management'' CHECK_OK
           (if vendor_keys_present st
            then snprintf_s 192 (''initialized; owner GUID present; vendor keys '' @ prec_s 64 (vendor_keys st))
            else ''initialized; owner GUID present''))"

definition sbctl_rows :: "env \<Rightarrow> check_result list" where "sbctl_rows e = [sbctl_row e]"

definition bythos_check_sbctl :: "env \<Rightarrow> nat \<Rightarrow> check_result list" where
  "bythos_check_sbctl e max_results = emit_all max_results [] (sbctl_rows e)"

lemma wf_sbctl_row [row_simps]: "wf_row (sbctl_row e)"
  by (simp add: sbctl_row_def Let_def split: prod.split)

interpretation sbctl: check_fn bythos_check_sbctl sbctl_rows 1
  by (rule check_fn_emit) (simp_all add: bythos_check_sbctl_def sbctl_rows_def row_simps)

end
