(* ===== verification/StorageParsers.thy ===== *)
theory StorageParsers
  imports Runtime
begin

text \<open>
  The parsers of \<open>src/storage_parsers.c\<close>: the \<open>lsblk\<close> posture and the \<open>cryptsetup luksDump\<close>
  report (version, integrity, PCR masks of systemd-tpm2 tokens).
\<close>

record lsblk_posture =
  luks_count :: nat
  crypt_count :: nat
  crypt_swap_count :: nat

definition lsblk_step :: "lsblk_posture \<Rightarrow> string \<Rightarrow> lsblk_posture" where
  "lsblk_step posture raw =
     (let line = take 511 raw;
          is_luks = has_sub line (''FSTYPE='' @ [DQ] @ ''crypto_LUKS'' @ [DQ]);
          is_crypt = has_sub line (''TYPE='' @ [DQ] @ ''crypt'' @ [DQ]);
          is_swap = has_sub line (''FSTYPE='' @ [DQ] @ ''swap'' @ [DQ]);
          posture = (if is_luks then posture\<lparr>luks_count := luks_count posture + 1\<rparr> else posture)
      in if is_crypt then
           (let posture = posture\<lparr>crypt_count := crypt_count posture + 1\<rparr>
            in if is_swap then posture\<lparr>crypt_swap_count := crypt_swap_count posture + 1\<rparr> else posture)
         else posture)"

definition bythos_parse_lsblk_posture :: "cptr \<Rightarrow> lsblk_posture" where
  "bythos_parse_lsblk_posture text =
     (let zero = \<lparr>luks_count = 0, crypt_count = 0, crypt_swap_count = 0\<rparr>
      in case text of None \<Rightarrow> zero | Some t \<Rightarrow> foldl lsblk_step zero (c_lines True t))"

definition bythos_parse_luks_version :: "cptr \<Rightarrow> nat" where
  "bythos_parse_luks_version text =
     (case text of None \<Rightarrow> 0
      | Some t \<Rightarrow> (case strstr t ''Version:'' of None \<Rightarrow> 0
          | Some key \<Rightarrow>
              (let p = dropWhile is_blank (drop (length ''Version:'') key)
               in if p \<noteq> [] \<and> hd p = CHR ''1'' then 1 else if p \<noteq> [] \<and> hd p = CHR ''2'' then 2 else 0)))"

definition bythos_parse_luks_integrity :: "cptr \<Rightarrow> bool" where
  "bythos_parse_luks_integrity text = (case text of None \<Rightarrow> False | Some t \<Rightarrow> has_sub t ''integrity:'')"

section \<open>PCR masks\<close>

definition BYTHOS_LUKS_PCR_WINDOW_BYTES :: nat where "BYTHOS_LUKS_PCR_WINDOW_BYTES = 512"

text \<open>
  The digits of one run, only the first three of which are accumulated, and the scan of a value
  for such runs. The state is the bits and whether a PCR was found.
\<close>

definition run_value :: "string \<Rightarrow> nat" where
  "run_value digits = num_val 10 digit_val (take 3 digits)"

lemma digit_run_shrinks: "q \<noteq> [] \<Longrightarrow> c_isdigit (hd q) \<Longrightarrow> length (dropWhile c_isdigit q) < length q"
  by (cases q) (auto simp: less_Suc_eq_le length_dropWhile_le)

function scan_runs :: "string \<Rightarrow> u32 \<times> bool \<Rightarrow> u32 \<times> bool" where
  "scan_runs q st =
     (if q = [] then st
      else if c_isdigit (hd q) then
        (let n = run_value (takeWhile c_isdigit q); (bits, found) = st
         in scan_runs (dropWhile c_isdigit q)
              (if n < 32 then (bits OR push_bit n 1, True) else (bits, found)))
      else scan_runs (tl q) st)"
  by pat_completeness auto
termination
  by (relation "measure (\<lambda>(q, st). length q)") (auto simp: digit_run_shrinks)

declare scan_runs.simps [simp del]

text \<open>One line: the first \<open>pcrs\<close> not followed by a dash, the colon after it, the numbers after that.\<close>

fun pcrs_key :: "string \<Rightarrow> string option" where
  "pcrs_key [] = None"
| "pcrs_key (c # cs) =
     (if prefix ''pcrs'' (c # cs) \<and> (length (c # cs) = 4 \<or> (c # cs) ! 4 \<noteq> CHR ''-'')
      then Some (drop 4 (c # cs)) else pcrs_key cs)"

definition pcr_mask_of_line :: "string \<Rightarrow> u32 option" where
  "pcr_mask_of_line line =
     (case pcrs_key line of None \<Rightarrow> None
      | Some key \<Rightarrow> (case strchr key (CHR '':'') of None \<Rightarrow> None
          | Some colon \<Rightarrow> (let (bits, found) = scan_runs (tl colon) (0, False)
                           in if found then Some bits else None)))"

lemma drop1_shrinks: "s \<noteq> [] \<Longrightarrow> length (drop 1 (dropWhile P s)) < length s"
  using length_dropWhile_le [of P s] by (cases s) (auto simp: less_Suc_eq_le intro: le_trans [OF diff_le_self])

function luks_window :: "bool \<Rightarrow> string \<Rightarrow> u32 option" where
  "luks_window pubkey_line w =
     (if w = [] then None
      else let line = takeWhile (\<lambda>c. \<not> is_eol c) w
           in case (if has_sub line ''pubkey'' = pubkey_line then pcr_mask_of_line line else None) of
                Some bits \<Rightarrow> Some bits
              | None \<Rightarrow> luks_window pubkey_line (drop 1 (dropWhile (\<lambda>c. \<not> is_eol c) w)))"
  by pat_completeness auto
termination
proof (relation "measure (\<lambda>(b, w). length w)")
  fix b :: bool and w line :: string
  assume "w \<noteq> []"
  then show "((b, drop 1 (dropWhile (\<lambda>c. \<not> is_eol c) w)), (b, w)) \<in> measure (\<lambda>(b, w). length w)"
    using drop1_shrinks by simp
qed simp

declare luks_window.simps [simp del]

text \<open>None is the C function's false (with \<open>*mask_out\<close> zero), Some is true with the mask.\<close>

definition luks_scan_pcrs :: "string \<Rightarrow> bool \<Rightarrow> u32 option" where
  "luks_scan_pcrs text pubkey_line =
     (case strstr text ''systemd-tpm2'' of None \<Rightarrow> None
      | Some pos \<Rightarrow> luks_window pubkey_line (take BYTHOS_LUKS_PCR_WINDOW_BYTES pos))"

definition bythos_parse_luks_pcr_mask :: "cptr \<Rightarrow> u32 option" where
  "bythos_parse_luks_pcr_mask text = (case text of None \<Rightarrow> None | Some t \<Rightarrow> luks_scan_pcrs t False)"

definition bythos_luks_signed_policy_pcr_mask :: "cptr \<Rightarrow> u32 option" where
  "bythos_luks_signed_policy_pcr_mask text = (case text of None \<Rightarrow> None | Some t \<Rightarrow> luks_scan_pcrs t True)"

end
