(* ===== verification/BoundedAppend.thy ===== *)
theory BoundedAppend
  imports CheckTypes
begin

text \<open>
  Details are composed in fixed buffers by appends that add a piece whole or not at all
  (\<open>append_clause\<close> of \<open>check_luks.c\<close>, \<open>append_entry_id\<close> and \<open>append_unclassified_entry\<close> of
  \<open>check_bios_boot.c\<close>). The locale states that contract once: an append either leaves the text
  alone or adds its piece with the separator the text asks for, and never outgrows the buffer.
  The clients' loops are folds of such an append.
\<close>

locale whole_append =
  fixes app :: "nat \<Rightarrow> string \<Rightarrow> 'a \<Rightarrow> string"
    and piece :: "string \<Rightarrow> 'a \<Rightarrow> string"
  assumes app_whole: "app sz s x = s \<or> app sz s x = s @ piece s x"
    and app_fits: "length s < sz \<Longrightarrow> length (app sz s x) < sz"
    and app_room: "length (s @ piece s x) < sz \<Longrightarrow> app sz s x = s @ piece s x"
begin

lemma app_prefix: "prefix s (app sz s x)"
  using app_whole [of sz s x] by auto

lemma fold_fits: "length s < sz \<Longrightarrow> length (foldl (app sz) s xs) < sz"
  by (induction xs arbitrary: s) (auto intro: app_fits)

lemma fold_prefix: "prefix s (foldl (app sz) s xs)"
proof (induction xs arbitrary: s)
  case (Cons x xs)
  then show ?case using app_prefix [of s sz x] by (auto intro: prefix_order.trans)
qed simp

text \<open>When every piece fits, every piece is there.\<close>

fun all_pieces :: "string \<Rightarrow> 'a list \<Rightarrow> string" where
  "all_pieces s [] = s"
| "all_pieces s (x # xs) = all_pieces (s @ piece s x) xs"

lemma all_pieces_grows: "length s \<le> length (all_pieces s xs)"
proof (induction s xs rule: all_pieces.induct)
  case (2 s x xs)
  then show ?case by simp
qed simp

lemma fold_complete: "length (all_pieces s xs) < sz \<Longrightarrow> foldl (app sz) s xs = all_pieces s xs"
proof (induction xs arbitrary: s)
  case (Cons x xs)
  then have "length (s @ piece s x) < sz"
    using all_pieces_grows [of "s @ piece s x" xs] by simp
  then show ?case using Cons by (simp add: app_room)
qed simp

end

end
