(* ===== verification/LuksCheck.thy ===== *)
theory LuksCheck
  imports StorageParsers Process BoundedAppend
begin

text \<open>The check of disk encryption, \<open>check_luks.c\<close>.\<close>

section \<open>PCR masks as text\<close>

definition PCR_BIT :: "nat \<Rightarrow> u32" where "PCR_BIT n = push_bit n 1"

text \<open>The loop over \<open>i\<close> with \<open>n\<close> iterations left; the output so far is \<open>out\<close>, \<open>pos\<close> its length.\<close>

fun pcr_mask_loop :: "u32 \<Rightarrow> nat \<Rightarrow> nat \<Rightarrow> nat \<Rightarrow> string \<Rightarrow> string" where
  "pcr_mask_loop bits sz i 0 out = out"
| "pcr_mask_loop bits sz i (Suc n) out =
     (if \<not> length out + 6 < sz then out
      else if bits AND PCR_BIT i \<noteq> 0
      then pcr_mask_loop bits sz (i + 1) n (out @ (if out = [] then [] else [SP]) @ dec_nat i)
      else pcr_mask_loop bits sz (i + 1) n out)"

definition pcr_mask_to_str :: "u32 \<Rightarrow> nat \<Rightarrow> string" where
  "pcr_mask_to_str bits sz = pcr_mask_loop bits sz 0 32 []"

definition PCR_UPDATE_KINDS :: "(nat \<times> string) list" where
  "PCR_UPDATE_KINDS = [(0, ''firmware''), (4, ''bootloader''), (7, ''Secure Boot key''),
     (9, ''kernel/initramfs''), (11, ''UKI'')]"

section \<open>Unlock consequences\<close>

text \<open>The pair is (the detail afterwards, the returned value).\<close>

definition append_clause :: "string \<Rightarrow> nat \<Rightarrow> string \<Rightarrow> string \<times> bool" where
  "append_clause detail sz clause =
     (if length detail \<ge> sz then (detail, False)
      else let t = ''; '' @ clause
      in if length t \<ge> sz - length detail then (detail, False) else (detail @ t, True))"

definition clause_app :: "nat \<Rightarrow> string \<Rightarrow> string \<Rightarrow> string" where
  "clause_app sz detail clause = fst (append_clause detail sz clause)"

interpretation clause: whole_append clause_app "\<lambda>s c. ''; '' @ c"
  by unfold_locales (auto simp: clause_app_def append_clause_def Let_def)

definition pcr_known :: "u32 \<Rightarrow> u32" where
  "pcr_known bits = foldl (\<lambda>known (pcr, update). if bits AND PCR_BIT pcr \<noteq> 0 then known OR PCR_BIT pcr else known)
     0 PCR_UPDATE_KINDS"

definition pcr_updates :: "u32 \<Rightarrow> string list" where
  "pcr_updates bits = map snd (filter (\<lambda>(pcr, update). bits AND PCR_BIT pcr \<noteq> 0) PCR_UPDATE_KINDS)"

text \<open>The list of update names: \<open>i\<close> is the index, None when a piece does not fit.\<close>

fun update_list :: "nat \<Rightarrow> nat \<Rightarrow> string \<Rightarrow> string list \<Rightarrow> string option" where
  "update_list n i out [] = Some out"
| "update_list n i out (name # names) =
     (let sep = (if i = 0 then [] else if i + 1 < n then '', '' else if n = 2 then '' or '' else '', or '');
          t = sep @ name
      in if length t \<ge> 128 - length out then None else update_list n (i + 1) (out @ t) names)"

definition append_unlock_consequences :: "string \<Rightarrow> nat \<Rightarrow> u32 \<Rightarrow> bool \<Rightarrow> string" where
  "append_unlock_consequences detail sz bits signed_policy =
     (let qualifier = (if signed_policy then '' without a fresh signed policy'' else []);
          names = pcr_updates bits
      in if names = [] then fst (append_clause detail sz ''no bound PCR has a known update consequence'')
         else
           (let fallback = fst (append_clause detail sz
                  (snprintf_s 256 (''any change to a bound PCR breaks unlock'' @ qualifier)))
            in case update_list (length names) 0 [] names of
              None \<Rightarrow> fallback
            | Some names_text \<Rightarrow>
                (let clause = ''unlock breaks on '' @ names_text @ '' update'' @ qualifier @
                       (if bits AND NOT (pcr_known bits) \<noteq> 0
                        then ''; consequence of other bound PCRs unknown'' else [])
                 in if length clause < 256 \<and> snd (append_clause detail sz clause)
                    then fst (append_clause detail sz clause) else fallback)))"

section \<open>Volumes\<close>

definition luks_devices_row :: "env \<Rightarrow> check_result" where
  "luks_devices_row e =
     (let c = bythos_capture_argv_status_ex e [''lsblk'', ''-P'', ''-o'', ''NAME,TYPE,FSTYPE''] 8192
      in if \<not> bythos_command_exists e ''lsblk''
         then row_skip_tool_or_untrusted e ''LUKS block devices'' ''lsblk'' ''util-linux''
         else if \<not> cap_success c then row_skip_exec ''LUKS block devices'' ''lsblk''
         else if cap_truncated c
         then row_skip ''LUKS block devices'' SKIP_OUTPUT_UNPARSEABLE ''lsblk output truncated''
         else
           (let p = bythos_parse_lsblk_posture (Some (cap_text c))
            in if luks_count p > 0 then row ''LUKS block devices'' CHECK_OK
                 (snprintf_s 224 (dec_nat (luks_count p) @ '' LUKS-encrypted '' @
                    bythos_pl (luks_count p) ''volume'' ''volumes'' @ '' visible''))
               else if crypt_count p > 0 \<and> crypt_count p = crypt_swap_count p
               then row ''LUKS block devices'' CHECK_WARN
                 (snprintf_s 224 (dec_nat (crypt_swap_count p) @ '' encrypted swap '' @
                    bythos_pl (crypt_swap_count p) ''device'' ''devices'' @
                    '' visible; no LUKS-encrypted persistent volumes detected''))
               else if crypt_count p > 0
               then row ''LUKS block devices'' CHECK_WARN
                 (snprintf_s 224 (dec_nat (crypt_count p) @ '' encrypted mapper '' @
                    bythos_pl (crypt_count p) ''device'' ''devices'' @
                    '' visible; no LUKS signature detected''))
               else row ''LUKS block devices'' CHECK_WARN ''no LUKS-encrypted volumes detected''))"

record luks_scan =
  luks_found :: nat
  luks_no_token :: nat
  luks_token_noparsed :: nat
  dump_ok :: nat
  dump_failed :: nat
  luks2_count :: nat
  luks1_count :: nat
  version_unknown_count :: nat
  integrity_count :: nat
  weakest_mask :: u32
  weakest_popcount :: nat
  signed_weakest_mask :: u32
  signed_weakest_popcount :: nat
  signed_policy_count :: nat
  clevis_count :: nat
  any_token :: bool

definition luks_scan_zero :: luks_scan where
  "luks_scan_zero = \<lparr>luks_found = 0, luks_no_token = 0, luks_token_noparsed = 0, dump_ok = 0,
     dump_failed = 0, luks2_count = 0, luks1_count = 0, version_unknown_count = 0, integrity_count = 0,
     weakest_mask = 0xFFFFFFFF, weakest_popcount = 32, signed_weakest_mask = 0xFFFFFFFF,
     signed_weakest_popcount = 32, signed_policy_count = 0, clevis_count = 0, any_token = False\<rparr>"

lemma drop_bit_less: "(w::u32) \<noteq> 0 \<Longrightarrow> unat (drop_bit (Suc 0) w) < unat w"
proof -
  assume "w \<noteq> 0"
  then have "0 < unat w" by (simp add: unat_gt_0)
  moreover have "unat (drop_bit (Suc 0) w) = unat w div 2"
    unfolding unat_drop_bit_eq unfolding drop_bit_eq_div by simp
  ultimately show ?thesis by simp
qed

function popcount_loop :: "u32 \<Rightarrow> nat \<Rightarrow> nat" where
  "popcount_loop tmp pc = (if tmp = 0 then pc else popcount_loop (drop_bit 1 tmp) (pc + unat (tmp AND 1)))"
  by pat_completeness auto
termination
  by (relation "measure (\<lambda>(w, pc). unat w)") (auto intro: drop_bit_less)

declare popcount_loop.simps [simp del]

text \<open>One dump of a device that carries a systemd-tpm2 token.\<close>

definition luks_token_step :: "string \<Rightarrow> luks_scan \<Rightarrow> luks_scan" where
  "luks_token_step dump_buf st =
     (let st = st\<lparr>any_token := True\<rparr>
      in case bythos_parse_luks_pcr_mask (Some dump_buf) of
        Some bits \<Rightarrow>
          (let pc = popcount_loop bits 0
           in if pc < weakest_popcount st then st\<lparr>weakest_popcount := pc, weakest_mask := bits\<rparr> else st)
      | None \<Rightarrow>
          (case bythos_luks_signed_policy_pcr_mask (Some dump_buf) of
             Some bits \<Rightarrow>
               (let st = st\<lparr>signed_policy_count := signed_policy_count st + 1\<rparr>; pc = popcount_loop bits 0
                in if pc < signed_weakest_popcount st
                   then st\<lparr>signed_weakest_popcount := pc, signed_weakest_mask := bits\<rparr> else st)
           | None \<Rightarrow> st\<lparr>luks_token_noparsed := luks_token_noparsed st + 1\<rparr>))"

definition luks_dump_step :: "string \<Rightarrow> luks_scan \<Rightarrow> luks_scan" where
  "luks_dump_step dump_buf st =
     (let st = st\<lparr>dump_ok := dump_ok st + 1\<rparr>;
          version = bythos_parse_luks_version (Some dump_buf);
          st = (if version = 2 then st\<lparr>luks2_count := luks2_count st + 1\<rparr>
                else if version = 1 then st\<lparr>luks1_count := luks1_count st + 1\<rparr>
                else st\<lparr>version_unknown_count := version_unknown_count st + 1\<rparr>);
          st = (if bythos_parse_luks_integrity (Some dump_buf)
                then st\<lparr>integrity_count := integrity_count st + 1\<rparr> else st)
      in if has_sub dump_buf ''systemd-tpm2'' then luks_token_step dump_buf st
         else if has_sub dump_buf ''clevis'' then st\<lparr>clevis_count := clevis_count st + 1\<rparr>
         else st\<lparr>luks_no_token := luks_no_token st + 1\<rparr>)"

text \<open>The device of a line of \<open>lsblk -P -o PATH,FSTYPE\<close>, or the empty path.\<close>

definition luks_device_path :: "string \<Rightarrow> string" where
  "luks_device_path line =
     (let r = take 511 line
      in case strstr r (''PATH='' @ [DQ]) of None \<Rightarrow> []
        | Some ps \<Rightarrow>
            if \<not> has_sub r (''FSTYPE='' @ [DQ] @ ''crypto_LUKS'' @ [DQ]) then []
            else (let ps = drop (length (''PATH='' @ [DQ])) ps
                  in case strchr ps DQ of None \<Rightarrow> []
                    | Some pe \<Rightarrow> (let d = take (length ps - length pe) ps
                                  in if d \<noteq> [] \<and> length d < 128 then d else [])))"

definition luks_line_step :: "env \<Rightarrow> luks_scan \<Rightarrow> string \<Rightarrow> luks_scan" where
  "luks_line_step e st line =
     (let device_path = luks_device_path line
      in if device_path = [] then st
         else
           (let st = st\<lparr>luks_found := luks_found st + 1\<rparr>;
                c = bythos_capture_argv_status e [''cryptsetup'', ''luksDump'', device_path] 16384
            in if cap_success c then luks_dump_step (cap_text c) st
               else st\<lparr>dump_failed := dump_failed st + 1\<rparr>))"

function nl_lines :: "string \<Rightarrow> string list" where
  "nl_lines s = (if s = [] then []
     else takeWhile (\<lambda>c. c \<noteq> LF) s # nl_lines (drop 1 (dropWhile (\<lambda>c. c \<noteq> LF) s)))"
  by pat_completeness auto
termination
proof (relation "measure length")
  fix s :: string
  assume "s \<noteq> []"
  then show "(drop 1 (dropWhile (\<lambda>c. c \<noteq> LF) s), s) \<in> measure length" using drop1_shrinks by simp
qed simp

declare nl_lines.simps [simp del]

definition luks_scan_lines :: "env \<Rightarrow> string \<Rightarrow> luks_scan" where
  "luks_scan_lines e lsblk_buf = foldl (luks_line_step e) luks_scan_zero (nl_lines lsblk_buf)"

section \<open>Rows\<close>

definition luks_version_row :: "luks_scan \<Rightarrow> check_result" where
  "luks_version_row st =
     (if dump_failed st > 0 then row_skip ''LUKS version'' SKIP_EXEC_FAILED
        (snprintf_s 256 (dec_nat (dump_failed st) @ '' of '' @ dec_nat (luks_found st) @ '' '' @
           bythos_pl (luks_found st) ''volume'' ''volumes'' @ '' unreadable by cryptsetup''))
      else if version_unknown_count st > 0 then row_skip ''LUKS version'' SKIP_OUTPUT_UNPARSEABLE
        (snprintf_s 256 (dec_nat (version_unknown_count st) @ '' '' @
           bythos_pl (version_unknown_count st) ''volume'' ''volumes'' @ '' with unparseable version''))
      else if luks1_count st > 0 then row ''LUKS version'' CHECK_WARN
        (snprintf_s 256 (dec_nat (luks1_count st) @ '' LUKS1 '' @
           bythos_pl (luks1_count st) ''volume'' ''volumes'' @ ''; legacy format, no token support''))
      else row ''LUKS version'' CHECK_OK
        (snprintf_s 256 (''all '' @ dec_nat (luks2_count st) @ '' '' @
           bythos_pl (luks2_count st) ''volume'' ''volumes'' @ '' LUKS2'')))"

definition luks_integrity_row :: "luks_scan \<Rightarrow> check_result" where
  "luks_integrity_row st =
     (if dump_failed st > 0 then row_skip ''LUKS dm-integrity'' SKIP_EXEC_FAILED
        (snprintf_s 256 (dec_nat (dump_failed st) @ '' of '' @ dec_nat (luks_found st) @ '' '' @
           bythos_pl (luks_found st) ''volume'' ''volumes'' @ '' unreadable by cryptsetup''))
      else if integrity_count st = 0 then row_skip_not_conf ''LUKS dm-integrity'' ''dm-integrity''
      else if integrity_count st = dump_ok st then row ''LUKS dm-integrity'' CHECK_OK
        (snprintf_s 256 (''enabled on all '' @ dec_nat (integrity_count st) @ '' '' @
           bythos_pl (integrity_count st) ''volume'' ''volumes''))
      else row ''LUKS dm-integrity'' CHECK_WARN
        (snprintf_s 256 (''enabled on '' @ dec_nat (integrity_count st) @ '' of '' @ dec_nat (dump_ok st) @
           '' '' @ bythos_pl (dump_ok st) ''volume'' ''volumes'')))"

definition luks_tpm_row :: "luks_scan \<Rightarrow> check_result" where
  "luks_tpm_row st =
     (if \<not> any_token st \<and> clevis_count st = 0
      then row ''LUKS TPM binding'' CHECK_WARN ''no LUKS device has TPM2 token''
      else if \<not> any_token st
      then row_skip ''LUKS TPM binding'' SKIP_PROBE_INDETERMINATE
             ''clevis token present; pin not inspectable via luksDump''
      else if dump_failed st > 0 then row ''LUKS TPM binding'' CHECK_WARN
        (snprintf_s 256 (''TPM2 token found, but '' @ dec_nat (dump_failed st) @ '' of '' @
           dec_nat (luks_found st) @ '' '' @ bythos_pl (luks_found st) ''device'' ''devices'' @ '' unreadable''))
      else if luks_no_token st > 0 \<or> clevis_count st > 0
      then row ''LUKS TPM binding'' CHECK_WARN ''at least one LUKS device without a systemd-tpm2 token''
      else row ''LUKS TPM binding'' CHECK_OK
        (snprintf_s 256 (''TPM2 token on '' @ dec_nat (luks_found st) @ '' '' @
           bythos_pl (luks_found st) ''device'' ''devices'')))"

text \<open>The two rows about the PCRs of the weakest token, with a raw hash policy.\<close>

definition raw_secure_boot_row :: "luks_scan \<Rightarrow> check_result" where
  "raw_secure_boot_row st =
     (let bits = weakest_mask st; pcr_str = pcr_mask_to_str bits 64;
          unreadable = ''PCRs: '' @ pcr_str @ ''; '' @ dec_nat (luks_token_noparsed st) @ '' '' @
            bythos_pl (luks_token_noparsed st) ''device'' ''devices'' @ '' PCR binding unreadable'';
          (sb_state, detail) =
            (if bits AND PCR_BIT 7 = 0
             then (CHECK_WARN, ''PCRs: '' @ pcr_str @ ''; PCR 7 absent, Secure Boot state unmeasured'')
             else if luks_token_noparsed st > 0 then (CHECK_WARN, unreadable)
             else (CHECK_OK, ''PCRs: '' @ pcr_str @ ''; Secure Boot state measured''))
      in row ''LUKS Secure Boot binding'' sb_state
           (append_unlock_consequences (snprintf_s 256 detail) 256 bits False))"

definition raw_boot_chain_row :: "luks_scan \<Rightarrow> check_result" where
  "raw_boot_chain_row st =
     (let bits = weakest_mask st; pcr_str = pcr_mask_to_str bits 64;
          has4 = bits AND PCR_BIT 4 \<noteq> 0; has9 = bits AND PCR_BIT 9 \<noteq> 0; has0 = bits AND PCR_BIT 0 \<noteq> 0;
          unreadable = ''PCRs: '' @ pcr_str @ ''; '' @ dec_nat (luks_token_noparsed st) @ '' '' @
            bythos_pl (luks_token_noparsed st) ''device'' ''devices'' @ '' PCR binding unreadable'';
          (chain_state, detail) =
            (if \<not> has4 \<and> \<not> has9
             then (CHECK_WARN, ''PCRs: '' @ pcr_str @ '' only; bootloader and initramfs unprotected'')
             else if \<not> has4 then (CHECK_WARN, ''PCRs: '' @ pcr_str @ ''; bootloader (PCR 4) unmeasured'')
             else if \<not> has9 then (CHECK_WARN, ''PCRs: '' @ pcr_str @ ''; initramfs unprotected'')
             else if luks_token_noparsed st > 0 then (CHECK_WARN, unreadable)
             else if has0 then (CHECK_OK, ''PCRs: '' @ pcr_str @ ''; firmware and full boot chain measured'')
             else (CHECK_OK, ''PCRs: '' @ pcr_str @ ''; boot chain measured''))
      in row ''LUKS boot chain binding'' chain_state
           (append_unlock_consequences (snprintf_s 256 detail) 256 bits False))"

definition signed_policy_rows :: "luks_scan \<Rightarrow> check_result list" where
  "signed_policy_rows st =
     (let bits = signed_weakest_mask st; pcr_str = pcr_mask_to_str bits 64;
          (chain_state, detail) =
            (if bits AND PCR_BIT 11 \<noteq> 0 then (CHECK_OK, ''signed policy; PCR 11 (UKI) measured'')
             else (CHECK_WARN, ''signed policy; PCRs: '' @ pcr_str @ '', PCR 11 (UKI) absent''))
      in [row ''LUKS Secure Boot binding'' CHECK_OK
            (append_unlock_consequences (snprintf_s 256 (''signed policy (pubkey); PCRs: '' @ pcr_str)) 256 bits True),
          row ''LUKS boot chain binding'' chain_state
            (append_unlock_consequences (snprintf_s 256 detail) 256 bits True)])"

definition luks_pcr_rows :: "luks_scan \<Rightarrow> check_result list" where
  "luks_pcr_rows st =
     (let both = (\<lambda>f. [f ''LUKS Secure Boot binding'', f ''LUKS boot chain binding''])
      in if \<not> any_token st \<and> clevis_count st = 0
         then both (\<lambda>n. row_skip n SKIP_SUBJECT_ABSENT ''no TPM2 token to evaluate'')
         else if \<not> any_token st
         then both (\<lambda>n. row_skip n SKIP_PROBE_INDETERMINATE ''clevis binding; PCR policy not inspectable'')
         else if dump_failed st > 0
         then both (\<lambda>n. row_skip n SKIP_EXEC_FAILED
           (snprintf_s 256 (dec_nat (dump_failed st) @ '' of '' @ dec_nat (luks_found st) @ '' '' @
              bythos_pl (luks_found st) ''device'' ''devices'' @ '' unreadable by cryptsetup'')))
         else if weakest_mask st = 0xFFFFFFFF \<or> weakest_mask st = 0 then
           (if signed_policy_count st > 0 then signed_policy_rows st
            else both (\<lambda>n. row_skip n SKIP_OUTPUT_UNPARSEABLE ''PCR mask unreadable''))
         else [raw_secure_boot_row st, raw_boot_chain_row st])"

definition luks_volume_rows :: "bool \<Rightarrow> luks_scan \<Rightarrow> check_result list" where
  "luks_volume_rows tpm st =
     luks_version_row st # luks_integrity_row st #
     (if \<not> tpm then [row_skip_hw ''LUKS TPM binding'' ''TPM'', row_skip_hw ''LUKS Secure Boot binding'' ''TPM'',
                     row_skip_hw ''LUKS boot chain binding'' ''TPM'']
      else luks_tpm_row st # luks_pcr_rows st)"

definition luks_names :: "string list" where
  "luks_names = [''LUKS version'', ''LUKS dm-integrity'', ''LUKS TPM binding'',
     ''LUKS Secure Boot binding'', ''LUKS boot chain binding'']"

definition luks_binding_rows :: "env \<Rightarrow> check_result list" where
  "luks_binding_rows e =
     (let c = bythos_capture_argv_status_ex e [''lsblk'', ''-P'', ''-o'', ''PATH,FSTYPE''] 4096
      in if \<not> bythos_command_exists e ''lsblk''
         then map (\<lambda>n. row_skip_tool_or_untrusted e n ''lsblk'' ''util-linux'') luks_names
         else if \<not> bythos_command_exists e ''cryptsetup''
         then map (\<lambda>n. row_skip_tool_or_untrusted e n ''cryptsetup'' ''cryptsetup'') luks_names
         else if \<not> cap_success c then map (\<lambda>n. row_skip_exec n ''lsblk'') luks_names
         else if cap_truncated c
         then map (\<lambda>n. row_skip n SKIP_OUTPUT_UNPARSEABLE ''lsblk output truncated'') luks_names
         else
           (let st = luks_scan_lines e (cap_text c)
            in if luks_found st = 0 then map (\<lambda>n. row_skip_subject n ''LUKS volumes'') luks_names
               else if dump_ok st = 0 then map (\<lambda>n. row_skip_exec_root n ''cryptsetup'') luks_names
               else luks_volume_rows (bythos_file_exists e ''/sys/class/tpm/tpm0'') st))"

definition luks_rows :: "env \<Rightarrow> check_result list" where
  "luks_rows e = luks_devices_row e # luks_binding_rows e"

definition bythos_check_luks :: "env \<Rightarrow> nat \<Rightarrow> check_result list" where
  "bythos_check_luks e max_results = emit_all max_results [] (luks_rows e)"

lemma wf_luks_rows [row_simps]:
  "wf_row (luks_devices_row e)" "wf_row (luks_version_row st)" "wf_row (luks_integrity_row st)"
  "wf_row (luks_tpm_row st)" "wf_row (raw_secure_boot_row st)" "wf_row (raw_boot_chain_row st)"
  "list_all wf_row (signed_policy_rows st)" "length (signed_policy_rows st) = 2"
  by (simp_all add: luks_devices_row_def luks_version_row_def luks_integrity_row_def luks_tpm_row_def
      raw_secure_boot_row_def raw_boot_chain_row_def signed_policy_rows_def Let_def)

lemma wf_luks_pcr_rows [row_simps]: "list_all wf_row (luks_pcr_rows st)" "length (luks_pcr_rows st) = 2"
  by (simp_all add: luks_pcr_rows_def Let_def row_simps)

lemma wf_luks_binding_rows [row_simps]:
  "list_all wf_row (luks_binding_rows e)" "length (luks_binding_rows e) = 5"
  by (simp_all add: luks_binding_rows_def luks_names_def luks_volume_rows_def Let_def row_simps)

interpretation luks: check_fn bythos_check_luks luks_rows 6
  by (rule check_fn_emit) (simp_all add: bythos_check_luks_def luks_rows_def row_simps)

end
