(* ===== verification/Bytes.thy ===== *)
theory Bytes
  imports Prelude
begin

text \<open>
  Reads from binary buffers. A read outside the buffer is undefined behaviour in C and is the
  value None here, so the binary parsers are written in the option monad and their memory
  safety is the theorem that they never return None. The little-endian reads are the
  \<open>read_le16\<close>/\<open>read_le32\<close> of \<open>src/efi_boot_parsers.c\<close> and the identical \<open>pe_read_u16_le\<close>/
  \<open>pe_read_u32_le\<close> of \<open>src/firmware_parsers.c\<close>; the encoders are the inverse, for the round trips.
\<close>

definition rd :: "bytes \<Rightarrow> nat \<Rightarrow> char option" where
  "rd p i = (if i < length p then Some (p ! i) else None)"

definition read_le16 :: "bytes \<Rightarrow> nat \<Rightarrow> u16 option" where
  "read_le16 p i = do { a \<leftarrow> rd p i; b \<leftarrow> rd p (i + 1);
     Some (of_char a OR push_bit 8 (of_char b)) }"

definition read_le32 :: "bytes \<Rightarrow> nat \<Rightarrow> u32 option" where
  "read_le32 p i = do { a \<leftarrow> rd p i; b \<leftarrow> rd p (i + 1); c \<leftarrow> rd p (i + 2); d \<leftarrow> rd p (i + 3);
     Some (of_char a OR push_bit 8 (of_char b) OR push_bit 16 (of_char c) OR push_bit 24 (of_char d)) }"

definition pe_read_u16_le :: "bytes \<Rightarrow> nat \<Rightarrow> u16 option" where
  "pe_read_u16_le p i = do { a \<leftarrow> rd p i; b \<leftarrow> rd p (i + 1);
     Some (of_char a OR push_bit 8 (of_char b)) }"

definition pe_read_u32_le :: "bytes \<Rightarrow> nat \<Rightarrow> u32 option" where
  "pe_read_u32_le p i = do { a \<leftarrow> rd p i; b \<leftarrow> rd p (i + 1); c \<leftarrow> rd p (i + 2); d \<leftarrow> rd p (i + 3);
     Some (of_char a OR push_bit 8 (of_char b) OR push_bit 16 (of_char c) OR push_bit 24 (of_char d)) }"

definition enc_le16 :: "nat \<Rightarrow> bytes" where
  "enc_le16 n = [char_of (n mod 256), char_of (n div 256 mod 256)]"

definition enc_le32 :: "nat \<Rightarrow> bytes" where
  "enc_le32 n = [char_of (n mod 256), char_of (n div 256 mod 256),
                 char_of (n div 65536 mod 256), char_of (n div 16777216 mod 256)]"

section \<open>Reads in bounds\<close>

lemma rd_in [simp]: "i < length p \<Longrightarrow> rd p i = Some (p ! i)"
  by (simp add: rd_def)

lemma rd_Some_iff: "rd p i = Some c \<longleftrightarrow> i < length p \<and> c = p ! i"
  by (auto simp: rd_def)

lemma of_char_word: "(of_char c :: 'a::len word) = word_of_nat (byte_val c)"
  by (simp add: byte_val_def of_nat_of_char)

lemma bit_byte: "bit (word_of_nat (byte_val c) :: 'a::len word) n \<Longrightarrow> n < 8"
proof -
  assume b: "bit (word_of_nat (byte_val c) :: 'a word) n"
  then have b': "bit (byte_val c) n" by (simp add: bit_of_nat_iff)
  have "byte_val c = take_bit 8 (byte_val c)"
    using byte_val_less [of c] by (simp add: take_bit_eq_mod)
  with b' show ?thesis by (metis bit_take_bit_iff)
qed

lemma or_push_add:
  fixes x y :: "'a::len word"
  assumes "\<And>n. bit x n \<Longrightarrow> n < k"
  shows "x OR push_bit k y = x + push_bit k y"
proof -
  have "\<not> bit x n \<or> \<not> bit (push_bit k y) n" for n
    using assms by (auto simp: bit_push_bit_iff not_le)
  then show ?thesis by (metis disjunctive_add)
qed

lemma le16_val: "(of_char a OR push_bit 8 (of_char b) :: u16) = word_of_nat (byte_val a + 256 * byte_val b)"
  unfolding of_char_word
  by (subst or_push_add) (erule bit_byte, simp add: push_bit_eq_mult)

lemma bit_sum: "n < 2 ^ k \<Longrightarrow> bit (word_of_nat n :: 'a::len word) i \<Longrightarrow> i < k"
  by (metis bit_take_bit_iff bit_of_nat_iff take_bit_nat_eq_self_iff)

lemma le32_val:
  "(of_char a OR push_bit 8 (of_char b) OR push_bit 16 (of_char c) OR push_bit 24 (of_char d) :: u32)
   = word_of_nat (byte_val a + 256 * byte_val b + 65536 * byte_val c + 16777216 * byte_val d)"
proof -
  let ?w = "word_of_nat :: nat \<Rightarrow> u32"
  have p: "(2::nat) ^ 16 = 65536" "(2::nat) ^ 24 = 16777216" by simp_all
  note l = byte_val_less [of a] byte_val_less [of b] byte_val_less [of c]
  have 1: "?w (byte_val a) OR push_bit 8 (?w (byte_val b)) = ?w (byte_val a + 256 * byte_val b)"
    by (subst or_push_add) (erule bit_byte, simp add: push_bit_eq_mult)
  have 2: "?w (byte_val a + 256 * byte_val b) OR push_bit 16 (?w (byte_val c))
      = ?w (byte_val a + 256 * byte_val b + 65536 * byte_val c)"
  proof (subst or_push_add [where k = 16])
    show "n < 16" if "bit (?w (byte_val a + 256 * byte_val b)) n" for n
      using that by (rule bit_sum [rotated]) (unfold p, use l in linarith)
  qed (simp add: push_bit_eq_mult)
  have 3: "?w (byte_val a + 256 * byte_val b + 65536 * byte_val c) OR push_bit 24 (?w (byte_val d))
      = ?w (byte_val a + 256 * byte_val b + 65536 * byte_val c + 16777216 * byte_val d)"
  proof (subst or_push_add [where k = 24])
    show "n < 24" if "bit (?w (byte_val a + 256 * byte_val b + 65536 * byte_val c)) n" for n
      using that by (rule bit_sum [rotated]) (unfold p, use l in linarith)
  qed (simp add: push_bit_eq_mult)
  show ?thesis unfolding of_char_word or.assoc [symmetric] 1 2 3 by simp
qed

lemma read_le16_in:
  "i + 1 < length p \<Longrightarrow> read_le16 p i = Some (word_of_nat (byte_val (p ! i) + 256 * byte_val (p ! (i + 1))))"
  by (simp add: read_le16_def le16_val)

lemma read_le32_in:
  "i + 3 < length p \<Longrightarrow> read_le32 p i = Some (word_of_nat (byte_val (p ! i) + 256 * byte_val (p ! (i + 1))
     + 65536 * byte_val (p ! (i + 2)) + 16777216 * byte_val (p ! (i + 3))))"
  by (simp add: read_le32_def le32_val)

lemma pe_read_u16_le_eq [simp]: "pe_read_u16_le = read_le16"
  by (simp add: fun_eq_iff pe_read_u16_le_def read_le16_def)

lemma pe_read_u32_le_eq [simp]: "pe_read_u32_le = read_le32"
  by (simp add: fun_eq_iff pe_read_u32_le_def read_le32_def)

lemma read_le16_total: "i + 1 < length p \<Longrightarrow> \<exists>w. read_le16 p i = Some w"
  by (simp add: read_le16_in)

lemma read_le32_total: "i + 3 < length p \<Longrightarrow> \<exists>w. read_le32 p i = Some w"
  by (simp add: read_le32_in)

lemma unat_le16:
  "read_le16 p i = Some w \<Longrightarrow> unat w = byte_val (p ! i) + 256 * byte_val (p ! (i + 1))"
proof -
  assume r: "read_le16 p i = Some w"
  then have "i + 1 < length p" by (auto simp: read_le16_def rd_def bind_eq_Some_conv split: if_splits)
  with r have w: "w = word_of_nat (byte_val (p ! i) + 256 * byte_val (p ! (i + 1)))"
    by (simp add: read_le16_in)
  have "byte_val (p ! i) + 256 * byte_val (p ! (i + 1)) < 65536"
    using byte_val_less [of "p ! i"] byte_val_less [of "p ! (i + 1)"] by linarith
  then show ?thesis unfolding w unat_of_nat by (simp add: take_bit_eq_mod)
qed

section \<open>Round trips\<close>

lemma enc_le16_length [simp]: "length (enc_le16 n) = 2"
  by (simp add: enc_le16_def)

lemma enc_le32_length [simp]: "length (enc_le32 n) = 4"
  by (simp add: enc_le32_def)

lemma nat16_split: "(n::nat) < 65536 \<Longrightarrow> n mod 256 + 256 * (n div 256 mod 256) = n"
  using mod_mult_div_eq [of n 256] by simp

lemma nat32_split:
  assumes "(n::nat) < 4294967296"
  shows "n mod 256 + 256 * (n div 256 mod 256) + 65536 * (n div 65536 mod 256) + 16777216 * (n div 16777216 mod 256) = n"
proof -
  define a b c where "a = n div 256" and "b = a div 256" and "c = b div 256"
  have d: "n div 65536 = b" "n div 16777216 = c"
    unfolding a_def b_def c_def by (simp_all add: div_mult2_eq [symmetric])
  have "c < 256" using assms unfolding d(2) [symmetric] by (intro less_mult_imp_div_less) simp
  moreover have "n mod 256 + 256 * a = n" "a mod 256 + 256 * b = a" "b mod 256 + 256 * c = b"
    unfolding a_def b_def c_def by (metis mod_mult_div_eq)+
  ultimately show ?thesis unfolding d a_def [symmetric] by (simp only: mod_less)
qed

lemma byte_val_char_of_mod: "byte_val (char_of (n mod 256)) = n mod 256"
  by (rule byte_val_char_of) simp

lemma read_enc_le16:
  assumes "n < 65536"
  shows "read_le16 (xs @ enc_le16 n @ ys) (length xs) = Some (word_of_nat n)"
proof -
  have i: "length xs + 1 < length (xs @ enc_le16 n @ ys)" by simp
  have nth: "(xs @ enc_le16 n @ ys) ! (length xs) = char_of (n mod 256)"
    "(xs @ enc_le16 n @ ys) ! (length xs + 1) = char_of (n div 256 mod 256)"
    by (simp_all only: nth_append_length nth_append_length_plus enc_le16_def append_Cons append_Nil
        nth_Cons_0 One_nat_def nth_Cons_Suc)
  show ?thesis
    unfolding read_le16_in [OF i] nth byte_val_char_of_mod nat16_split [OF assms] ..
qed

lemma read_enc_le32:
  assumes "n < 4294967296"
  shows "read_le32 (xs @ enc_le32 n @ ys) (length xs) = Some (word_of_nat n)"
proof -
  have i: "length xs + 3 < length (xs @ enc_le32 n @ ys)" by simp
  have nth: "(xs @ enc_le32 n @ ys) ! (length xs) = char_of (n mod 256)"
    "(xs @ enc_le32 n @ ys) ! (length xs + 1) = char_of (n div 256 mod 256)"
    "(xs @ enc_le32 n @ ys) ! (length xs + 2) = char_of (n div 65536 mod 256)"
    "(xs @ enc_le32 n @ ys) ! (length xs + 3) = char_of (n div 16777216 mod 256)"
    by (simp_all only: nth_append_length nth_append_length_plus enc_le32_def append_Cons append_Nil
        nth_Cons_0 numeral_2_eq_2 numeral_3_eq_3 One_nat_def nth_Cons_Suc)
  show ?thesis
    unfolding read_le32_in [OF i] nth byte_val_char_of_mod nat32_split [OF assms] ..
qed

end
