(* ===== verification/EfiBootParsers.thy ===== *)
theory EfiBootParsers
  imports Bytes Runtime
begin

text \<open>
  The UEFI variable parsers of \<open>src/efi_boot_parsers.c\<close>: BootOrder, Boot####, BootNext, the
  boolean variables and the db/dbx signature lists. Variables are byte strings with a 4 byte
  attribute header. Every byte is fetched by a checked read, so None is an access outside the
  buffer; a parser's own failure (its \<open>false\<close>) is a value of the result. Outputs the C code
  leaves zeroed on failure are zeroed in the result as well.
\<close>

section \<open>Types and constants\<close>

datatype efi_boot_type = EFI_BOOT_TYPE_UNKNOWN | EFI_BOOT_TYPE_DISK | EFI_BOOT_TYPE_CD
  | EFI_BOOT_TYPE_USB | EFI_BOOT_TYPE_NETWORK

record efi_boot_entry =
  be_number :: u16
  be_active :: bool
  be_type :: efi_boot_type
  be_description :: string
  be_filepath :: string

record efi_boot_order =
  bo_order :: "u16 list"
  bo_truncated :: bool

definition BYTHOS_EFI_BOOT_MAX_ENTRIES :: nat where "BYTHOS_EFI_BOOT_MAX_ENTRIES = 32"

definition EFI_VAR_ATTR_SIZE :: nat where "EFI_VAR_ATTR_SIZE = 4"

section \<open>Text and device paths\<close>

text \<open>
  \<open>si\<close> is the source index; \<open>di\<close> is the length of the output so far. The loop runs while a whole
  unit is left and the output has room for a character and its terminator.
\<close>

function utf16_loop :: "bytes \<Rightarrow> nat \<Rightarrow> nat \<Rightarrow> nat \<Rightarrow> string \<Rightarrow> string option" where
  "utf16_loop src src_bytes dst_size si out =
     (if si + 1 < src_bytes \<and> length out + 1 < dst_size then
        do { code \<leftarrow> read_le16 src si;
             if code = 0 then Some out
             else utf16_loop src src_bytes dst_size (si + 2)
                    (out @ [if code < 128 then char_of (unat code) else CHR ''?'']) }
      else Some out)"
  by pat_completeness auto
termination
  by (relation "measure (\<lambda>(src, n, d, si, out). n - si)") auto

declare utf16_loop.simps [simp del]

definition utf16le_to_ascii :: "bytes \<Rightarrow> nat \<Rightarrow> nat \<Rightarrow> string option" where
  "utf16le_to_ascii src src_bytes dst_size = utf16_loop src src_bytes dst_size 0 []"

definition classify_bbs :: "u16 \<Rightarrow> efi_boot_type option" where
  "classify_bbs t =
     (if t = 0x02 then Some EFI_BOOT_TYPE_DISK
      else if t = 0x03 then Some EFI_BOOT_TYPE_CD
      else if t = 0x05 \<or> t = 0x80 then Some EFI_BOOT_TYPE_USB
      else if t = 0x06 then Some EFI_BOOT_TYPE_NETWORK
      else None)"

definition classify_msg :: "nat \<Rightarrow> efi_boot_type option" where
  "classify_msg subtype =
     (if subtype = 0x05 \<or> subtype = 0x0F \<or> subtype = 0x10 then Some EFI_BOOT_TYPE_USB
      else if subtype = 0x0C \<or> subtype = 0x0D \<or> subtype = 0x09 \<or> subtype = 0x0B \<or> subtype = 0x18
      then Some EFI_BOOT_TYPE_NETWORK else None)"

definition classify_media :: "nat \<Rightarrow> efi_boot_type option" where
  "classify_media subtype =
     (if subtype = 0x01 \<or> subtype = 0x04 then Some EFI_BOOT_TYPE_DISK
      else if subtype = 0x02 then Some EFI_BOOT_TYPE_CD else None)"

text \<open>One device path node decides the type, or leaves the decision to the next node.\<close>

definition classify_node :: "bytes \<Rightarrow> nat \<Rightarrow> nat \<Rightarrow> nat \<Rightarrow> nat \<Rightarrow> efi_boot_type option option" where
  "classify_node dp dp_len offset type subtype =
     do { bbs \<leftarrow> (if type = 0x05 \<and> subtype = 0x01 \<and> offset + 6 \<le> dp_len
                  then do { t \<leftarrow> read_le16 dp (offset + 4); Some (classify_bbs t) } else Some None);
          Some (case bbs of Some t \<Rightarrow> Some t
                | None \<Rightarrow> (case (if type = 0x03 then classify_msg subtype else None) of Some t \<Rightarrow> Some t
                  | None \<Rightarrow> (if type = 0x04 then classify_media subtype else None))) }"

function classify_loop :: "bytes \<Rightarrow> nat \<Rightarrow> nat \<Rightarrow> efi_boot_type option" where
  "classify_loop dp dp_len offset =
     (if offset + 4 \<le> dp_len then
        do { ty \<leftarrow> rd dp offset; su \<leftarrow> rd dp (offset + 1); node_len \<leftarrow> read_le16 dp (offset + 2);
             if unat node_len < 4 then Some EFI_BOOT_TYPE_UNKNOWN
             else if byte_val ty = 0x7F \<and> byte_val su = 0xFF then Some EFI_BOOT_TYPE_UNKNOWN
             else do { decided \<leftarrow> classify_node dp dp_len offset (byte_val ty) (byte_val su);
                       (case decided of Some t \<Rightarrow> Some t
                        | None \<Rightarrow> classify_loop dp dp_len (offset + unat node_len)) } }
      else Some EFI_BOOT_TYPE_UNKNOWN)"
  by pat_completeness auto
termination
  by (relation "measure (\<lambda>(dp, n, off). n - off)") auto

declare classify_loop.simps [simp del]

definition classify_device_path :: "bytes \<Rightarrow> nat \<Rightarrow> efi_boot_type option" where
  "classify_device_path dp dp_len = classify_loop dp dp_len 0"

function filepath_loop :: "bytes \<Rightarrow> nat \<Rightarrow> nat \<Rightarrow> nat \<Rightarrow> string \<Rightarrow> string option" where
  "filepath_loop dp dp_len out_size offset out =
     (if offset + 4 \<le> dp_len then
        do { ty \<leftarrow> rd dp offset; su \<leftarrow> rd dp (offset + 1); node_len \<leftarrow> read_le16 dp (offset + 2);
             if unat node_len < 4 \<or> dp_len < offset + unat node_len then Some out
             else if byte_val ty = 0x7F \<and> byte_val su = 0xFF then Some out
             else if byte_val ty = 0x04 \<and> byte_val su = 0x04 then
               do { seg \<leftarrow> utf16le_to_ascii (drop (offset + 4) dp) (unat node_len - 4) 256;
                    filepath_loop dp dp_len out_size (offset + unat node_len)
                      (out @ take (out_size - 1 - length out) seg) }
             else filepath_loop dp dp_len out_size (offset + unat node_len) out }
      else Some out)"
  by pat_completeness auto
termination
  by (relation "measure (\<lambda>(dp, n, os, off, out). n - off)") auto

declare filepath_loop.simps [simp del]

definition dp_extract_filepath :: "bytes \<Rightarrow> nat \<Rightarrow> nat \<Rightarrow> string option" where
  "dp_extract_filepath dp dp_len out_size =
     (if out_size = 0 then Some [] else filepath_loop dp dp_len out_size 0 [])"

definition classify_description :: "string \<Rightarrow> efi_boot_type" where
  "classify_description desc =
     (let lower = bythos_to_lower_ascii desc 128
      in if has_sub lower ''usb'' \<or> has_sub lower ''removable'' then EFI_BOOT_TYPE_USB
         else if has_sub lower ''network'' \<or> has_sub lower ''pxe'' \<or> has_sub lower ''ipv4'' \<or>
                 has_sub lower ''ipv6'' \<or> has_sub lower ''lan'' then EFI_BOOT_TYPE_NETWORK
         else if has_sub lower ''cd'' \<or> has_sub lower ''dvd'' then EFI_BOOT_TYPE_CD
         else EFI_BOOT_TYPE_UNKNOWN)"

section \<open>The variables\<close>

fun read_order :: "bytes \<Rightarrow> nat \<Rightarrow> nat \<Rightarrow> u16 list option" where
  "read_order payload i 0 = Some []"
| "read_order payload i (Suc n) =
     do { w \<leftarrow> read_le16 payload (i * 2); ws \<leftarrow> read_order payload (i + 1) n; Some (w # ws) }"

text \<open>The outer option is memory safety, the pair is (returned value, \<open>*order\<close>).\<close>

definition bythos_parse_efi_boot_order :: "bytes option \<Rightarrow> (bool \<times> efi_boot_order) option" where
  "bythos_parse_efi_boot_order data =
     (case data of None \<Rightarrow> Some (False, \<lparr>bo_order = [], bo_truncated = False\<rparr>)
      | Some d \<Rightarrow>
        if length d < 6 then Some (False, \<lparr>bo_order = [], bo_truncated = False\<rparr>)
        else
          (let payload = drop EFI_VAR_ATTR_SIZE d;
               payload_len = length d - EFI_VAR_ATTR_SIZE;
               count = payload_len div 2;
               truncated = (count > BYTHOS_EFI_BOOT_MAX_ENTRIES);
               count = (if truncated then BYTHOS_EFI_BOOT_MAX_ENTRIES else count)
           in do { ws \<leftarrow> read_order payload 0 count;
                   Some (True, \<lparr>bo_order = ws, bo_truncated = truncated\<rparr>) }))"

text \<open>
  The scan for the UTF-16 terminator: the offset where it stopped and whether it saw the
  terminator.
\<close>

function desc_scan :: "bytes \<Rightarrow> nat \<Rightarrow> nat \<Rightarrow> nat \<Rightarrow> (nat \<times> bool) option" where
  "desc_scan d desc_bytes i desc_end =
     (if i + 1 < desc_bytes then
        do { a \<leftarrow> rd d i; b \<leftarrow> rd d (i + 1);
             if a = NUL \<and> b = NUL then Some (i, True)
             else desc_scan d desc_bytes (i + 2) (i + 2) }
      else Some (desc_end, False))"
  by pat_completeness auto
termination
  by (relation "measure (\<lambda>(d, n, i, e). n - i)") auto

declare desc_scan.simps [simp del]

definition empty_entry :: "u16 \<Rightarrow> efi_boot_entry" where
  "empty_entry number = \<lparr>be_number = number, be_active = False, be_type = EFI_BOOT_TYPE_UNKNOWN,
     be_description = [], be_filepath = []\<rparr>"

definition bythos_parse_efi_boot_entry :: "bytes option \<Rightarrow> u16 \<Rightarrow> (bool \<times> efi_boot_entry) option" where
  "bythos_parse_efi_boot_entry data number =
     (case data of None \<Rightarrow> Some (False, empty_entry number)
      | Some d \<Rightarrow>
        if length d < 12 then Some (False, empty_entry number)
        else
          (let p = drop EFI_VAR_ATTR_SIZE d; remaining = length d - EFI_VAR_ATTR_SIZE
           in do { load_attrs \<leftarrow> read_le32 p 0;
                   fp_list_len \<leftarrow> read_le16 p 4;
                   let desc_start = drop 6 p; desc_bytes = remaining - 6 in
                   do { (desc_end, terminated) \<leftarrow> desc_scan desc_start desc_bytes 0 0;
                        description \<leftarrow> utf16le_to_ascii desc_start desc_end 128;
                        (type, filepath) \<leftarrow>
                          (let dp_offset = 6 + desc_end + 2
                           in if terminated \<and> 0 < unat fp_list_len \<and> dp_offset < remaining then
                                (let dp_avail = min (remaining - dp_offset) (unat fp_list_len);
                                     dp = drop dp_offset p
                                 in do { t \<leftarrow> classify_device_path dp dp_avail;
                                         f \<leftarrow> dp_extract_filepath dp dp_avail 256;
                                         Some (t, f) })
                              else Some (EFI_BOOT_TYPE_UNKNOWN, []));
                        Some (True, \<lparr>be_number = number, be_active = (load_attrs AND 1 \<noteq> 0),
                          be_type = (if type = EFI_BOOT_TYPE_UNKNOWN then classify_description description else type),
                          be_description = description, be_filepath = filepath\<rparr>) } }))"

definition bythos_parse_efi_boot_next :: "bytes option \<Rightarrow> u16 option option" where
  "bythos_parse_efi_boot_next data =
     (case data of None \<Rightarrow> Some None
      | Some d \<Rightarrow> if length d < EFI_VAR_ATTR_SIZE + 2 then Some None
                  else do { w \<leftarrow> read_le16 (drop EFI_VAR_ATTR_SIZE d) 0; Some (Some w) })"

definition bythos_parse_efi_bool_var :: "bytes option \<Rightarrow> bool option option" where
  "bythos_parse_efi_bool_var data =
     (case data of None \<Rightarrow> Some None
      | Some d \<Rightarrow> if length d \<noteq> EFI_VAR_ATTR_SIZE + 1 then Some None
                  else do { payload \<leftarrow> rd d EFI_VAR_ATTR_SIZE;
                            Some (if byte_val payload > 1 then None else Some (byte_val payload = 1)) })"

function sigdb_loop :: "bytes \<Rightarrow> nat \<Rightarrow> nat option" where
  "sigdb_loop p count =
     (if p = [] then Some count
      else if length p < 28 then Some 0
      else do { ls \<leftarrow> read_le32 p 16; hs \<leftarrow> read_le32 p 20; ss \<leftarrow> read_le32 p 24;
                let list_size = unat ls; header_size = unat hs; signature_size = unat ss;
                    body_size = list_size - 28; payload_size = body_size - header_size in
                if list_size < 28 \<or> list_size > length p then Some 0
                else if header_size > body_size then Some 0
                else if signature_size \<le> 16 \<or> payload_size < signature_size \<or>
                        payload_size mod signature_size \<noteq> 0 then Some 0
                else sigdb_loop (drop list_size p) (count + 1) })"
  by pat_completeness auto
termination
  by (relation "measure (\<lambda>(p, c). length p)") auto

declare sigdb_loop.simps [simp del]

definition bythos_count_efi_sigdb_lists :: "bytes option \<Rightarrow> nat option" where
  "bythos_count_efi_sigdb_lists data =
     (case data of None \<Rightarrow> Some 0
      | Some d \<Rightarrow> if length d \<le> EFI_VAR_ATTR_SIZE then Some 0
                  else sigdb_loop (drop EFI_VAR_ATTR_SIZE d) 0)"

end
