(* ===== verification/BiosBootCheck.thy ===== *)
theory BiosBootCheck
  imports EfiBootParsers Process BoundedAppend
begin

text \<open>
  The check of boot order and firmware settings, \<open>check_bios_boot.c\<close>. The parsers of UEFI variables
  never return None (an access outside the buffer) by \<open>efi_parsers_memory_safe\<close>, so a failed
  parse here is the C function's false.
\<close>

section \<open>Composing details\<close>

definition BOOT_DESC_DISPLAY_MAX :: nat where "BOOT_DESC_DISPLAY_MAX = 40"

definition boot_name :: "u16 \<Rightarrow> string" where
  "boot_name number = ''Boot'' @ hex4_upper (unat number)"

definition append_entry_id :: "string \<Rightarrow> nat \<Rightarrow> u16 \<Rightarrow> string \<times> bool" where
  "append_entry_id entries list_size number =
     (let item = (if entries \<noteq> [] then '' '' else []) @ boot_name number
      in if length item \<ge> 16 then (entries, False)
         else if length entries + length item \<ge> list_size then (entries, False)
         else (entries @ item, True))"

definition printable :: "char \<Rightarrow> char" where
  "printable c = (if 0x20 \<le> byte_val c \<and> byte_val c \<le> 0x7E then c else CHR ''?'')"

definition display_description :: "string \<Rightarrow> nat \<Rightarrow> string" where
  "display_description src out_size =
     (let limit = out_size - 1; out = map printable (take limit src)
      in if limit < length src \<and> 3 \<le> limit then take (limit - 3) out @ ''...'' else out)"

definition append_unclassified_entry :: "string \<Rightarrow> nat \<Rightarrow> u16 \<times> string \<Rightarrow> string \<times> bool" where
  "append_unclassified_entry entries list_size entry =
     (let desc = display_description (snd entry) BOOT_DESC_DISPLAY_MAX;
          item = (if entries \<noteq> [] then '' '' else []) @ boot_name (fst entry) @
                 (if desc \<noteq> [] then '' '' @ [DQ] @ desc @ [DQ] else [])
      in if length item \<ge> 24 + BOOT_DESC_DISPLAY_MAX then (entries, False)
         else if length entries + length item \<ge> list_size then (entries, False)
         else (entries @ item, True))"

text \<open>\<open>append_text\<close>: \<open>pos\<close> is the length of the text so far.\<close>

definition append_text :: "nat \<Rightarrow> string \<Rightarrow> string \<Rightarrow> string" where
  "append_text sz out t =
     (if length out \<ge> sz then out
      else if length t \<ge> sz - length out then out @ take (sz - 1 - length out) t else out @ t)"

definition compose_blocked_detail :: "nat \<Rightarrow> string \<Rightarrow> string \<Rightarrow> string" where
  "compose_blocked_detail sz blocked medium =
     (let t = blocked @ ''; '' @ medium @ '' presence unconfirmed''
      in if length t \<ge> sz
         then snprintf_s sz (''boot order not fully inspected; '' @ medium @ '' presence unconfirmed'')
         else t)"

definition describe_incomplete_order ::
    "nat \<Rightarrow> string \<Rightarrow> bool \<Rightarrow> string \<Rightarrow> bool \<Rightarrow> bool \<Rightarrow> string" where
  "describe_incomplete_order sz unreadable unreadable_all unclassified unclassified_all capped =
     (let out = append_text sz [] ''boot order not fully inspected'';
          out = (if unreadable \<noteq> [] then
                   (let out = append_text sz (append_text sz out ''; unreadable: '') unreadable
                    in if \<not> unreadable_all then append_text sz out '' and more'' else out)
                 else out);
          out = (if unclassified \<noteq> [] then
                   (let out = append_text sz (append_text sz out ''; unclassified: '') unclassified
                    in if \<not> unclassified_all then append_text sz out '' and more'' else out)
                 else out)
      in if capped then append_text sz out (snprintf_s 48 (''; list shortened at '' @
             dec_nat BYTHOS_EFI_BOOT_MAX_ENTRIES @ '' entries''))
         else out)"

section \<open>The boot order\<close>

definition efivar_path :: "string \<Rightarrow> string" where
  "efivar_path v = ''/sys/firmware/efi/efivars/'' @ v @ ''-8be4df61-93ca-11d2-aa0d-00e098032b8c''"

definition EFI_BOOT_ORDER_PATH :: string where "EFI_BOOT_ORDER_PATH = efivar_path ''BootOrder''"
definition EFI_BOOT_NEXT_PATH :: string where "EFI_BOOT_NEXT_PATH = efivar_path ''BootNext''"

definition read_boot_entry :: "env \<Rightarrow> u16 \<Rightarrow> efi_boot_entry option" where
  "read_boot_entry e number =
     (let path = efivar_path (boot_name number)
      in if length path \<ge> PATH_MAX then None
         else case bythos_read_file_binary_ex e path 4096 of None \<Rightarrow> None
           | Some (buf, truncated) \<Rightarrow>
               if truncated then None
               else (case bythos_parse_efi_boot_entry (Some buf) number of
                       Some (True, entry) \<Rightarrow> Some entry | _ \<Rightarrow> None))"

text \<open>One medium's list: the entries that fit, and whether all did.\<close>

record boot_list =
  bl_seen :: bool
  bl_entries :: string
  bl_all :: bool

record boot_walk =
  bw_usb :: boot_list
  bw_net :: boot_list
  bw_cd :: boot_list
  bw_unreadable :: boot_list
  bw_unclassified :: boot_list

definition empty_boot_list :: boot_list where
  "empty_boot_list = \<lparr>bl_seen = False, bl_entries = [], bl_all = True\<rparr>"

definition boot_list_add :: "nat \<Rightarrow> u16 \<Rightarrow> boot_list \<Rightarrow> boot_list" where
  "boot_list_add sz number l =
     (let (entries, ok) = append_entry_id (bl_entries l) sz number
      in \<lparr>bl_seen = True, bl_entries = entries, bl_all = bl_all l \<and> ok\<rparr>)"

definition boot_list_add_unclassified :: "nat \<Rightarrow> u16 \<times> string \<Rightarrow> boot_list \<Rightarrow> boot_list" where
  "boot_list_add_unclassified sz entry l =
     (let (entries, ok) = append_unclassified_entry (bl_entries l) sz entry
      in \<lparr>bl_seen = True, bl_entries = entries, bl_all = bl_all l \<and> ok\<rparr>)"

definition boot_walk_step :: "env \<Rightarrow> boot_walk \<Rightarrow> u16 \<Rightarrow> boot_walk" where
  "boot_walk_step e w number =
     (case read_boot_entry e number of
        None \<Rightarrow> w\<lparr>bw_unreadable := boot_list_add 41 number (bw_unreadable w)\<rparr>
      | Some entry \<Rightarrow>
          if \<not> be_active entry then w
          else (case be_type entry of
              EFI_BOOT_TYPE_USB \<Rightarrow> w\<lparr>bw_usb := boot_list_add 200 number (bw_usb w)\<rparr>
            | EFI_BOOT_TYPE_NETWORK \<Rightarrow> w\<lparr>bw_net := boot_list_add 200 number (bw_net w)\<rparr>
            | EFI_BOOT_TYPE_CD \<Rightarrow> w\<lparr>bw_cd := boot_list_add 200 number (bw_cd w)\<rparr>
            | EFI_BOOT_TYPE_UNKNOWN \<Rightarrow>
                w\<lparr>bw_unclassified := boot_list_add_unclassified 64 (number, be_description entry) (bw_unclassified w)\<rparr>
            | EFI_BOOT_TYPE_DISK \<Rightarrow> w))"

definition boot_walk :: "env \<Rightarrow> u16 list \<Rightarrow> boot_walk" where
  "boot_walk e order = foldl (boot_walk_step e)
     \<lparr>bw_usb = empty_boot_list, bw_net = empty_boot_list, bw_cd = empty_boot_list,
      bw_unreadable = empty_boot_list, bw_unclassified = empty_boot_list\<rparr> order"

definition boot_blocked :: "boot_walk \<Rightarrow> bool \<Rightarrow> string" where
  "boot_blocked w order_capped =
     (if bl_seen (bw_unreadable w) \<or> order_capped \<or> bl_seen (bw_unclassified w)
      then describe_incomplete_order 256 (bl_entries (bw_unreadable w)) (bl_all (bw_unreadable w))
             (bl_entries (bw_unclassified w)) (bl_all (bw_unclassified w)) order_capped
      else [])"

definition boot_medium_row :: "string \<Rightarrow> string \<Rightarrow> string \<Rightarrow> boot_list \<Rightarrow> check_result" where
  "boot_medium_row name medium blocked l =
     (if bl_seen l then row name CHECK_WARN
        (snprintf_s 256 (''active in EFI boot order: '' @ bl_entries l @ (if bl_all l then [] else '' and more'')))
      else if blocked \<noteq> [] then row_skip name SKIP_OUTPUT_UNPARSEABLE (compose_blocked_detail 256 blocked medium)
      else row name CHECK_OK ''no active entry in EFI boot order'')"

definition boot_next_row :: "env \<Rightarrow> check_result" where
  "boot_next_row e =
     (if \<not> bythos_file_exists e EFI_BOOT_NEXT_PATH
      then row ''EFI one-shot boot'' CHECK_OK ''no boot override pending''
      else case (case bythos_read_file_binary e EFI_BOOT_NEXT_PATH 16 of None \<Rightarrow> None
                 | Some next_buf \<Rightarrow> (case bythos_parse_efi_boot_next (Some next_buf) of Some r \<Rightarrow> r | None \<Rightarrow> None)) of
        None \<Rightarrow> row ''EFI one-shot boot'' CHECK_WARN ''BootNext variable present but unreadable''
      | Some next_number \<Rightarrow>
          (case read_boot_entry e next_number of
             None \<Rightarrow> row ''EFI one-shot boot'' CHECK_WARN ''BootNext points to unreadable entry''
           | Some next_entry \<Rightarrow>
               if be_type next_entry = EFI_BOOT_TYPE_USB
               then row ''EFI one-shot boot'' CHECK_WARN ''BootNext overrides to USB boot''
               else if be_type next_entry = EFI_BOOT_TYPE_NETWORK
               then row ''EFI one-shot boot'' CHECK_WARN ''BootNext overrides to network boot''
               else if be_type next_entry = EFI_BOOT_TYPE_CD
               then row ''EFI one-shot boot'' CHECK_WARN ''BootNext overrides to CD/DVD boot''
               else row ''EFI one-shot boot'' CHECK_OK
                      ''BootNext does not point to USB, network, or optical boot''))"

definition efi_boot_names :: "string list" where
  "efi_boot_names = [''EFI USB boot'', ''EFI network boot'', ''EFI CD/DVD boot'', ''EFI one-shot boot'']"

definition efivars_boot_rows :: "env \<Rightarrow> check_result list" where
  "efivars_boot_rows e =
     (if \<not> bythos_file_exists e ''/sys/firmware/efi/efivars''
      then map (\<lambda>n. row_skip_feature n ''EFI runtime'') efi_boot_names
      else case bythos_read_file_binary e EFI_BOOT_ORDER_PATH 256 of
        None \<Rightarrow> map (\<lambda>n. row_skip_feature n ''BootOrder variable'') efi_boot_names
      | Some order_buf \<Rightarrow>
          (case bythos_parse_efi_boot_order (Some order_buf) of
             Some (True, order) \<Rightarrow>
               (let w = boot_walk e (bo_order order); blocked = boot_blocked w (bo_truncated order)
                in [boot_medium_row ''EFI USB boot'' ''USB'' blocked (bw_usb w),
                    boot_medium_row ''EFI network boot'' ''network'' blocked (bw_net w),
                    boot_medium_row ''EFI CD/DVD boot'' ''CD/DVD'' blocked (bw_cd w),
                    boot_next_row e])
           | _ \<Rightarrow> map (\<lambda>n. row_skip n SKIP_OUTPUT_UNPARSEABLE ''BootOrder variable malformed'') efi_boot_names))"

definition check_efivars_boot :: "env \<Rightarrow> nat \<Rightarrow> check_result list" where
  "check_efivars_boot e max_results = emit_all max_results [] (efivars_boot_rows e)"

section \<open>Firmware attributes\<close>

definition name_matches_usb_boot :: "string \<Rightarrow> bool" where
  "name_matches_usb_boot name \<longleftrightarrow>
     (let lower = bythos_to_lower_ascii name 256 in has_sub lower ''usb'' \<and> has_sub lower ''boot'')"

definition attr_value :: "env \<Rightarrow> string \<Rightarrow> string \<Rightarrow> string option" where
  "attr_value e attrs_path name =
     (let val_path = attrs_path @ ''/'' @ name @ ''/current_value''
      in if starts_with name ''.'' then None
         else if \<not> name_matches_usb_boot name then None
         else if length val_path \<ge> PATH_MAX then None
         else map_option (\<lambda>v. rev (dropWhile c_isspace (rev v))) (bythos_read_file_text e val_path 64))"

definition vendor_value :: "env \<Rightarrow> string \<Rightarrow> string option" where
  "vendor_value e vendor =
     (let attrs_path = ''/sys/class/firmware-attributes/'' @ vendor @ ''/attributes''
      in if starts_with vendor ''.'' then None
         else if length attrs_path \<ge> PATH_MAX then None
         else case env_names e attrs_path of None \<Rightarrow> None
           | Some attrs \<Rightarrow> first_some (attr_value e attrs_path) attrs)"

definition firmware_attrs_row :: "env \<Rightarrow> check_result" where
  "firmware_attrs_row e =
     (case env_names e ''/sys/class/firmware-attributes'' of
        None \<Rightarrow> row_skip ''BIOS USB boot'' SKIP_FEATURE_ABSENT
                  ''firmware-attributes not available; check BIOS manually''
      | Some vendors \<Rightarrow>
          (case first_some (vendor_value e) vendors of
             None \<Rightarrow> row_skip ''BIOS USB boot'' SKIP_FEATURE_ABSENT
                       ''USB boot attribute not exposed; check BIOS manually''
           | Some value \<Rightarrow>
               (let lower_value = bythos_to_lower_ascii value 64
                in if has_sub lower_value ''disable''
                   then row ''BIOS USB boot'' CHECK_OK ''disabled via firmware-attributes''
                   else if has_sub lower_value ''enable''
                   then row ''BIOS USB boot'' CHECK_WARN ''enabled; consider disabling in BIOS''
                   else row ''BIOS USB boot'' CHECK_WARN (snprintf_s 256 (''setting: '' @ value)))))"

definition check_firmware_attrs_boot :: "env \<Rightarrow> nat \<Rightarrow> check_result list" where
  "check_firmware_attrs_boot e max_results = (if max_results = 0 then [] else [firmware_attrs_row e])"

section \<open>Firmware passwords\<close>

definition password_slots :: "(string \<times> string) list" where
  "password_slots = [(''Firmware admin password'', ''Administrator Password Status:''),
     (''Firmware power-on password'', ''Power-On Password Status:''),
     (''Firmware keyboard password'', ''Keyboard Password Status:'')]"

text \<open>The byte at \<open>pos[i]\<close> of a zero-filled buffer.\<close>

definition char_at :: "string \<Rightarrow> nat \<Rightarrow> char" where
  "char_at s i = (if i < length s then s ! i else NUL)"

definition field_end :: "char \<Rightarrow> bool" where
  "field_end c \<longleftrightarrow> c = NUL \<or> c = LF \<or> c = CR \<or> c = SP \<or> c = TAB"

definition password_slot_row :: "string \<Rightarrow> string \<times> string \<Rightarrow> check_result" where
  "password_slot_row buf slot =
     (let (name, field) = slot
      in case strstr buf field of
        None \<Rightarrow> if has_sub buf ''DMI type 24'' then row_skip name SKIP_REPORT_FIELD_ABSENT ''field not present''
                else row_skip name SKIP_FEATURE_ABSENT ''DMI Type 24 not exposed by firmware; check BIOS manually''
      | Some pos \<Rightarrow>
          (let pos = dropWhile is_blank (drop (length field) pos)
           in if 2048 - (length buf - length pos) < 9 then row_skip_parse name ''dmidecode''
              else if starts_with pos ''Enabled'' \<and> field_end (char_at pos 7) then row name CHECK_OK ''set''
              else if starts_with pos ''Disabled'' \<and> field_end (char_at pos 8) then row name CHECK_WARN ''not set''
              else row_skip_parse name ''dmidecode''))"

definition firmware_password_rows :: "env \<Rightarrow> check_result list" where
  "firmware_password_rows e =
     (let c = bythos_capture_argv_status e [''dmidecode'', ''-t'', ''24''] 2048; buf = cap_text c
      in if \<not> bythos_command_exists e ''dmidecode''
         then map (\<lambda>(name, field). row_skip_tool_or_untrusted e name ''dmidecode'' ''dmidecode'') password_slots
         else if \<not> cap_success c then
           (let needs_root = (\<not> cap_ok c \<or> has_sub buf ''Permission denied'' \<or>
                              has_sub buf ''must be root'' \<or> has_sub buf ''requires root'')
            in map (\<lambda>(name, field). if needs_root then row_skip_exec_root name ''dmidecode''
                                    else row_skip_exec name ''dmidecode'') password_slots)
         else map (password_slot_row buf) password_slots)"

definition check_firmware_password :: "env \<Rightarrow> nat \<Rightarrow> check_result list" where
  "check_firmware_password e max_results = emit_all max_results [] (firmware_password_rows e)"

section \<open>The immutable flag\<close>

definition FS_IMMUTABLE_FL :: u32 where "FS_IMMUTABLE_FL = 0x10"

definition efivars_immutable_row :: "env \<Rightarrow> check_result" where
  "efivars_immutable_row e =
     (if \<not> bythos_file_exists e EFI_BOOT_ORDER_PATH
      then row_skip_feature ''EFI BootOrder immutable'' ''BootOrder variable''
      else case env_flags e EFI_BOOT_ORDER_PATH of
        FdOpenFails _ \<Rightarrow> row_skip_exec ''EFI BootOrder immutable'' ''BootOrder variable''
      | FdFails \<Rightarrow> row_skip_exec ''EFI BootOrder immutable'' ''immutable flag''
      | FdGot flags \<Rightarrow>
          if flags AND FS_IMMUTABLE_FL \<noteq> 0
          then row ''EFI BootOrder immutable'' CHECK_OK
                 ''flag set; the kernel refuses BootOrder writes while it holds''
          else row ''EFI BootOrder immutable'' CHECK_WARN
                 (''flag not set; the kernel does not refuse BootOrder writes; '' @
                  ''the flag would refuse them all, intended ones included''))"

definition check_efivars_immutable :: "env \<Rightarrow> nat \<Rightarrow> check_result list" where
  "check_efivars_immutable e max_results = (if max_results = 0 then [] else [efivars_immutable_row e])"

section \<open>The check\<close>

definition bythos_check_bios_boot :: "env \<Rightarrow> nat \<Rightarrow> check_result list" where
  "bythos_check_bios_boot e max_results =
     run_parts [check_efivars_boot, check_efivars_immutable, check_firmware_attrs_boot, check_firmware_password]
       e max_results []"

definition bios_boot_rows :: "env \<Rightarrow> check_result list" where
  "bios_boot_rows e = efivars_boot_rows e @ [efivars_immutable_row e, firmware_attrs_row e] @ firmware_password_rows e"

lemma wf_boot_rows:
  "wf_row (boot_medium_row n md b l)" "wf_row (boot_next_row e)" "wf_row (firmware_attrs_row e)"
  "wf_row (efivars_immutable_row e)" "wf_row (password_slot_row buf slot)"
  by (simp_all add: boot_medium_row_def boot_next_row_def firmware_attrs_row_def efivars_immutable_row_def
      password_slot_row_def Let_def split: option.split fd_answer.split prod.split)

lemma wf_bios_boot_rows [row_simps]:
  "list_all wf_row (efivars_boot_rows e)" "length (efivars_boot_rows e) = 4"
  "list_all wf_row (firmware_password_rows e)" "length (firmware_password_rows e) = 3"
  by (simp_all add: efivars_boot_rows_def efi_boot_names_def firmware_password_rows_def password_slots_def
      wf_boot_rows Let_def split: option.split prod.split bool.split)

interpretation bios_boot: check_fn bythos_check_bios_boot bios_boot_rows 9
  by (rule check_fn_parts [where part_rows = "[efivars_boot_rows, \<lambda>e. [efivars_immutable_row e],
        \<lambda>e. [firmware_attrs_row e], firmware_password_rows]", OF bythos_check_bios_boot_def])
    (simp_all add: bios_boot_rows_def check_efivars_boot_def check_efivars_immutable_def
      check_firmware_attrs_boot_def check_firmware_password_def row_simps wf_boot_rows)

section \<open>The appends keep whole pieces\<close>

definition entry_id_app :: "nat \<Rightarrow> string \<Rightarrow> u16 \<Rightarrow> string" where
  "entry_id_app sz entries number = fst (append_entry_id entries sz number)"

definition unclassified_app :: "nat \<Rightarrow> string \<Rightarrow> u16 \<times> string \<Rightarrow> string" where
  "unclassified_app sz entries entry = fst (append_unclassified_entry entries sz entry)"

lemma length_boot_name [simp]: "length (boot_name n) = 8"
  by (simp add: boot_name_def hex4_upper_def)

lemma length_display_description: "0 < n \<Longrightarrow> length (display_description s n) \<le> n - 1"
  by (auto simp: display_description_def Let_def)

interpretation entry_id: whole_append entry_id_app "\<lambda>s n. (if s \<noteq> [] then '' '' else []) @ boot_name n"
  by unfold_locales (auto simp: entry_id_app_def append_entry_id_def Let_def)

interpretation unclassified: whole_append unclassified_app
  "\<lambda>s (n, d). (if s \<noteq> [] then '' '' else []) @ boot_name n @
     (let desc = display_description d BOOT_DESC_DISPLAY_MAX
      in if desc \<noteq> [] then '' '' @ [DQ] @ desc @ [DQ] else [])"
proof unfold_locales
  have short: "length (display_description d 40) \<le> 39" for d
    using length_display_description [of 40 d] by simp
  fix sz s and x :: "u16 \<times> string"
  let ?p = "\<lambda>s (n, d). (if s \<noteq> [] then '' '' else []) @ boot_name n @
     (let desc = display_description d BOOT_DESC_DISPLAY_MAX
      in if desc \<noteq> [] then '' '' @ [DQ] @ desc @ [DQ] else [])"
  show "unclassified_app sz s x = s \<or> unclassified_app sz s x = s @ ?p s x"
    by (auto simp: unclassified_app_def append_unclassified_entry_def Let_def split: prod.split)
  show "length s < sz \<Longrightarrow> length (unclassified_app sz s x) < sz"
    by (auto simp: unclassified_app_def append_unclassified_entry_def Let_def split: prod.split)
  show "length (s @ ?p s x) < sz \<Longrightarrow> unclassified_app sz s x = s @ ?p s x"
    using short [of "snd x"]
    by (auto simp: unclassified_app_def append_unclassified_entry_def Let_def BOOT_DESC_DISPLAY_MAX_def
        split: prod.splits)
qed

end
