(* ===== verification/EspParsers.thy ===== *)
theory EspParsers
  imports Prelude
begin

text \<open>
  The parsers of \<open>src/esp_parsers.c\<close>: recognition of vendor directory names and the hash of a
  \<open>sha256sum\<close> line.
\<close>

fun name_lower_eq :: "string \<Rightarrow> string \<Rightarrow> bool" where
  "name_lower_eq (a # as) (b # bs) = (if c_tolower a \<noteq> c_tolower b then False else name_lower_eq as bs)"
| "name_lower_eq [] [] = True"
| "name_lower_eq _ _ = False"

definition known_vendors :: "string list" where
  "known_vendors = [''boot'', ''microsoft'',
     ''ubuntu'', ''debian'', ''fedora'', ''arch'', ''manjaro'', ''gentoo'',
     ''systemd'', ''opensuse'', ''suse'', ''void'', ''centos'', ''redhat'',
     ''rocky'', ''alma'', ''almalinux'', ''linuxmint'', ''pop'', ''elementary'',
     ''nixos'', ''steamos'', ''garuda'', ''endeavouros'', ''artix'', ''cachyos'',
     ''dell'', ''hp'', ''lenovo'', ''refind'', ''tools'', ''grub'', ''kali'', ''qubes'', ''alpine'']"

definition bythos_esp_is_known_vendor :: "cptr \<Rightarrow> bool" where
  "bythos_esp_is_known_vendor name =
     (case name of None \<Rightarrow> False | Some n \<Rightarrow> list_ex (name_lower_eq n) known_vendors)"

text \<open>The loop counts hex digits up to 64; \<open>hash_span\<close> returns that count and the pointer after them.\<close>

fun hash_span :: "nat \<Rightarrow> string \<Rightarrow> nat \<times> string" where
  "hash_span n [] = (n, [])"
| "hash_span n (c # cs) = (if n < 64 \<and> c_isxdigit c then hash_span (n + 1) cs else (n, c # cs))"

definition bythos_parse_sha256sum_line :: "cptr \<Rightarrow> nat \<Rightarrow> string option" where
  "bythos_parse_sha256sum_line line sz =
     (case line of None \<Rightarrow> None
      | Some l \<Rightarrow>
        if sz = 0 then None
        else (let (n, p) = hash_span 0 l
              in if n \<noteq> 64 then None
                 else if p = [] \<or> (hd p \<noteq> SP \<and> hd p \<noteq> TAB) then None
                 else Some (take (min 64 (sz - 1)) l)))"

section \<open>Facts\<close>

lemma name_lower_eq_iff: "name_lower_eq a b \<longleftrightarrow> map c_tolower a = map c_tolower b"
  by (induction a b rule: name_lower_eq.induct) auto

lemma hash_span_spec:
  "hash_span n l = (m, p) \<Longrightarrow> n \<le> 64 \<Longrightarrow>
     \<exists>h. l = h @ p \<and> length h + n = m \<and> m \<le> 64 \<and> list_all c_isxdigit h \<and>
       (p = [] \<or> m = 64 \<or> \<not> c_isxdigit (hd p))"
proof (induction n l arbitrary: m p rule: hash_span.induct)
  case (1 n)
  then show ?case by auto
next
  case (2 n c cs)
  show ?case
  proof (cases "n < 64 \<and> c_isxdigit c")
    case True
    with 2 obtain h where "cs = h @ p" "length h + (n + 1) = m" "m \<le> 64" "list_all c_isxdigit h"
      "p = [] \<or> m = 64 \<or> \<not> c_isxdigit (hd p)"
      by force
    with True show ?thesis by (intro exI [of _ "c # h"]) auto
  next
    case False
    then have "hash_span n (c # cs) = (n, c # cs)" by (simp only: hash_span.simps if_False)
    with 2 False show ?thesis by auto
  qed
qed

lemma hash_span_hex:
  "list_all c_isxdigit h \<Longrightarrow> length h + n = 64 \<Longrightarrow> hash_span n (h @ r) = (64, r)"
  by (induction h arbitrary: n) (cases r; auto)+

section \<open>Properties\<close>

text \<open>
  Claim C15: with room for a full digest, a \<open>sha256sum\<close> line parses exactly when it is 64
  hexadecimal digits followed by a blank, and the result is those 64 digits: two files are
  never declared identical on less than the whole digest.
\<close>

theorem sha256sum_line_iff:
  assumes "65 \<le> sz"
  shows "bythos_parse_sha256sum_line (Some l) sz = Some h \<longleftrightarrow>
    length h = 64 \<and> list_all c_isxdigit h \<and> (\<exists>b r. (b = SP \<or> b = TAB) \<and> l = h @ b # r)"
proof
  assume p: "bythos_parse_sha256sum_line (Some l) sz = Some h"
  obtain n p where hs: "hash_span 0 l = (n, p)" by (cases "hash_span 0 l")
  then obtain g where g: "l = g @ p" "length g = n" "list_all c_isxdigit g"
    using hash_span_spec [OF hs] by auto
  from p hs assms have "n = 64" "p \<noteq> []" "hd p = SP \<or> hd p = TAB" "h = take 64 l"
    by (auto simp: bythos_parse_sha256sum_line_def split: if_splits)
  with g show "length h = 64 \<and> list_all c_isxdigit h \<and> (\<exists>b r. (b = SP \<or> b = TAB) \<and> l = h @ b # r)"
    by (cases p) auto
next
  assume "length h = 64 \<and> list_all c_isxdigit h \<and> (\<exists>b r. (b = SP \<or> b = TAB) \<and> l = h @ b # r)"
  then show "bythos_parse_sha256sum_line (Some l) sz = Some h"
    using assms by (auto simp: bythos_parse_sha256sum_line_def hash_span_hex)
qed

theorem sha256sum_line_iff_witness:
  "bythos_parse_sha256sum_line (Some (replicate 64 (CHR ''a'') @ ''  f'')) 128 = Some (replicate 64 (CHR ''a''))"
  using sha256sum_line_iff [of 128 "replicate 64 (CHR ''a'') @ ''  f''" "replicate 64 (CHR ''a'')"]
  by (simp add: list_all_iff c_isxdigit_def)

end
