(* ===== verification/EspCheck.thy ===== *)
theory EspCheck
  imports EspParsers Process
begin

text \<open>The check of the EFI system partition, \<open>check_esp_posture.c\<close>.\<close>

definition ESP_CANDIDATES :: "(string \<times> string) list" where
  "ESP_CANDIDATES = [(''/boot/efi'', ''/boot/efi/EFI''), (''/efi'', ''/efi/EFI''), (''/boot'', ''/boot/EFI'')]"

section \<open>Permissions and file system\<close>

definition boot_ownership_rows :: "env \<Rightarrow> check_result list" where
  "boot_ownership_rows e =
     (case env_stat e ''/boot'' of None \<Rightarrow> []
      | Some st \<Rightarrow>
          [if st_uid st \<noteq> 0 then row ''/boot ownership'' CHECK_WARN ''/boot not owned by root''
           else if group_world_writable (st_mode st)
           then row ''/boot ownership'' CHECK_WARN ''/boot world/group-writable''
           else row ''/boot ownership'' CHECK_OK ''root-owned and not world-writable''])"

fun esp_find :: "env \<Rightarrow> (string \<times> string) list \<Rightarrow> file_stat option" where
  "esp_find e [] = None"
| "esp_find e ((mount, efi_dir) # cs) =
     (case env_stat e mount of
        Some st \<Rightarrow> if bythos_file_exists e efi_dir then Some st else esp_find e cs
      | None \<Rightarrow> esp_find e cs)"

definition esp_ownership_row :: "env \<Rightarrow> check_result" where
  "esp_ownership_row e =
     (case esp_find e ESP_CANDIDATES of
        None \<Rightarrow> row_skip ''ESP ownership'' SKIP_FEATURE_ABSENT ''ESP not accessible at /boot/efi, /efi, or /boot''
      | Some st \<Rightarrow>
          if st_uid st \<noteq> 0 then row ''ESP ownership'' CHECK_WARN ''not owned by root''
          else if group_world_writable (st_mode st)
          then row ''ESP ownership'' CHECK_WARN ''world/group-writable''
          else row ''ESP ownership'' CHECK_OK ''root-owned and not world-writable'')"

definition esp_permission_rows :: "env \<Rightarrow> check_result list" where
  "esp_permission_rows e = boot_ownership_rows e @ [esp_ownership_row e]"

definition check_esp_permissions :: "env \<Rightarrow> nat \<Rightarrow> check_result list" where
  "check_esp_permissions e max_results = emit_all max_results [] (esp_permission_rows e)"

fun esp_mount_fstype :: "env \<Rightarrow> string \<Rightarrow> (string \<times> string) list \<Rightarrow> string option" where
  "esp_mount_fstype e mounts [] = None"
| "esp_mount_fstype e mounts ((mount, efi_dir) # cs) =
     (if \<not> bythos_file_exists e efi_dir then esp_mount_fstype e mounts cs
      else case bythos_find_mount_entry mounts mount (Some 64) None of
        Some (fstype, opts) \<Rightarrow> Some fstype
      | None \<Rightarrow> esp_mount_fstype e mounts cs)"

definition esp_filesystem_row :: "env \<Rightarrow> check_result" where
  "esp_filesystem_row e =
     (case bythos_read_file_text_ex e ''/proc/mounts'' 65536 of
        None \<Rightarrow> row_skip_exec ''ESP filesystem'' ''/proc/mounts''
      | Some (mounts, truncated) \<Rightarrow>
          if truncated
          then row_skip ''ESP filesystem'' SKIP_PROBE_INDETERMINATE ''mount table larger than this tool reads''
          else (case esp_mount_fstype e mounts ESP_CANDIDATES of
              None \<Rightarrow> row_skip ''ESP filesystem'' SKIP_FEATURE_ABSENT ''ESP mount-point not found''
            | Some fstype \<Rightarrow>
                if fstype = ''vfat'' then row ''ESP filesystem'' CHECK_OK ''vfat''
                else row ''ESP filesystem'' CHECK_WARN (snprintf_s 256 (''unexpected: '' @ fstype))))"

definition check_esp_filesystem :: "env \<Rightarrow> nat \<Rightarrow> check_result list" where
  "check_esp_filesystem e max_results = (if max_results = 0 then [] else [esp_filesystem_row e])"

section \<open>Vendor directories\<close>

record vendor_scan =
  vs_total :: nat
  vs_unexpected :: string
  vs_names :: string

definition vendor_step :: "env \<Rightarrow> string \<Rightarrow> vendor_scan \<Rightarrow> string \<Rightarrow> vendor_scan" where
  "vendor_step e esp_base st name =
     (let path = esp_base @ ''/'' @ name
      in if starts_with name ''.'' then st
         else if length path \<ge> PATH_MAX then st
         else if (case env_stat e path of None \<Rightarrow> True | Some s \<Rightarrow> \<not> S_ISDIR (st_mode s)) then st
         else
           (let st = st\<lparr>vs_total := vs_total st + 1\<rparr>
            in if \<not> bythos_esp_is_known_vendor (Some name) then
                 (if vs_unexpected st = [] then st\<lparr>vs_unexpected := snprintf_s 64 (prec_s 60 name)\<rparr> else st)
               else
                 (let sep = (if vs_names st \<noteq> [] then '', '' else [])
                  in if length (vs_names st) + length sep + length name < 256
                     then st\<lparr>vs_names := vs_names st @ sep @ name\<rparr> else st)))"

definition vendor_dirs_row :: "env \<Rightarrow> check_result" where
  "vendor_dirs_row e =
     (case env_names e (bythos_esp_efi_base e) of
        None \<Rightarrow> row_skip_feature ''EFI vendor directories'' ''EFI directory''
      | Some names \<Rightarrow>
          (let st = foldl (vendor_step e (bythos_esp_efi_base e)) \<lparr>vs_total = 0, vs_unexpected = [], vs_names = []\<rparr> names
           in if vs_total st = 0 then row ''EFI vendor directories'' CHECK_WARN ''no vendor directories found''
              else if vs_unexpected st \<noteq> [] then row ''EFI vendor directories'' CHECK_OK
                (snprintf_s 256 (''unrecognized directory name: '' @ vs_unexpected st @
                                 '' (name only, not a trust signal)''))
              else row ''EFI vendor directories'' CHECK_OK
                (snprintf_s 256 (dec_nat (vs_total st) @ '' recognized: '' @ prec_s 220 (vs_names st)))))"

definition check_efi_vendor_dirs :: "env \<Rightarrow> nat \<Rightarrow> check_result list" where
  "check_efi_vendor_dirs e max_results = (if max_results = 0 then [] else [vendor_dirs_row e])"

section \<open>The fallback loader\<close>

definition esp_shim_names :: "string list" where
  "esp_shim_names = [''shimx64.efi'', ''shimaa64.efi'']"

definition usable_path :: "env \<Rightarrow> string \<Rightarrow> bool" where
  "usable_path e candidate \<longleftrightarrow> length candidate < PATH_MAX \<and> bythos_file_exists e candidate"

fun esp_find_shim_in :: "env \<Rightarrow> string \<Rightarrow> string list \<Rightarrow> string option" where
  "esp_find_shim_in e esp_base [] = None"
| "esp_find_shim_in e esp_base (vendor # vendors) =
     (if starts_with vendor ''.'' then esp_find_shim_in e esp_base vendors
      else case find (usable_path e) (map (\<lambda>n. esp_base @ ''/'' @ vendor @ ''/'' @ n) esp_shim_names) of
        Some candidate \<Rightarrow> Some candidate
      | None \<Rightarrow> esp_find_shim_in e esp_base vendors)"

definition esp_find_shim :: "env \<Rightarrow> string option" where
  "esp_find_shim e =
     (case env_names e (bythos_esp_efi_base e) of None \<Rightarrow> None
      | Some vendors \<Rightarrow> esp_find_shim_in e (bythos_esp_efi_base e) vendors)"

definition fallback_names :: "string list" where
  "fallback_names = [''BOOTX64.EFI'', ''bootx64.efi'', ''BOOTAA64.EFI'', ''bootaa64.efi'']"

definition fallback_path :: "env \<Rightarrow> string \<Rightarrow> string" where
  "fallback_path e name = bythos_esp_efi_base e @ ''/BOOT/'' @ name"

definition same_inode :: "env \<Rightarrow> string \<Rightarrow> string \<Rightarrow> bool" where
  "same_inode e a b =
     (case (env_stat e a, env_stat e b) of
        (Some sa, Some sb) \<Rightarrow> st_ino sa = st_ino sb \<and> st_dev sa = st_dev sb | _ \<Rightarrow> False)"

text \<open>The comparison by digest, once \<open>sha256sum\<close> may be run.\<close>

definition fallback_hash_row :: "env \<Rightarrow> string \<Rightarrow> string \<Rightarrow> check_result" where
  "fallback_hash_row e filename shim =
     (let boot = bythos_capture_argv_status e [''sha256sum'', fallback_path e filename] 256;
          sh = bythos_capture_argv_status e [''sha256sum'', shim] 256
      in if \<not> cap_success boot \<or> \<not> cap_success sh
         then row_skip ''default boot fallback'' SKIP_EXEC_FAILED
                (snprintf_s 256 (filename @ '' present; hash unavailable''))
         else case (bythos_parse_sha256sum_line (Some (cap_text boot)) 128,
                    bythos_parse_sha256sum_line (Some (cap_text sh)) 128) of
             (Some boot_hash, Some shim_hash) \<Rightarrow>
               if boot_hash = shim_hash
               then row ''default boot fallback'' CHECK_OK
                      (snprintf_s 256 (filename @ '' matches installed shim (sha256)''))
               else row ''default boot fallback'' CHECK_WARN
                      (snprintf_s 256 (filename @ '' does not match installed shim''))
           | _ \<Rightarrow> row_skip ''default boot fallback'' SKIP_OUTPUT_UNPARSEABLE
                    (snprintf_s 256 (filename @ '' present; hash parse failed'')))"

definition bootx64_row :: "env \<Rightarrow> check_result" where
  "bootx64_row e =
     (case find (\<lambda>n. usable_path e (fallback_path e n)) fallback_names of
        None \<Rightarrow> row_skip_subject ''default boot fallback'' ''default boot fallback''
      | Some filename \<Rightarrow>
          (case esp_find_shim e of
             None \<Rightarrow> row_skip ''default boot fallback'' SKIP_SUBJECT_ABSENT
                       (snprintf_s 256 (filename @ '' present; shim not found for comparison''))
           | Some shim \<Rightarrow>
               if same_inode e (fallback_path e filename) shim
               then row ''default boot fallback'' CHECK_OK
                      (snprintf_s 256 (filename @ '' matches installed shim (inode)''))
               else if \<not> bythos_command_exists e ''sha256sum'' then
                 (if bythos_command_untrusted e ''sha256sum''
                  then row ''default boot fallback'' CHECK_WARN
                         ''sha256sum on PATH is not root-owned; refusing to run it as root''
                  else make_skip_actionable ''default boot fallback'' SKIP_TOOL_ABSENT
                         (Some (snprintf_s 256 (filename @ '' present; sha256sum unavailable for identity check''))))
               else fallback_hash_row e filename shim))"

definition check_bootx64 :: "env \<Rightarrow> nat \<Rightarrow> check_result list" where
  "check_bootx64 e max_results = (if max_results = 0 then [] else [bootx64_row e])"

section \<open>Update capsules\<close>

definition update_capsule_row :: "env \<Rightarrow> check_result" where
  "update_capsule_row e =
     (let esp_base = bythos_esp_efi_base e
      in if \<not> bythos_file_exists e esp_base
         then row_skip ''ESP UpdateCapsule'' SKIP_FEATURE_ABSENT ''ESP not accessible at /boot/efi, /efi, or /boot''
         else case env_dir e (esp_base @ ''/UpdateCapsule'') of
           DirFails err \<Rightarrow>
             (if err = ENOENT then row ''ESP UpdateCapsule'' CHECK_OK ''no pending firmware capsules''
              else if err = EACCES
              then make_skip_root ''ESP UpdateCapsule'' SKIP_EXEC_FAILED (Some ''UpdateCapsule directory unreadable'')
              else make_skip ''ESP UpdateCapsule'' SKIP_EXEC_FAILED (Some ''UpdateCapsule directory unreadable''))
         | DirNames names \<Rightarrow>
             (let n = foldl (\<lambda>c name. if \<not> starts_with name ''.'' then c + 1 else c) 0 names
              in if n = 0 then row ''ESP UpdateCapsule'' CHECK_OK ''directory empty''
                 else row ''ESP UpdateCapsule'' CHECK_WARN
                   (snprintf_s 256 (dec_nat n @ '' '' @ bythos_pl n ''file'' ''files'' @
                      '' pending; firmware will apply on next reboot''))))"

definition check_update_capsule :: "env \<Rightarrow> nat \<Rightarrow> check_result list" where
  "check_update_capsule e max_results = (if max_results = 0 then [] else [update_capsule_row e])"

section \<open>The check\<close>

definition bythos_check_esp_posture :: "env \<Rightarrow> nat \<Rightarrow> check_result list" where
  "bythos_check_esp_posture e max_results =
     (if max_results = 0 then []
      else run_parts [check_esp_permissions, check_esp_filesystem, check_efi_vendor_dirs, check_bootx64,
                      check_update_capsule] e max_results [])"

definition esp_posture_rows :: "env \<Rightarrow> check_result list" where
  "esp_posture_rows e = esp_permission_rows e @
     [esp_filesystem_row e, vendor_dirs_row e, bootx64_row e, update_capsule_row e]"

lemma wf_esp_rows [row_simps]:
  "list_all wf_row (boot_ownership_rows e)" "wf_row (esp_ownership_row e)" "wf_row (esp_filesystem_row e)"
  "wf_row (vendor_dirs_row e)" "wf_row (fallback_hash_row e f s)" "wf_row (update_capsule_row e)"
  "length (boot_ownership_rows e) \<le> Suc 0"
  by (simp_all add: boot_ownership_rows_def esp_ownership_row_def esp_filesystem_row_def vendor_dirs_row_def
      fallback_hash_row_def update_capsule_row_def wf_make_skip Let_def split: option.split prod.split dir_data.split)

lemma wf_bootx64_row [row_simps]: "wf_row (bootx64_row e)"
  by (simp add: bootx64_row_def wf_make_skip row_simps split: option.split)

lemma check_esp_parts: "bythos_check_esp_posture e m =
   run_parts [check_esp_permissions, check_esp_filesystem, check_efi_vendor_dirs, check_bootx64,
              check_update_capsule] e m []"
  by (simp add: bythos_check_esp_posture_def check_esp_permissions_def check_esp_filesystem_def
      check_efi_vendor_dirs_def check_bootx64_def check_update_capsule_def)

interpretation esp_posture: check_fn bythos_check_esp_posture esp_posture_rows 6
  by (rule check_fn_parts [where part_rows = "[esp_permission_rows, \<lambda>e. [esp_filesystem_row e],
        \<lambda>e. [vendor_dirs_row e], \<lambda>e. [bootx64_row e], \<lambda>e. [update_capsule_row e]]", OF check_esp_parts])
    (simp_all add: esp_posture_rows_def esp_permission_rows_def check_esp_permissions_def
      check_esp_filesystem_def check_efi_vendor_dirs_def check_bootx64_def check_update_capsule_def row_simps)

end
