(* ===== verification/SecurebootCheck.thy ===== *)
theory SecurebootCheck
  imports EfiBootParsers FirmwareParsers Process
begin

text \<open>
  The check of Secure Boot, \<open>check_secureboot.c\<close>, and the probe of machine owner keys it uses,
  \<open>firmware_ownership.c\<close>.
\<close>

section \<open>Machine owner keys\<close>

record mok_ownership =
  mok_available :: bool
  mok_owner_readable :: bool
  mok_owner_parsed :: bool
  mok_owner :: string
  mok_enrollments_readable :: bool
  mok_enrollment_count :: nat
  mok_enrolled_names :: string
  mok_enrolled_names_parsed :: bool

definition mok_zero :: mok_ownership where
  "mok_zero = \<lparr>mok_available = False, mok_owner_readable = False, mok_owner_parsed = False, mok_owner = [],
     mok_enrollments_readable = False, mok_enrollment_count = 0, mok_enrolled_names = [],
     mok_enrolled_names_parsed = False\<rparr>"

definition bythos_probe_mok_ownership :: "env \<Rightarrow> mok_ownership" where
  "bythos_probe_mok_ownership e =
     (if \<not> bythos_command_exists e ''mokutil'' then mok_zero
      else
        (let o1 = mok_zero\<lparr>mok_available := True\<rparr>;
             pk = bythos_capture_argv_status e [''mokutil'', ''--pk'', ''--short''] 1024;
             o2 = (if cap_success pk then
                     (case bythos_extract_short_list_name (Some (cap_text pk)) 128 of
                        None \<Rightarrow> o1\<lparr>mok_owner_readable := True\<rparr>
                      | Some owner \<Rightarrow> o1\<lparr>mok_owner_readable := True, mok_owner_parsed := True, mok_owner := owner\<rparr>)
                   else o1);
             mok = bythos_capture_argv_status e [''mokutil'', ''--list-enrolled'', ''--short''] 2048
         in if cap_success mok then
              (let (seen, names) = bythos_join_short_list_names (Some (cap_text mok)) 256 5 32
               in o2\<lparr>mok_enrollments_readable := True,
                     mok_enrollment_count := bythos_count_nonempty_lines (Some (cap_text mok)),
                     mok_enrolled_names := names,
                     mok_enrolled_names_parsed := (seen > 0 \<and> names \<noteq> [])\<rparr>)
            else o2))"

section \<open>Variables\<close>

definition EFI_EFIVARS_DIR :: string where "EFI_EFIVARS_DIR = ''/sys/firmware/efi/efivars''"

definition EFI_DB_PATH :: string where
  "EFI_DB_PATH = EFI_EFIVARS_DIR @ ''/db-d719b2cb-3d3a-4596-a3bc-dad00e67656f''"
definition EFI_DBX_PATH :: string where
  "EFI_DBX_PATH = EFI_EFIVARS_DIR @ ''/dbx-d719b2cb-3d3a-4596-a3bc-dad00e67656f''"
definition EFI_SBAT_RT_PATH :: string where
  "EFI_SBAT_RT_PATH = EFI_EFIVARS_DIR @ ''/SbatLevelRT-605dab50-e046-4300-abb6-3dd810dd8b23''"
definition EFI_SBAT_PATH :: string where
  "EFI_SBAT_PATH = EFI_EFIVARS_DIR @ ''/SbatLevel-605dab50-e046-4300-abb6-3dd810dd8b23''"
definition EFI_SB_STATE_PATH :: string where
  "EFI_SB_STATE_PATH = EFI_EFIVARS_DIR @ ''/SecureBoot-8be4df61-93ca-11d2-aa0d-00e098032b8c''"
definition EFI_SETUP_MODE_PATH :: string where
  "EFI_SETUP_MODE_PATH = EFI_EFIVARS_DIR @ ''/SetupMode-8be4df61-93ca-11d2-aa0d-00e098032b8c''"

definition read_efi_bool_var :: "env \<Rightarrow> string \<Rightarrow> bool option" where
  "read_efi_bool_var e path =
     (case bythos_read_file_binary e path 8 of None \<Rightarrow> None
      | Some buf \<Rightarrow> (case bythos_parse_efi_bool_var (Some buf) of Some r \<Rightarrow> r | None \<Rightarrow> None))"

text \<open>The count of lists; the parser's option is its memory safety and is never None.\<close>

definition sigdb_lists :: "bytes \<Rightarrow> nat" where
  "sigdb_lists buf = (case bythos_count_efi_sigdb_lists (Some buf) of Some n \<Rightarrow> n | None \<Rightarrow> 0)"

definition sigdb_variable_row :: "env \<Rightarrow> string \<Rightarrow> string \<Rightarrow> bool \<Rightarrow> check_result" where
  "sigdb_variable_row e path name efi_visible =
     (if \<not> efi_visible then make_skip name SKIP_FEATURE_ABSENT (Some ''EFI runtime not available'')
      else if \<not> bythos_file_exists e path
      then make_result name CHECK_WARN (Some ''UEFI visible but variable missing'')
      else case bythos_read_file_binary_ex e path 65536 of
        None \<Rightarrow> make_skip name SKIP_EXEC_FAILED (Some ''variable read failed'')
      | Some (buf, truncated) \<Rightarrow>
          if truncated
          then make_result name CHECK_WARN (Some ''larger than this tool reads; contents not verified'')
          else if sigdb_lists buf > 0 then make_result name CHECK_OK (Some ''visible and non-empty'')
          else if length buf > 4 then make_result name CHECK_WARN (Some ''visible but unparseable'')
          else make_result name CHECK_WARN (Some ''visible but empty''))"

definition check_sigdb_variable ::
    "env \<Rightarrow> string \<Rightarrow> string \<Rightarrow> bool \<Rightarrow> nat \<Rightarrow> check_result list \<Rightarrow> check_result list" where
  "check_sigdb_variable e path name efi_visible max_results results =
     emit max_results results (sigdb_variable_row e path name efi_visible)"

section \<open>Secure Boot state\<close>

text \<open>What the first block leaves behind for the later ones: the state and whether mokutil's output counts.\<close>

record sb_probe =
  sbp_state :: secure_boot_status
  sbp_have_output :: bool
  sbp_buffer :: string
  sbp_row :: check_result

definition mokutil_state :: "env \<Rightarrow> capture" where
  "mokutil_state e = bythos_capture_argv_status e [''mokutil'', ''--sb-state''] 512"

definition has_mokutil :: "env \<Rightarrow> bool" where
  "has_mokutil e = bythos_command_exists e ''mokutil''"

definition secure_boot_probe :: "env \<Rightarrow> sb_probe" where
  "secure_boot_probe e =
     (let c = mokutil_state e; buffer = (if has_mokutil e then cap_text c else []);
          parsed = bythos_parse_secure_boot_state (Some buffer)
      in case read_efi_bool_var e EFI_SB_STATE_PATH of
        Some efivar_sb \<Rightarrow>
          \<lparr>sbp_state = (if efivar_sb then SECURE_BOOT_ENABLED else SECURE_BOOT_DISABLED),
           sbp_have_output = (has_mokutil e \<and> cap_success c \<and> parsed \<noteq> SECURE_BOOT_UNKNOWN),
           sbp_buffer = buffer,
           sbp_row = (if efivar_sb then row ''secure boot state'' CHECK_OK ''Secure Boot enabled''
                      else row ''secure boot state'' CHECK_FAIL ''Secure Boot disabled'')\<rparr>
      | None \<Rightarrow>
          if \<not> has_mokutil e then
            \<lparr>sbp_state = SECURE_BOOT_UNKNOWN, sbp_have_output = False, sbp_buffer = [],
             sbp_row = row_skip_tool_or_untrusted e ''secure boot state'' ''mokutil'' ''mokutil''\<rparr>
          else if \<not> cap_success c then
            \<lparr>sbp_state = SECURE_BOOT_UNKNOWN, sbp_have_output = False, sbp_buffer = buffer,
             sbp_row = row_skip_exec ''secure boot state'' ''mokutil''\<rparr>
          else if parsed = SECURE_BOOT_ENABLED then
            \<lparr>sbp_state = parsed, sbp_have_output = True, sbp_buffer = buffer,
             sbp_row = row ''secure boot state'' CHECK_OK ''Secure Boot enabled''\<rparr>
          else if parsed = SECURE_BOOT_DISABLED then
            \<lparr>sbp_state = parsed, sbp_have_output = True, sbp_buffer = buffer,
             sbp_row = row ''secure boot state'' CHECK_FAIL ''Secure Boot disabled''\<rparr>
          else
            \<lparr>sbp_state = parsed, sbp_have_output = False, sbp_buffer = buffer,
             sbp_row = row_skip_parse ''secure boot state'' ''mokutil''\<rparr>)"

definition setup_mode_row :: "env \<Rightarrow> check_result" where
  "setup_mode_row e =
     (let p = secure_boot_probe e
      in case read_efi_bool_var e EFI_SETUP_MODE_PATH of
        Some efivar_setup \<Rightarrow>
          if efivar_setup then row ''secure boot setup mode'' CHECK_WARN ''enabled''
          else row ''secure boot setup mode'' CHECK_OK ''disabled''
      | None \<Rightarrow>
          if \<not> has_mokutil e
          then row_skip_tool_or_untrusted e ''secure boot setup mode'' ''mokutil'' ''mokutil''
          else if \<not> sbp_have_output p then row_skip_probe ''secure boot setup mode'' ''mokutil''
          else if bythos_secure_boot_setup_mode (Some (sbp_buffer p))
          then row ''secure boot setup mode'' CHECK_WARN ''enabled''
          else row ''secure boot setup mode'' CHECK_OK ''disabled'')"

definition shim_validation_row :: "env \<Rightarrow> check_result" where
  "shim_validation_row e =
     (let p = secure_boot_probe e
      in if \<not> has_mokutil e then row_skip_tool_or_untrusted e ''shim validation'' ''mokutil'' ''mokutil''
         else if sbp_state p = SECURE_BOOT_DISABLED
         then row_skip ''shim validation'' SKIP_FEATURE_ABSENT ''Secure Boot not enabled''
         else if sbp_state p \<noteq> SECURE_BOOT_ENABLED \<or> \<not> sbp_have_output p
         then row_skip_probe ''shim validation'' ''mokutil''
         else if bythos_secure_boot_validation_disabled (Some (sbp_buffer p))
         then row ''shim validation'' CHECK_FAIL ''disabled; shim boots unsigned images''
         else row ''shim validation'' CHECK_OK ''enforced'')"

definition pk_owner_row :: "env \<Rightarrow> check_result" where
  "pk_owner_row e =
     (let own = bythos_probe_mok_ownership e
      in if \<not> has_mokutil e then row_skip_tool_or_untrusted e ''platform key owner'' ''mokutil'' ''mokutil''
         else if \<not> mok_owner_readable own then row_skip_exec ''platform key owner'' ''mokutil''
         else if mok_owner_parsed own then row ''platform key owner'' CHECK_OK (mok_owner own)
         else row_skip_parse ''platform key owner'' ''mokutil'')"

definition mok_row :: "env \<Rightarrow> check_result" where
  "mok_row e =
     (let own = bythos_probe_mok_ownership e
      in if \<not> has_mokutil e then row_skip_tool_or_untrusted e ''MOK enrollments'' ''mokutil'' ''mokutil''
         else if \<not> mok_enrollments_readable own then row_skip_exec ''MOK enrollments'' ''mokutil''
         else if mok_enrollment_count own = 0 then row ''MOK enrollments'' CHECK_OK ''none enrolled''
         else if mok_enrolled_names_parsed own then row ''MOK enrollments'' CHECK_WARN
           (snprintf_s 256 (dec_nat (mok_enrollment_count own) @ '' enrolled; review keys: '' @
              prec_s 200 (mok_enrolled_names own)))
         else row ''MOK enrollments'' CHECK_WARN
           (snprintf_s 256 (dec_nat (mok_enrollment_count own) @ '' enrolled; review keys'')))"

section \<open>Signature databases and SBAT\<close>

definition sb_efi_visible :: "env \<Rightarrow> bool" where
  "sb_efi_visible e = bythos_file_exists e ''/sys/firmware/efi''"

definition dbx_size_row :: "env \<Rightarrow> check_result" where
  "dbx_size_row e =
     (if \<not> sb_efi_visible e then row_skip_feature ''Secure Boot dbx size'' ''EFI runtime''
      else case bythos_read_file_binary_ex e EFI_DBX_PATH 65536 of
        None \<Rightarrow> row_skip_exec ''Secure Boot dbx size'' ''EFI dbx''
      | Some (dbx, truncated) \<Rightarrow>
          if truncated then row ''Secure Boot dbx size'' CHECK_WARN ''larger than this tool reads; size not verified''
          else if length dbx \<le> 4 then row ''Secure Boot dbx size'' CHECK_WARN ''dbx empty; no revocations''
          else if length dbx - 4 < 100 then row ''Secure Boot dbx size'' CHECK_WARN
            (snprintf_s 256 (''minimal ('' @ dec_nat (length dbx - 4) @ '' bytes); may be factory default''))
          else row ''Secure Boot dbx size'' CHECK_OK
            (snprintf_s 256 (''non-minimal ('' @ dec_nat (length dbx - 4) @ '' bytes); currency unverified'')))"

definition db_keys_row :: "env \<Rightarrow> check_result" where
  "db_keys_row e =
     (if \<not> sb_efi_visible e then row_skip_feature ''Secure Boot db keys'' ''EFI runtime''
      else case bythos_read_file_binary_ex e EFI_DB_PATH 65536 of
        None \<Rightarrow> row_skip_exec ''Secure Boot db keys'' ''EFI db''
      | Some (db, truncated) \<Rightarrow>
          if truncated
          then row ''Secure Boot db keys'' CHECK_WARN ''larger than this tool reads; key lists not counted''
          else
            (let n = sigdb_lists db
             in if n = 0 then
                  (if length db > 4
                   then row ''Secure Boot db keys'' CHECK_WARN ''allowlist visible but unparseable''
                   else row ''Secure Boot db keys'' CHECK_WARN ''empty; Secure Boot allowlist missing'')
                else row ''Secure Boot db keys'' CHECK_OK
                  (snprintf_s 256 (dec_nat n @ '' key '' @ bythos_pl n ''list'' ''lists'' @
                     '' in Secure Boot allowlist''))))"

definition sbat_level_row :: "env \<Rightarrow> check_result" where
  "sbat_level_row e =
     (if \<not> sb_efi_visible e then row_skip_feature ''SBAT policy level'' ''EFI runtime''
      else case (if bythos_file_exists e EFI_SBAT_RT_PATH then Some EFI_SBAT_RT_PATH
                 else if bythos_file_exists e EFI_SBAT_PATH then Some EFI_SBAT_PATH else None) of
        None \<Rightarrow> row_skip ''SBAT policy level'' SKIP_FEATURE_ABSENT ''SbatLevel variable absent; pre-SBAT firmware''
      | Some sbat_path \<Rightarrow>
          (case bythos_read_file_binary_ex e sbat_path 256 of
             None \<Rightarrow> row_skip_exec ''SBAT policy level'' ''SbatLevel''
           | Some (buf, truncated) \<Rightarrow>
               if truncated
               then row ''SBAT policy level'' CHECK_WARN ''larger than this tool reads; policy level not verified''
               else if length buf \<le> 4 then row ''SBAT policy level'' CHECK_WARN ''visible but empty''
               else (case bythos_parse_sbat_level buf 64 of
                   None \<Rightarrow> row ''SBAT policy level'' CHECK_WARN ''visible but unparseable''
                 | Some sbat_line \<Rightarrow> row ''SBAT policy level'' CHECK_OK
                     (snprintf_s 256 (''SbatLevel: '' @ sbat_line)))))"

definition trust_breadth_row :: "env \<Rightarrow> check_result" where
  "trust_breadth_row e =
     (let c = bythos_capture_argv_status_ex e [''mokutil'', ''--db''] 131072
      in if \<not> has_mokutil e
         then row_skip_tool_or_untrusted e ''Secure Boot trust breadth'' ''mokutil'' ''mokutil''
         else if \<not> cap_success c then row_skip_exec ''Secure Boot trust breadth'' ''mokutil''
         else if cap_truncated c then row ''Secure Boot trust breadth'' CHECK_WARN
           ''mokutil output truncated; CA detection inconclusive, verify manually''
         else if bythos_sb_has_ms_ca (Some (cap_text c)) then row ''Secure Boot trust breadth'' CHECK_WARN
           ''Microsoft 3rd Party UEFI CA in db; widens trusted signer set''
         else row ''Secure Boot trust breadth'' CHECK_OK ''Microsoft 3rd Party UEFI CA not found in db'')"

definition efivarfs_row :: "env \<Rightarrow> check_result" where
  "efivarfs_row e =
     (case bythos_read_file_text_ex e ''/proc/mounts'' 65536 of
        None \<Rightarrow> row_skip_exec ''efivarfs mount mode'' ''/proc/mounts''
      | Some (mounts, truncated) \<Rightarrow>
          if truncated
          then row_skip ''efivarfs mount mode'' SKIP_PROBE_INDETERMINATE ''mount table larger than this tool reads''
          else (case bythos_find_mount_entry mounts EFI_EFIVARS_DIR None (Some 256) of
              None \<Rightarrow> row_skip_feature ''efivarfs mount mode'' ''efivarfs''
            | Some (fs, opts) \<Rightarrow>
                if opts = ''ro'' \<or> starts_with opts ''ro,''
                then row ''efivarfs mount mode'' CHECK_OK
                       ''read-only; EFI variable writes are refused while this mount holds''
                else row ''efivarfs mount mode'' CHECK_WARN
                       ''read-write; firmware-side variable protection still applies''))"

section \<open>The check\<close>

definition secureboot_rows :: "env \<Rightarrow> check_result list" where
  "secureboot_rows e =
     [sbp_row (secure_boot_probe e), setup_mode_row e, shim_validation_row e, pk_owner_row e, mok_row e,
      sigdb_variable_row e EFI_DB_PATH ''secure boot allowlist'' (sb_efi_visible e),
      sigdb_variable_row e EFI_DBX_PATH ''secure boot revocations'' (sb_efi_visible e),
      dbx_size_row e, db_keys_row e, sbat_level_row e, trust_breadth_row e, efivarfs_row e]"

text \<open>The rows before, of and after the two \<open>check_sigdb_variable\<close> calls, in the code's order.\<close>

definition bythos_check_secureboot :: "env \<Rightarrow> nat \<Rightarrow> check_result list" where
  "bythos_check_secureboot e max_results =
     (let results = emit_all max_results []
            [sbp_row (secure_boot_probe e), setup_mode_row e, shim_validation_row e, pk_owner_row e, mok_row e];
          results = check_sigdb_variable e EFI_DB_PATH ''secure boot allowlist'' (sb_efi_visible e) max_results results;
          results = check_sigdb_variable e EFI_DBX_PATH ''secure boot revocations'' (sb_efi_visible e) max_results results
      in emit_all max_results results
           [dbx_size_row e, db_keys_row e, sbat_level_row e, trust_breadth_row e, efivarfs_row e])"

lemma check_secureboot_eq: "bythos_check_secureboot e m = emit_all m [] (secureboot_rows e)"
  unfolding bythos_check_secureboot_def secureboot_rows_def check_sigdb_variable_def Let_def
  by (simp only: emit_all_Cons emit_all_Nil)

lemma wf_secureboot_rows [row_simps]:
  "wf_row (sbp_row (secure_boot_probe e))" "wf_row (setup_mode_row e)" "wf_row (shim_validation_row e)"
  "wf_row (pk_owner_row e)" "wf_row (mok_row e)" "wf_row (sigdb_variable_row e p n v)"
  "wf_row (dbx_size_row e)" "wf_row (db_keys_row e)" "wf_row (sbat_level_row e)"
  "wf_row (trust_breadth_row e)" "wf_row (efivarfs_row e)"
  by (simp_all add: secure_boot_probe_def setup_mode_row_def shim_validation_row_def pk_owner_row_def
      mok_row_def sigdb_variable_row_def dbx_size_row_def db_keys_row_def sbat_level_row_def
      trust_breadth_row_def efivarfs_row_def wf_make_result wf_make_skip Let_def
      split: option.split prod.split)

interpretation secureboot: check_fn bythos_check_secureboot secureboot_rows 12
  by (rule check_fn_emit [OF check_secureboot_eq]) (simp_all add: secureboot_rows_def row_simps)

end
