(* ===== verification/PeSbat.thy ===== *)
theory PeSbat
  imports Bytes
begin

text \<open>
  The PE section extractor and the SBAT CSV parser of \<open>src/firmware_parsers.c\<close>. The extractor is
  in the option monad (None is an access outside a buffer); its own verdict is the inner option.
\<close>

section \<open>PE sections\<close>

definition BYTHOS_PE_MAX_SECTIONS :: nat where "BYTHOS_PE_MAX_SECTIONS = 96"
definition BYTHOS_PE_DOS_HEADER_BYTES :: nat where "BYTHOS_PE_DOS_HEADER_BYTES = 64"
definition BYTHOS_PE_LFANEW_OFFSET :: nat where "BYTHOS_PE_LFANEW_OFFSET = 0x3C"
definition BYTHOS_PE_COFF_HEADER_BYTES :: nat where "BYTHOS_PE_COFF_HEADER_BYTES = 20"
definition BYTHOS_PE_SECTION_HEADER_BYTES :: nat where "BYTHOS_PE_SECTION_HEADER_BYTES = 40"
definition BYTHOS_PE_SECTION_NAME_BYTES :: nat where "BYTHOS_PE_SECTION_NAME_BYTES = 8"

lemmas pe_consts = BYTHOS_PE_MAX_SECTIONS_def BYTHOS_PE_DOS_HEADER_BYTES_def
  BYTHOS_PE_LFANEW_OFFSET_def BYTHOS_PE_COFF_HEADER_BYTES_def BYTHOS_PE_SECTION_HEADER_BYTES_def
  BYTHOS_PE_SECTION_NAME_BYTES_def

text \<open>\<open>memcpy\<close> of \<open>n\<close> bytes from offset \<open>off\<close> of a buffer into one of \<open>out_size\<close> bytes.\<close>

definition memcpy_out :: "bytes \<Rightarrow> nat \<Rightarrow> nat \<Rightarrow> nat \<Rightarrow> bytes option" where
  "memcpy_out bin off n out_size =
     (if off + n \<le> length bin \<and> n \<le> out_size then Some (take n (drop off bin)) else None)"

text \<open>The name loop: \<open>j\<close> is its index, \<open>n\<close> the iterations left; it stops at the first mismatch.\<close>

fun pe_name_match :: "bytes \<Rightarrow> nat \<Rightarrow> string \<Rightarrow> nat \<Rightarrow> nat \<Rightarrow> bool option" where
  "pe_name_match bin hdr name j 0 = Some True"
| "pe_name_match bin hdr name j (Suc n) =
     do { c \<leftarrow> rd bin (hdr + j);
          if c \<noteq> (if j < length name then name ! j else NUL) then Some False
          else pe_name_match bin hdr name (j + 1) n }"

definition pe_section_data :: "bytes \<Rightarrow> nat \<Rightarrow> nat \<Rightarrow> bytes option option" where
  "pe_section_data bin hdr out_buf_size =
     do { virtual_size \<leftarrow> pe_read_u32_le bin (hdr + 8);
          size_of_raw_data \<leftarrow> pe_read_u32_le bin (hdr + 16);
          ptr_to_raw_data \<leftarrow> pe_read_u32_le bin (hdr + 20);
          let effective = (if virtual_size > 0 \<and> virtual_size \<le> size_of_raw_data
                           then virtual_size else size_of_raw_data);
          if effective = 0 then Some None
          else if unat ptr_to_raw_data > length bin then Some None
          else if unat effective > length bin - unat ptr_to_raw_data then Some None
          else if unat effective > out_buf_size then Some None
          else do { d \<leftarrow> memcpy_out bin (unat ptr_to_raw_data) (unat effective) out_buf_size; Some (Some d) } }"

text \<open>The section loop from index \<open>i\<close>, with \<open>n\<close> sections left.\<close>

fun pe_sections :: "bytes \<Rightarrow> nat \<Rightarrow> string \<Rightarrow> nat \<Rightarrow> nat \<Rightarrow> nat \<Rightarrow> bytes option option" where
  "pe_sections bin table name out_buf_size i 0 = Some None"
| "pe_sections bin table name out_buf_size i (Suc n) =
     do { let hdr = table + i * BYTHOS_PE_SECTION_HEADER_BYTES;
          m \<leftarrow> pe_name_match bin hdr name 0 BYTHOS_PE_SECTION_NAME_BYTES;
          if \<not> m then pe_sections bin table name out_buf_size (i + 1) n
          else pe_section_data bin hdr out_buf_size }"

definition pe_signature :: "bytes \<Rightarrow> nat \<Rightarrow> bool option" where
  "pe_signature bin pe =
     do { a \<leftarrow> rd bin pe; b \<leftarrow> rd bin (pe + 1); c \<leftarrow> rd bin (pe + 2); d \<leftarrow> rd bin (pe + 3);
          Some (a = CHR ''P'' \<and> b = CHR ''E'' \<and> c = NUL \<and> d = NUL) }"

text \<open>The headers: the offset of the section table and the number of sections, or rejection.\<close>

definition pe_coff :: "bytes \<Rightarrow> nat \<Rightarrow> (nat \<times> nat) option option" where
  "pe_coff bin pe_offset =
     do { ok \<leftarrow> pe_signature bin pe_offset;
          if \<not> ok then Some None
          else do {
            num_sections \<leftarrow> pe_read_u16_le bin (pe_offset + 4 + 2);
            opt_size \<leftarrow> pe_read_u16_le bin (pe_offset + 4 + 16);
            if num_sections = 0 \<or> unat num_sections > BYTHOS_PE_MAX_SECTIONS then Some None
            else do {
              let table = pe_offset + 4 + BYTHOS_PE_COFF_HEADER_BYTES + unat opt_size;
              if table > length bin then Some None
              else if unat num_sections * BYTHOS_PE_SECTION_HEADER_BYTES > length bin - table then Some None
              else Some (Some (table, unat num_sections)) } } }"

definition pe_headers :: "bytes \<Rightarrow> (nat \<times> nat) option option" where
  "pe_headers bin =
     (if length bin < BYTHOS_PE_DOS_HEADER_BYTES then Some None
      else do {
        m \<leftarrow> rd bin 0; z \<leftarrow> rd bin 1;
        if m \<noteq> CHR ''M'' \<or> z \<noteq> CHR ''Z'' then Some None
        else do {
          pe_offset \<leftarrow> pe_read_u32_le bin BYTHOS_PE_LFANEW_OFFSET;
          if unat pe_offset > length bin then Some None
          else if unat pe_offset + 4 + BYTHOS_PE_COFF_HEADER_BYTES > length bin then Some None
          else pe_coff bin (unat pe_offset) } })"

definition bythos_extract_pe_section :: "bytes \<Rightarrow> string \<Rightarrow> nat \<Rightarrow> bytes option option" where
  "bythos_extract_pe_section bin section_name out_buf_size =
     (if out_buf_size = 0 then Some None
      else do {
        headers \<leftarrow> pe_headers bin;
        (case headers of None \<Rightarrow> Some None
         | Some (table, num_sections) \<Rightarrow>
             if section_name = [] \<or> length section_name > BYTHOS_PE_SECTION_NAME_BYTES then Some None
             else pe_sections bin table section_name out_buf_size 0 num_sections) })"

section \<open>SBAT CSV\<close>

definition BYTHOS_SBAT_MAX_COMPONENTS :: nat where "BYTHOS_SBAT_MAX_COMPONENTS = 32"
definition BYTHOS_SBAT_SECTION_MAX_BYTES :: nat where "BYTHOS_SBAT_SECTION_MAX_BYTES = 8192"
definition BYTHOS_SBAT_COMPONENT_NAME_MAX :: nat where "BYTHOS_SBAT_COMPONENT_NAME_MAX = 64"

record sbat_entry =
  sb_component :: string
  sb_generation :: u32

definition sbat_line_end :: "char \<Rightarrow> bool" where
  "sbat_line_end c \<longleftrightarrow> c = LF \<or> c = CR \<or> c = NUL"

definition sbat_entry_of_line :: "string \<Rightarrow> sbat_entry option" where
  "sbat_entry_of_line line =
     (if line = [] then None
      else let comp = takeWhile (\<lambda>c. c \<noteq> CHR '','') line
      in if comp = line then None
      else if comp = [] \<or> BYTHOS_SBAT_COMPONENT_NAME_MAX \<le> length comp then None
      else let gen_str = takeWhile (\<lambda>c. c \<noteq> CHR '','') (drop (length comp + 1) line)
      in if gen_str = [] \<or> 16 < length gen_str then None
      else if hd gen_str = CHR ''-'' \<or> hd gen_str = CHR ''+'' then None
      else let (gen, endptr) = strtoul 10 gen_str
      in if endptr \<noteq> [] then None
      else if gen > UINT_MAX then None
      else Some \<lparr>sb_component = comp, sb_generation = word_of_nat gen\<rparr>)"

text \<open>The cursor after the line: past the line and one CR or LF.\<close>

definition sbat_next :: "string \<Rightarrow> string" where
  "sbat_next t =
     (let rest = dropWhile (\<lambda>c. \<not> sbat_line_end c) t
      in if rest \<noteq> [] \<and> (hd rest = LF \<or> hd rest = CR) then tl rest else rest)"

lemma sbat_next_shrinks:
  assumes "t \<noteq> []" "hd t \<noteq> NUL"
  shows "length (sbat_next t) < length t"
proof (cases "sbat_line_end (hd t)")
  case True
  with assms show ?thesis by (cases t) (auto simp: sbat_next_def sbat_line_end_def)
next
  case False
  with assms obtain c cs where t: "t = c # cs" "\<not> sbat_line_end c" by (cases t) auto
  then have "length (dropWhile (\<lambda>c. \<not> sbat_line_end c) t) < length t"
    by (simp add: length_dropWhile_le less_Suc_eq_le)
  then show ?thesis by (auto simp: sbat_next_def Let_def)
qed

text \<open>\<open>m\<close> is the room left in the array, the string the text from the cursor to \<open>text_len\<close>.\<close>

function sbat_loop :: "nat \<Rightarrow> string \<Rightarrow> sbat_entry list" where
  "sbat_loop m t =
     (if t = [] \<or> m = 0 \<or> hd t = NUL then []
      else (case sbat_entry_of_line (takeWhile (\<lambda>c. \<not> sbat_line_end c) t) of
              None \<Rightarrow> sbat_loop m (sbat_next t)
            | Some e \<Rightarrow> e # sbat_loop (m - 1) (sbat_next t)))"
  by pat_completeness auto
termination
  by (relation "measure (\<lambda>(m, t). length t)") (auto intro: sbat_next_shrinks)

declare sbat_loop.simps [simp del]

definition bythos_parse_sbat_csv :: "bytes \<Rightarrow> nat \<Rightarrow> sbat_entry list" where
  "bythos_parse_sbat_csv text max_entries = (if max_entries = 0 then [] else sbat_loop max_entries text)"

definition bythos_parse_sbat_revocation_minimums :: "cptr \<Rightarrow> nat \<Rightarrow> sbat_entry list" where
  "bythos_parse_sbat_revocation_minimums text max_entries =
     (case text of None \<Rightarrow> [] | Some t \<Rightarrow> bythos_parse_sbat_csv t max_entries)"

end
