(* ===== verification/BootChainCheck.thy ===== *)
theory BootChainCheck
  imports EfiBootParsers FirmwareParsers PeSbat Process
begin

text \<open>
  The check of the boot chain, \<open>check_boot_chain.c\<close>: the boot loader's version and SBAT
  generations, shim's signature, the permissions under \<open>/boot\<close> and the SBAT revocations.
\<close>

section \<open>Boot loader version\<close>

definition bootloader_tools :: "string list" where
  "bootloader_tools = [''grub-install'', ''grub2-install'', ''bootctl'']"

definition bootloader_version_row :: "env \<Rightarrow> check_result" where
  "bootloader_version_row e =
     (case find (bythos_command_exists e) bootloader_tools of
        None \<Rightarrow>
          if list_ex (bythos_command_untrusted e) bootloader_tools
          then row ''bootloader version'' CHECK_WARN
                 ''bootloader tool on PATH is not root-owned; refusing to run it as root''
          else row_skip_tool ''bootloader version'' ''bootloader tool''
      | Some tool \<Rightarrow>
          (let c = bythos_capture_argv_status e [tool, ''--version''] 256
           in if \<not> cap_success c \<or> cap_text c = []
              then row_skip_exec ''bootloader version'' ''bootloader''
              else row ''bootloader version'' CHECK_OK (snprintf_s 256 (prec_s 200 (trim_text (cap_text c))))))"

definition check_bootloader_version :: "env \<Rightarrow> nat \<Rightarrow> check_result list" where
  "check_bootloader_version e max_results = (if max_results = 0 then [] else [bootloader_version_row e])"

section \<open>Finding shim and grub\<close>

definition efi_binary_in :: "env \<Rightarrow> string list \<Rightarrow> string \<Rightarrow> string \<Rightarrow> string option" where
  "efi_binary_in e candidates vendor_path name =
     (let path = vendor_path @ ''/'' @ name
      in if bythos_to_lower_ascii name 256 \<in> set candidates \<and> length path < PATH_MAX then Some path else None)"

definition efi_vendor_binary :: "env \<Rightarrow> string list \<Rightarrow> string \<Rightarrow> string option" where
  "efi_vendor_binary e candidates vendor =
     (let vendor_path = bythos_esp_efi_base e @ ''/'' @ vendor
      in if starts_with vendor ''.'' then None
         else if length vendor_path \<ge> PATH_MAX then None
         else case env_names e vendor_path of None \<Rightarrow> None
           | Some names \<Rightarrow> first_some (efi_binary_in e candidates vendor_path) names)"

definition find_efi_binary :: "env \<Rightarrow> string list \<Rightarrow> string option" where
  "find_efi_binary e candidates =
     (case env_names e (bythos_esp_efi_base e) of None \<Rightarrow> None
      | Some vendors \<Rightarrow> first_some (efi_vendor_binary e candidates) vendors)"

datatype shim_resolution = SHIM_RESOLUTION_FOUND_BOOTED | SHIM_RESOLUTION_FOUND_ON_ESP
  | SHIM_RESOLUTION_FALLBACK_ALLOWED | SHIM_RESOLUTION_BOOTED_NON_SHIM
  | SHIM_RESOLUTION_BOOTCURRENT_UNRESOLVED

definition global_var :: "string \<Rightarrow> string" where
  "global_var v = ''/sys/firmware/efi/efivars/'' @ v @ ''-8be4df61-93ca-11d2-aa0d-00e098032b8c''"

text \<open>The file path of the booted entry, when BootCurrent leads to one.\<close>

definition booted_filepath :: "env \<Rightarrow> nat \<Rightarrow> string option" where
  "booted_filepath e num =
     (case bythos_read_file_binary_ex e (global_var (''Boot'' @ hex4_upper num)) 4096 of None \<Rightarrow> None
      | Some (buf, truncated) \<Rightarrow>
          if truncated then None
          else (case bythos_parse_efi_boot_entry (Some buf) (word_of_nat num) of
              Some (True, entry) \<Rightarrow> if be_filepath entry = [] then None else Some (be_filepath entry)
            | _ \<Rightarrow> None))"

definition shim_path_of :: "env \<Rightarrow> string \<Rightarrow> shim_resolution \<times> string" where
  "shim_path_of e filepath =
     (let norm = map (\<lambda>c. if c = BSL then CHR ''/'' else c) (take 255 filepath);
          norm_lower = bythos_to_lower_ascii norm 256
      in if \<not> has_sub norm_lower ''shimx64.efi'' \<and> \<not> has_sub norm_lower ''shimaa64.efi''
         then (SHIM_RESOLUTION_BOOTED_NON_SHIM, [])
         else case strstr norm_lower ''/efi/'' of
           None \<Rightarrow> (SHIM_RESOLUTION_BOOTCURRENT_UNRESOLVED, [])
         | Some efi \<Rightarrow>
             (let rel_off = length norm_lower - length efi + 5;
                  path = bythos_esp_efi_base e @ ''/'' @ drop rel_off norm
              in if rel_off \<ge> length norm then (SHIM_RESOLUTION_BOOTCURRENT_UNRESOLVED, [])
                 else if length path \<ge> PATH_MAX then (SHIM_RESOLUTION_BOOTCURRENT_UNRESOLVED, [])
                 else if bythos_file_exists e path then (SHIM_RESOLUTION_FOUND_BOOTED, path)
                 else (SHIM_RESOLUTION_BOOTCURRENT_UNRESOLVED, path)))"

definition find_booted_shim :: "env \<Rightarrow> shim_resolution \<times> string" where
  "find_booted_shim e =
     (case bythos_read_file_binary e (global_var ''BootCurrent'') 8 of
        None \<Rightarrow> (SHIM_RESOLUTION_FALLBACK_ALLOWED, [])
      | Some cur \<Rightarrow>
          if length cur < 6 then (SHIM_RESOLUTION_FALLBACK_ALLOWED, [])
          else (case booted_filepath e (byte_val (cur ! 4) OR push_bit 8 (byte_val (cur ! 5))) of
              None \<Rightarrow> (SHIM_RESOLUTION_BOOTCURRENT_UNRESOLVED, [])
            | Some filepath \<Rightarrow> shim_path_of e filepath))"

definition shim_candidates :: "string list" where
  "shim_candidates = [''shimx64.efi'', ''shimaa64.efi'']"

text \<open>The path when shim was found, and the resolution.\<close>

definition find_shim :: "env \<Rightarrow> string option \<times> shim_resolution" where
  "find_shim e =
     (let (resolution, path) = find_booted_shim e
      in if resolution = SHIM_RESOLUTION_FOUND_BOOTED then (Some path, resolution)
         else if resolution \<noteq> SHIM_RESOLUTION_FALLBACK_ALLOWED then (None, resolution)
         else case find_efi_binary e shim_candidates of
           Some p \<Rightarrow> (Some p, SHIM_RESOLUTION_FOUND_ON_ESP)
         | None \<Rightarrow> (None, SHIM_RESOLUTION_FALLBACK_ALLOWED))"

definition find_grub :: "env \<Rightarrow> string option" where
  "find_grub e = find_efi_binary e [''grubx64.efi'', ''grubaa64.efi'']"

section \<open>Shim's signature\<close>

definition shim_signature_row :: "env \<Rightarrow> check_result" where
  "shim_signature_row e =
     (case find_shim e of
        (None, resolution) \<Rightarrow>
          if resolution = SHIM_RESOLUTION_BOOTED_NON_SHIM
          then row_skip ''shim signature'' SKIP_SUBJECT_ABSENT ''booted via non-shim path''
          else if resolution = SHIM_RESOLUTION_BOOTCURRENT_UNRESOLVED
          then row_skip ''shim signature'' SKIP_OUTPUT_UNPARSEABLE ''BootCurrent path unresolved''
          else row_skip_subject ''shim signature'' ''shim''
      | (Some shim_path, resolution) \<Rightarrow>
          if \<not> bythos_command_exists e ''pesign''
          then row_skip_tool_or_untrusted e ''shim signature'' ''pesign'' ''pesign''
          else
            (let c = bythos_capture_argv_status e [''pesign'', ''--show-signature'', ''--in'', shim_path] 2048;
                 lower = bythos_to_lower_ascii (cap_text c) 2048;
                 subject = (if resolution = SHIM_RESOLUTION_FOUND_ON_ESP
                            then ''shim on ESP, not confirmed booted (BootCurrent unreadable)''
                            else ''booted shim'')
             in if \<not> cap_success c then make_skip ''shim signature'' SKIP_EXEC_FAILED (Some ''pesign query failed'')
                else if cap_text c = [] \<or> has_sub lower ''no signature''
                then row ''shim signature'' CHECK_FAIL (snprintf_s 256 (subject @ '': binary not signed''))
                else row ''shim signature'' CHECK_OK (snprintf_s 256 (subject @ '': signed; chain not validated''))))"

definition check_shim_signature :: "env \<Rightarrow> nat \<Rightarrow> check_result list" where
  "check_shim_signature e max_results = (if max_results = 0 then [] else [shim_signature_row e])"

section \<open>Permissions under /boot\<close>

record boot_scan =
  bs_count :: nat
  bs_any_warn :: bool
  bs_depth_exceeded :: bool
  bs_unverified_link :: bool
  bs_warn_detail :: string

definition boot_scan_zero :: boot_scan where
  "boot_scan_zero = \<lparr>bs_count = 0, bs_any_warn = False, bs_depth_exceeded = False,
     bs_unverified_link = False, bs_warn_detail = []\<rparr>"

definition note_boot_file_owner :: "string \<Rightarrow> file_stat \<Rightarrow> boot_scan \<Rightarrow> boot_scan" where
  "note_boot_file_owner name st s =
     (if bs_any_warn s then s
      else if st_uid st \<noteq> 0 then
        s\<lparr>bs_any_warn := True, bs_warn_detail := snprintf_s 256 (''file under /boot not root-owned: '' @ prec_s 200 name)\<rparr>
      else if group_world_writable (st_mode st) then
        s\<lparr>bs_any_warn := True,
          bs_warn_detail := snprintf_s 256 (''file under /boot world/group writable: '' @ prec_s 200 name)\<rparr>
      else s)"

text \<open>One directory entry; \<open>descend\<close> is what a subdirectory on the same device gets.\<close>

definition scan_boot_entry ::
    "env \<Rightarrow> nat \<Rightarrow> (string \<Rightarrow> boot_scan \<Rightarrow> boot_scan) \<Rightarrow> string \<Rightarrow> boot_scan \<Rightarrow> string \<Rightarrow> boot_scan" where
  "scan_boot_entry e device descend dir_path s name =
     (let path = dir_path @ ''/'' @ name
      in if starts_with name ''.'' then s
         else if length path \<ge> PATH_MAX then s
         else case env_lstat e path of None \<Rightarrow> s
           | Some st \<Rightarrow>
               if S_ISREG (st_mode st) then
                 (if st_dev st \<noteq> device then s
                  else note_boot_file_owner name st (s\<lparr>bs_count := bs_count s + 1\<rparr>))
               else if S_ISLNK (st_mode st) then
                 (case env_stat e path of
                    Some target \<Rightarrow>
                      if S_ISREG (st_mode target) \<and> st_dev target = device
                      then note_boot_file_owner name target s else s\<lparr>bs_unverified_link := True\<rparr>
                  | None \<Rightarrow> s\<lparr>bs_unverified_link := True\<rparr>)
               else if S_ISDIR (st_mode st) \<and> st_dev st = device then descend path s
               else s)"

definition scan_boot_names ::
    "env \<Rightarrow> nat \<Rightarrow> (string \<Rightarrow> boot_scan \<Rightarrow> boot_scan) \<Rightarrow> string \<Rightarrow> boot_scan \<Rightarrow> boot_scan" where
  "scan_boot_names e device descend dir_path s =
     (case env_names e dir_path of None \<Rightarrow> s
      | Some names \<Rightarrow> foldl (scan_boot_entry e device descend dir_path) s names)"

primrec scan_boot_dir :: "nat \<Rightarrow> env \<Rightarrow> nat \<Rightarrow> string \<Rightarrow> boot_scan \<Rightarrow> boot_scan" where
  "scan_boot_dir 0 = (\<lambda>e device. scan_boot_names e device (\<lambda>path s. s\<lparr>bs_depth_exceeded := True\<rparr>))"
| "scan_boot_dir (Suc max_depth) = (\<lambda>e device. scan_boot_names e device (scan_boot_dir max_depth e device))"

definition boot_fs_without_owners :: "string \<Rightarrow> bool" where
  "boot_fs_without_owners mounts \<longleftrightarrow>
     (case bythos_find_mount_entry mounts ''/boot'' (Some 64) None of None \<Rightarrow> False
      | Some (fstype, opts) \<Rightarrow> fstype = ''vfat'' \<or> fstype = ''msdos'' \<or> fstype = ''exfat'')"

definition boot_scan_row :: "boot_scan \<Rightarrow> check_result" where
  "boot_scan_row s =
     (if bs_count s = 0 then row_skip_subject ''/boot file permissions'' ''boot files''
      else if bs_any_warn s then row ''/boot file permissions'' CHECK_WARN (bs_warn_detail s)
      else if bs_depth_exceeded s
      then row_skip ''/boot file permissions'' SKIP_PROBE_INDETERMINATE
             ''directories deeper than this tool scans; some files unchecked''
      else if bs_unverified_link s
      then row_skip ''/boot file permissions'' SKIP_PROBE_INDETERMINATE
             ''some symlinks under /boot could not be verified''
      else row ''/boot file permissions'' CHECK_OK
             (snprintf_s 256 (dec_nat (bs_count s) @ '' '' @ bythos_pl (bs_count s) ''file'' ''files'' @
                '' under /boot, all root-owned and not writable'')))"

definition boot_permissions_row :: "env \<Rightarrow> check_result" where
  "boot_permissions_row e =
     (case env_stat e ''/boot'' of
        None \<Rightarrow> row_skip_exec ''/boot file permissions'' ''/boot''
      | Some boot_st \<Rightarrow>
          (case bythos_read_file_text_ex e ''/proc/mounts'' 65536 of
             None \<Rightarrow> row_skip_exec ''/boot file permissions'' ''/proc/mounts''
           | Some (mounts, truncated) \<Rightarrow>
               if truncated
               then row_skip ''/boot file permissions'' SKIP_PROBE_INDETERMINATE
                      ''mount table larger than this tool reads''
               else if boot_fs_without_owners mounts
               then row_skip ''/boot file permissions'' SKIP_FEATURE_ABSENT
                      ''this filesystem stores no per-file ownership''
               else boot_scan_row (scan_boot_dir 3 e (st_dev boot_st) ''/boot'' boot_scan_zero)))"

definition check_boot_permissions :: "env \<Rightarrow> nat \<Rightarrow> check_result list" where
  "check_boot_permissions e max_results = (if max_results = 0 then [] else [boot_permissions_row e])"

section \<open>SBAT generations\<close>

definition BOOTLOADER_SBAT_BIN_BUF_BYTES :: nat where "BOOTLOADER_SBAT_BIN_BUF_BYTES = 4 * 1024 * 1024"
definition BOOTLOADER_SBAT_REV_BUF_BYTES :: nat where "BOOTLOADER_SBAT_REV_BUF_BYTES = 4096"

record sbat_collect =
  sc_entries :: "sbat_entry list"
  sc_any_section :: bool
  sc_binary_truncated :: bool

definition collect_sbat_entries :: "env \<Rightarrow> string \<Rightarrow> sbat_collect \<Rightarrow> sbat_collect" where
  "collect_sbat_entries e bin_path s =
     (if bin_path = [] \<or> length (sc_entries s) \<ge> BYTHOS_SBAT_MAX_COMPONENTS then s
      else case bythos_read_file_binary_ex e bin_path BOOTLOADER_SBAT_BIN_BUF_BYTES of None \<Rightarrow> s
        | Some (bin, truncated) \<Rightarrow>
            if truncated then s\<lparr>sc_binary_truncated := True\<rparr>
            else (case bythos_extract_pe_section bin ''.sbat'' BYTHOS_SBAT_SECTION_MAX_BYTES of
                Some (Some section) \<Rightarrow>
                  s\<lparr>sc_any_section := True,
                    sc_entries := sc_entries s @ bythos_parse_sbat_csv section
                      (BYTHOS_SBAT_MAX_COMPONENTS - length (sc_entries s))\<rparr>
              | _ \<Rightarrow> s))"

definition collect_installed :: "env \<Rightarrow> sbat_collect" where
  "collect_installed e =
     (let s = \<lparr>sc_entries = [], sc_any_section = False, sc_binary_truncated = False\<rparr>;
          s = (case fst (find_shim e) of None \<Rightarrow> s | Some p \<Rightarrow> collect_sbat_entries e p s)
      in case find_grub e of None \<Rightarrow> s | Some p \<Rightarrow> collect_sbat_entries e p s)"

text \<open>The strictest minimum for a component: (\<open>worst_revoked\<close>, \<open>any_match\<close>).\<close>

definition worst_revoked :: "string \<Rightarrow> sbat_entry list \<Rightarrow> u32 \<times> bool" where
  "worst_revoked component revoked =
     foldl (\<lambda>(worst, any_match) r.
        if component \<noteq> sb_component r then (worst, any_match)
        else (if sb_generation r > worst then sb_generation r else worst, True)) (0, False) revoked"

definition below_minimum :: "sbat_entry list \<Rightarrow> sbat_entry \<Rightarrow> bool" where
  "below_minimum revoked inst \<longleftrightarrow>
     (let (worst, any_match) = worst_revoked (sb_component inst) revoked
      in any_match \<and> sb_generation inst < worst)"

definition sbat_verdict_row :: "sbat_entry list \<Rightarrow> sbat_entry list \<Rightarrow> check_result" where
  "sbat_verdict_row revoked insts =
     (case find (below_minimum revoked) insts of
        Some inst \<Rightarrow> row ''bootloader SBAT'' CHECK_WARN
          (snprintf_s 256 (prec_s (BYTHOS_SBAT_COMPONENT_NAME_MAX - 1) (sb_component inst) @ '' generation '' @
             dec_nat (unat (sb_generation inst)) @ '' below revoked minimum '' @
             dec_nat (unat (fst (worst_revoked (sb_component inst) revoked)))))
      | None \<Rightarrow> row ''bootloader SBAT'' CHECK_OK ''installed generations satisfy SBAT revocations'')"

text \<open>\<open>bythos_trim\<close> cuts the buffer's trailing white space in place; the parser reads the buffer after it.\<close>

definition trimmed_buffer :: "string \<Rightarrow> string" where
  "trimmed_buffer buf = (if trim_text buf = [] then buf else takeWhile c_isspace buf @ trim_text buf)"

definition mokutil_revocations :: "env \<Rightarrow> capture" where
  "mokutil_revocations e =
     bythos_capture_argv_status_ex e [''mokutil'', ''--list-sbat-revocations''] BOOTLOADER_SBAT_REV_BUF_BYTES"

definition bootloader_sbat_row :: "env \<Rightarrow> check_result" where
  "bootloader_sbat_row e =
     (let inst = collect_installed e; rev = mokutil_revocations e;
          revoked = bythos_parse_sbat_revocation_minimums (Some (trimmed_buffer (cap_text rev)))
                      BYTHOS_SBAT_MAX_COMPONENTS
      in if fst (find_shim e) = None \<and> find_grub e = None
         then row_skip ''bootloader SBAT'' SKIP_SUBJECT_ABSENT ''shim/grub binary not present on this host''
         else if sc_binary_truncated inst
         then row_skip ''bootloader SBAT'' SKIP_OUTPUT_UNPARSEABLE
                ''bootloader larger than this tool reads; SBAT not inspected''
         else if \<not> sc_any_section inst
         then row_skip ''bootloader SBAT'' SKIP_FEATURE_ABSENT ''EFI bootloader SBAT section not found''
         else if sc_entries inst = []
         then row_skip ''bootloader SBAT'' SKIP_OUTPUT_UNPARSEABLE ''SBAT section not parseable''
         else if \<not> bythos_command_exists e ''mokutil''
         then row_skip_tool_or_untrusted e ''bootloader SBAT'' ''mokutil'' ''mokutil''
         else if \<not> cap_success rev then row_skip_exec ''bootloader SBAT'' ''mokutil''
         else if cap_truncated rev
         then row_skip ''bootloader SBAT'' SKIP_OUTPUT_UNPARSEABLE ''revocation list truncated; verdict unreliable''
         else if \<not> bythos_sbat_entries_present (bythos_trim (Some (cap_text rev)))
         then row_skip ''bootloader SBAT'' SKIP_PROBE_INDETERMINATE ''no SBAT revocation policy applied''
         else if revoked = []
         then row_skip ''bootloader SBAT'' SKIP_PROBE_INDETERMINATE ''no SBAT revocation policy applied''
         else sbat_verdict_row revoked (sc_entries inst))"

definition check_bootloader_sbat :: "env \<Rightarrow> nat \<Rightarrow> check_result list" where
  "check_bootloader_sbat e max_results = (if max_results = 0 then [] else [bootloader_sbat_row e])"

definition sbat_revocations_row :: "env \<Rightarrow> check_result" where
  "sbat_revocations_row e =
     (let c = bythos_capture_argv_status e [''mokutil'', ''--list-sbat-revocations''] 4096
      in if \<not> bythos_command_exists e ''mokutil''
         then row_skip_tool_or_untrusted e ''SBAT revocations'' ''mokutil'' ''mokutil''
         else if \<not> cap_success c then row_skip_exec ''SBAT revocations'' ''mokutil''
         else if \<not> bythos_sbat_entries_present (bythos_trim (Some (cap_text c)))
         then row ''SBAT revocations'' CHECK_WARN ''no revocation entries applied''
         else row ''SBAT revocations'' CHECK_OK ''revocation entries present'')"

definition check_sbat_revocations :: "env \<Rightarrow> nat \<Rightarrow> check_result list" where
  "check_sbat_revocations e max_results = (if max_results = 0 then [] else [sbat_revocations_row e])"

section \<open>The check\<close>

definition bythos_check_boot_chain :: "env \<Rightarrow> nat \<Rightarrow> check_result list" where
  "bythos_check_boot_chain e max_results =
     (if max_results = 0 then []
      else run_parts [check_bootloader_version, check_bootloader_sbat, check_shim_signature,
                      check_boot_permissions, check_sbat_revocations] e max_results [])"

definition boot_chain_rows :: "env \<Rightarrow> check_result list" where
  "boot_chain_rows e = [bootloader_version_row e, bootloader_sbat_row e, shim_signature_row e,
     boot_permissions_row e, sbat_revocations_row e]"

lemma wf_boot_scan_row: "wf_row (boot_scan_row s)"
  by (simp add: boot_scan_row_def)

lemma wf_sbat_verdict_row: "wf_row (sbat_verdict_row r i)"
  by (simp add: sbat_verdict_row_def split: option.split)

lemma wf_boot_chain_rows [row_simps]:
  "wf_row (bootloader_version_row e)" "wf_row (bootloader_sbat_row e)" "wf_row (shim_signature_row e)"
  "wf_row (boot_permissions_row e)" "wf_row (sbat_revocations_row e)"
  by (simp_all add: bootloader_version_row_def bootloader_sbat_row_def shim_signature_row_def
      boot_permissions_row_def sbat_revocations_row_def wf_boot_scan_row wf_sbat_verdict_row wf_make_skip Let_def
      split: option.split prod.split)

lemma check_boot_chain_parts: "bythos_check_boot_chain e m =
   run_parts [check_bootloader_version, check_bootloader_sbat, check_shim_signature,
              check_boot_permissions, check_sbat_revocations] e m []"
  by (simp add: bythos_check_boot_chain_def check_bootloader_version_def check_bootloader_sbat_def
      check_shim_signature_def check_boot_permissions_def check_sbat_revocations_def)

interpretation boot_chain: check_fn bythos_check_boot_chain boot_chain_rows 5
  by (rule check_fn_parts [where part_rows = "[\<lambda>e. [bootloader_version_row e], \<lambda>e. [bootloader_sbat_row e],
        \<lambda>e. [shim_signature_row e], \<lambda>e. [boot_permissions_row e], \<lambda>e. [sbat_revocations_row e]]",
        OF check_boot_chain_parts])
    (simp_all add: boot_chain_rows_def check_bootloader_version_def check_bootloader_sbat_def
      check_shim_signature_def check_boot_permissions_def check_sbat_revocations_def row_simps)

end
