(* ===== verification/HsiParsers.thy ===== *)
theory HsiParsers
  imports Prelude
begin

text \<open>
  The scanner of \<open>fwupdtool security --json\<close> in \<open>src/firmware_parsers.c\<close>. A pointer into the
  text is the suffix that starts there, so \<open>p < bound\<close> is \<open>before p bound\<close> on lengths, and the
  text between two pointers is \<open>span_text p q\<close>.
\<close>

datatype hsi_action = HSI_ACTION_NONE | HSI_ACTION_OEM | HSI_ACTION_FIRMWARE | HSI_ACTION_OS

record hsi_attribute =
  ha_result :: string
  ha_success :: string
  ha_action :: hsi_action
  ha_passing :: bool

definition BYTHOS_HSI_ID_MAX :: nat where "BYTHOS_HSI_ID_MAX = 96"
definition BYTHOS_HSI_NOT_PASSING_MAX_IDS :: nat where "BYTHOS_HSI_NOT_PASSING_MAX_IDS = 32"
definition BYTHOS_HSI_FLAGS_BUFFER_BYTES :: nat where "BYTHOS_HSI_FLAGS_BUFFER_BYTES = 256"

text \<open>\<open>named\<close> is the length of \<open>np_id\<close>.\<close>

record hsi_not_passing =
  np_total :: nat
  np_not_supported :: nat
  np_id :: "string list"

section \<open>Keys and pointers\<close>

definition quoted :: "string \<Rightarrow> string" where
  "quoted s = DQ # s @ [DQ]"

definition APPSTREAM_ID_KEY :: string where "APPSTREAM_ID_KEY = quoted ''AppstreamId''"
definition HSI_RESULT_KEY :: string where "HSI_RESULT_KEY = quoted ''HsiResult''"
definition HSI_SUCCESS_KEY :: string where "HSI_SUCCESS_KEY = quoted ''HsiResultSuccess''"
definition FLAGS_KEY :: string where "FLAGS_KEY = quoted ''Flags''"
definition SUCCESS_TOKEN :: string where "SUCCESS_TOKEN = quoted ''success''"

definition before :: "string \<Rightarrow> string \<Rightarrow> bool" where
  "before p bound \<longleftrightarrow> length bound < length p"

definition span_text :: "string \<Rightarrow> string \<Rightarrow> string" where
  "span_text p q = take (length p - length q) p"

text \<open>\<open>strchr\<close> or \<open>strstr\<close>, kept only when the match is before the bound.\<close>

definition within :: "string \<Rightarrow> string option \<Rightarrow> string option" where
  "within bound p = (case p of None \<Rightarrow> None | Some q \<Rightarrow> if before q bound then Some q else None)"

section \<open>Values\<close>

definition extract_quoted_value :: "string \<Rightarrow> nat \<Rightarrow> string \<Rightarrow> nat \<Rightarrow> string option" where
  "extract_quoted_value key_pos key_len bound out_size =
     do { colon \<leftarrow> within bound (strchr (drop key_len key_pos) (CHR '':''));
          q1 \<leftarrow> within bound (strchr (tl colon) DQ);
          q2 \<leftarrow> within bound (strchr (tl q1) DQ);
          Some (take (out_size - 1) (span_text (tl q1) q2)) }"

definition hsi_ws :: "char \<Rightarrow> bool" where
  "hsi_ws c \<longleftrightarrow> is_blank c \<or> is_eol c"

definition hsi_value_span :: "string \<Rightarrow> nat \<Rightarrow> string \<Rightarrow> string option" where
  "hsi_value_span key_pos key_len bound =
     (let p = dropWhile hsi_ws (drop key_len (span_text key_pos bound))
      in if p = [] \<or> hd p \<noteq> CHR '':'' then None
         else let p = dropWhile hsi_ws (tl p)
         in if p = [] \<or> hd p \<noteq> DQ then None
         else if DQ \<notin> set (tl p) then None
         else Some (takeWhile (\<lambda>c. c \<noteq> DQ) (tl p)))"

definition hsi_id_reproducible :: "string \<Rightarrow> bool" where
  "hsi_id_reproducible value \<longleftrightarrow>
     value \<noteq> [] \<and> length value < BYTHOS_HSI_ID_MAX \<and>
     list_all (\<lambda>c. 0x20 \<le> byte_val c \<and> byte_val c \<le> 0x7e \<and> c \<noteq> BSL) value"

section \<open>The attributes that do not pass\<close>

text \<open>One record: the text from its id key to the next one.\<close>

definition hsi_passing :: "string \<Rightarrow> string \<Rightarrow> bool" where
  "hsi_passing from bound =
     (case within bound (strstr from FLAGS_KEY) of None \<Rightarrow> False
      | Some flags_key \<Rightarrow> within bound (strstr flags_key SUCCESS_TOKEN) \<noteq> None)"

definition hsi_not_supported :: "string \<Rightarrow> string \<Rightarrow> bool" where
  "hsi_not_supported id_key bound =
     (case within bound (strstr id_key HSI_RESULT_KEY) of None \<Rightarrow> False
      | Some result_key \<Rightarrow>
          hsi_value_span result_key (length HSI_RESULT_KEY) bound = Some ''not-supported'')"

definition hsi_collect_record :: "string \<Rightarrow> string \<Rightarrow> hsi_not_passing \<Rightarrow> hsi_not_passing" where
  "hsi_collect_record id_key bound out =
     (if hsi_passing id_key bound then out
      else
        (let out = out\<lparr>np_total := np_total out + 1\<rparr>
         in if hsi_not_supported id_key bound
            then out\<lparr>np_not_supported := np_not_supported out + 1\<rparr>
            else if length (np_id out) < BYTHOS_HSI_NOT_PASSING_MAX_IDS then
              (case hsi_value_span id_key (length APPSTREAM_ID_KEY) bound of None \<Rightarrow> out
               | Some v \<Rightarrow> if hsi_id_reproducible v then out\<lparr>np_id := np_id out @ [v]\<rparr> else out)
            else out))"

definition hsi_bound :: "string \<Rightarrow> string" where
  "hsi_bound from = (case strstr from APPSTREAM_ID_KEY of Some next_id \<Rightarrow> next_id | None \<Rightarrow> [])"

lemma hsi_bound_shrinks:
  assumes "strstr cursor APPSTREAM_ID_KEY = Some id_key"
  shows "length (hsi_bound (drop (length APPSTREAM_ID_KEY) id_key)) < length cursor"
proof -
  from strstr_SomeD [OF assms] have "id_key \<noteq> []" "length id_key \<le> length cursor"
    by (auto simp: APPSTREAM_ID_KEY_def quoted_def dest: suffix_length_le)
  moreover have "length (hsi_bound x) \<le> length x" for x
    by (auto simp: hsi_bound_def dest: strstr_length split: option.splits)
  then have "length (hsi_bound (drop (length APPSTREAM_ID_KEY) id_key))
      \<le> length (drop (length APPSTREAM_ID_KEY) id_key)" .
  moreover have "length (drop (length APPSTREAM_ID_KEY) id_key) < length id_key"
    using \<open>id_key \<noteq> []\<close> by (simp add: APPSTREAM_ID_KEY_def quoted_def)
  ultimately show ?thesis by linarith
qed

function hsi_collect_loop :: "string \<Rightarrow> hsi_not_passing \<Rightarrow> hsi_not_passing" where
  "hsi_collect_loop cursor out =
     (case strstr cursor APPSTREAM_ID_KEY of None \<Rightarrow> out
      | Some id_key \<Rightarrow>
          (let bound = hsi_bound (drop (length APPSTREAM_ID_KEY) id_key)
           in hsi_collect_loop bound (hsi_collect_record id_key bound out)))"
  by pat_completeness auto
termination
  by (relation "measure (\<lambda>(c, out). length c)") (auto intro: hsi_bound_shrinks)

declare hsi_collect_loop.simps [simp del]

definition bythos_hsi_collect_not_passing :: "cptr \<Rightarrow> hsi_not_passing" where
  "bythos_hsi_collect_not_passing json =
     (let zero = \<lparr>np_total = 0, np_not_supported = 0, np_id = []\<rparr>
      in case json of None \<Rightarrow> zero | Some j \<Rightarrow> hsi_collect_loop j zero)"

definition bythos_hsi_count_not_passing :: "cptr \<Rightarrow> nat" where
  "bythos_hsi_count_not_passing json = np_total (bythos_hsi_collect_not_passing json)"

section \<open>One attribute by id\<close>

text \<open>The flag array, cut at its closing bracket and at the buffer's size.\<close>

definition hsi_flags_action :: "string \<Rightarrow> string \<Rightarrow> hsi_action" where
  "hsi_flags_action flags_key bound =
     (case strchr (drop (length FLAGS_KEY) flags_key) (CHR ''['') of None \<Rightarrow> HSI_ACTION_NONE
      | Some opn \<Rightarrow>
          (case within bound (strchr opn (CHR '']'')) of None \<Rightarrow> HSI_ACTION_NONE
           | Some cls \<Rightarrow>
               (let arr = take (BYTHOS_HSI_FLAGS_BUFFER_BYTES - 1) (span_text opn cls)
                in if has_sub arr ''action-contact-oem'' then HSI_ACTION_OEM
                   else if has_sub arr ''action-config-fw'' then HSI_ACTION_FIRMWARE
                   else if has_sub arr ''action-config-os'' then HSI_ACTION_OS
                   else HSI_ACTION_NONE)))"

text \<open>\<open>rest\<close> is \<open>q2 + 1\<close>, the text after the matching id value.\<close>

definition hsi_read_attribute :: "string \<Rightarrow> hsi_attribute option" where
  "hsi_read_attribute rest =
     (let bound = hsi_bound rest
      in do {
        hsi_key \<leftarrow> within bound (strstr rest HSI_RESULT_KEY);
        result \<leftarrow> extract_quoted_value hsi_key (length HSI_RESULT_KEY) bound 64;
        let success = (case within bound (strstr rest HSI_SUCCESS_KEY) of None \<Rightarrow> []
                       | Some succ_key \<Rightarrow>
                           (case extract_quoted_value succ_key (length HSI_SUCCESS_KEY) bound 64 of
                              None \<Rightarrow> [] | Some v \<Rightarrow> v));
        let action = (case within bound (strstr rest FLAGS_KEY) of None \<Rightarrow> HSI_ACTION_NONE
                      | Some flags_key \<Rightarrow> hsi_flags_action flags_key bound);
        Some \<lparr>ha_result = result, ha_success = success, ha_action = action,
              ha_passing = hsi_passing rest bound\<rparr> })"

definition next_id_value :: "string \<Rightarrow> (string \<times> string) option" where
  "next_id_value cursor =
     do { id_key \<leftarrow> strstr cursor APPSTREAM_ID_KEY;
          colon \<leftarrow> strchr (drop (length APPSTREAM_ID_KEY) id_key) (CHR '':'');
          q1 \<leftarrow> strchr (tl colon) DQ;
          q2 \<leftarrow> strchr (tl q1) DQ;
          Some (span_text (tl q1) q2, tl q2) }"

lemma next_id_value_shrinks:
  assumes "next_id_value cursor = Some (v, rest)"
  shows "length rest < length cursor"
proof -
  from assms obtain a b c d where
    "strstr cursor APPSTREAM_ID_KEY = Some a" "strchr (drop (length APPSTREAM_ID_KEY) a) (CHR '':'') = Some b"
    "strchr (tl b) DQ = Some c" "strchr (tl c) DQ = Some d" "rest = tl d"
    by (auto simp: next_id_value_def bind_eq_Some_conv)
  then have "length a \<le> length cursor" "length b \<le> length (drop (length APPSTREAM_ID_KEY) a)"
    "length c \<le> length (tl b)" "length d \<le> length (tl c)" "d \<noteq> []"
    by (auto dest: strstr_length strchr_length strchr_SomeD)
  with \<open>rest = tl d\<close> show ?thesis by (cases d) auto
qed

function hsi_find_loop :: "string \<Rightarrow> string \<Rightarrow> hsi_attribute option" where
  "hsi_find_loop appstream_id cursor =
     (case next_id_value cursor of None \<Rightarrow> None
      | Some (v, rest) \<Rightarrow> if v = appstream_id then hsi_read_attribute rest
                          else hsi_find_loop appstream_id rest)"
  by pat_completeness auto
termination
  by (relation "measure (\<lambda>(i, c). length c)") (auto intro: next_id_value_shrinks)

declare hsi_find_loop.simps [simp del]

definition bythos_hsi_find_attribute :: "cptr \<Rightarrow> string \<Rightarrow> hsi_attribute option" where
  "bythos_hsi_find_attribute json appstream_id =
     (case json of None \<Rightarrow> None | Some j \<Rightarrow> hsi_find_loop appstream_id j)"

end
