(* ===== verification/FwupdCheck.thy ===== *)
theory FwupdCheck
  imports SiliconParsers FirmwareParsers HsiParsers
begin

text \<open>
  The check of \<open>check_fwupd.c\<close>: the service and remote rows, then one row for each HSI attribute
  the program knows (with the vendor's own), Boot Guard, and the row that accounts for every
  attribute that does not pass and has no row.
\<close>

definition HSI_REPORTED_MAX :: nat where "HSI_REPORTED_MAX = 48"

text \<open>\<open>hr_id\<close> holds the first \<open>min count 48\<close> entries of the array.\<close>

record hsi_reported =
  hr_id :: "string list"
  hr_count :: nat
  hr_not_supported :: nat

definition hsi_reported_zero :: hsi_reported where
  "hsi_reported_zero = \<lparr>hr_id = [], hr_count = 0, hr_not_supported = 0\<rparr>"

definition hsi_mark_reported :: "hsi_reported \<Rightarrow> string \<Rightarrow> string \<Rightarrow> hsi_reported" where
  "hsi_mark_reported reported ident result =
     \<lparr>hr_id = (if hr_count reported < HSI_REPORTED_MAX then hr_id reported @ [ident] else hr_id reported),
      hr_count = hr_count reported + 1,
      hr_not_supported = (if result = ''not-supported'' then hr_not_supported reported + 1
                          else hr_not_supported reported)\<rparr>"

definition hsi_already_reported :: "hsi_reported \<Rightarrow> string \<Rightarrow> bool" where
  "hsi_already_reported reported ident \<longleftrightarrow>
     (let n = (if hr_count reported < HSI_REPORTED_MAX then hr_count reported else HSI_REPORTED_MAX)
      in list_ex (\<lambda>x. x = ident) (take n (hr_id reported)))"

text \<open>
  \<open>hsi_unmapped_detail\<close>: the text written to \<open>out\<close> and the function's result; \<open>None\<close> when it
  returns false before writing.
\<close>

definition hsi_aside :: "nat \<Rightarrow> string" where
  "hsi_aside inapplicable =
     (if 0 < inapplicable then ''; '' @ dec_nat inapplicable @ '' more not-supported (inapplicable)'' else [])"

definition hsi_unmapped_text :: "nat \<Rightarrow> string \<Rightarrow> nat \<Rightarrow> nat \<Rightarrow> string" where
  "hsi_unmapped_text hidden names named inapplicable =
     dec_nat hidden @ '' further fwupd '' @ bythos_pl hidden ''attribute is'' ''attributes are'' @
     (if named = 0
      then '' not passing, unidentified'' @ hsi_aside inapplicable
      else if named = hidden
      then '' not passing: '' @ names @ hsi_aside inapplicable
      else '' not passing: '' @ names @ '' (+'' @ dec_nat (hidden - named) @ '' unidentified)'' @ hsi_aside inapplicable) @
     ''; run: fwupdmgr security''"

definition hsi_unmapped_detail :: "nat \<Rightarrow> nat \<Rightarrow> string \<Rightarrow> nat \<Rightarrow> nat \<Rightarrow> (string \<times> bool) option" where
  "hsi_unmapped_detail sz hidden names named inapplicable =
     (if 64 \<le> length (hsi_aside inapplicable) then None
      else let written = hsi_unmapped_text hidden names named inapplicable
           in Some (snprintf_s sz written, length written < sz))"

fun action_suffix :: "hsi_action \<Rightarrow> string" where
  "action_suffix HSI_ACTION_OEM = ''; OEM-controlled''"
| "action_suffix HSI_ACTION_FIRMWARE = ''; configurable in BIOS''"
| "action_suffix HSI_ACTION_OS = ''; configurable in OS''"
| "action_suffix HSI_ACTION_NONE = []"

definition hsi_format_warn :: "hsi_attribute \<Rightarrow> nat \<Rightarrow> string" where
  "hsi_format_warn attr sz = snprintf_s sz (ha_result attr @ action_suffix (ha_action attr))"

section \<open>Service, remote and update rows\<close>

definition fwupd_service_row :: "env \<Rightarrow> check_result" where
  "fwupd_service_row e =
     (case bythos_probe_systemd_service e ''fwupd.service'' of
        SERVICE_STATE_SYSTEMCTL_UNAVAILABLE \<Rightarrow> row_skip_tool_or_untrusted e ''fwupd service'' ''systemctl'' ''systemd''
      | SERVICE_STATE_ACTIVE \<Rightarrow> row ''fwupd service'' CHECK_OK ''running''
      | SERVICE_STATE_INACTIVE \<Rightarrow> row ''fwupd service'' CHECK_WARN ''installed but inactive''
      | SERVICE_STATE_MISSING \<Rightarrow> row ''fwupd service'' CHECK_WARN ''not installed''
      | SERVICE_STATE_UNKNOWN \<Rightarrow> row_skip_probe ''fwupd service'' ''systemctl'')"

definition refresh_timer_row :: "env \<Rightarrow> check_result" where
  "refresh_timer_row e =
     (case bythos_probe_systemd_service e ''fwupd-refresh.timer'' of
        SERVICE_STATE_SYSTEMCTL_UNAVAILABLE \<Rightarrow> row_skip_tool_or_untrusted e ''auto-refresh timer'' ''systemctl'' ''systemd''
      | SERVICE_STATE_ACTIVE \<Rightarrow> row ''auto-refresh timer'' CHECK_OK ''active''
      | SERVICE_STATE_INACTIVE \<Rightarrow> row ''auto-refresh timer'' CHECK_WARN ''inactive''
      | SERVICE_STATE_MISSING \<Rightarrow> row_skip_subject ''auto-refresh timer'' ''fwupd-refresh.timer''
      | SERVICE_STATE_UNKNOWN \<Rightarrow> row_skip_probe ''auto-refresh timer'' ''systemctl'')"

definition lvfs_conf_candidates :: "string list" where
  "lvfs_conf_candidates = [''/etc/fwupd/remotes.d/lvfs.conf'', ''/usr/share/fwupd/remotes.d/lvfs.conf'']"

definition lvfs_row :: "env \<Rightarrow> check_result" where
  "lvfs_row e =
     (if \<not> bythos_command_exists e ''fwupdmgr'' then row_skip_tool_or_untrusted e ''LVFS remote'' ''fwupdmgr'' ''fwupd''
      else case find (bythos_file_exists e) lvfs_conf_candidates of
        None \<Rightarrow> row ''LVFS remote'' CHECK_WARN ''lvfs.conf not found''
      | Some lvfs_conf \<Rightarrow>
          (case bythos_read_key_value e lvfs_conf ''Enabled'' 32 of
             None \<Rightarrow> row ''LVFS remote'' CHECK_WARN ''Enabled key not found''
           | Some enabled \<Rightarrow>
               if enabled = ''true'' then row ''LVFS remote'' CHECK_OK ''enabled''
               else row ''LVFS remote'' CHECK_WARN ''not enabled''))"

definition inventory_row :: "env \<Rightarrow> check_result" where
  "inventory_row e =
     (if \<not> bythos_command_exists e ''fwupdmgr'' then row_skip_tool_or_untrusted e ''firmware inventory'' ''fwupdmgr'' ''fwupd''
      else if bythos_run_argv_quiet e [''fwupdmgr'', ''get-devices''] = 0
      then row ''firmware inventory'' CHECK_OK ''device list available''
      else row_skip_exec ''firmware inventory'' ''fwupdmgr'')"

definition cap_status :: "capture \<Rightarrow> int" where
  "cap_status c = (case cap_exit c of None \<Rightarrow> -1 | Some code \<Rightarrow> int code)"

definition update_row :: "env \<Rightarrow> check_result" where
  "update_row e =
     (let c = bythos_capture_argv_status e [''fwupdmgr'', ''get-updates''] 2048;
          updates = bythos_parse_fwupd_updates (Some (cap_text c)) (cap_status c)
      in if \<not> bythos_command_exists e ''fwupdmgr''
         then row_skip_tool_or_untrusted e ''firmware update status'' ''fwupdmgr'' ''fwupd''
         else if \<not> cap_ok c then row_skip_exec ''firmware update status'' ''fwupdmgr''
         else if updates = FWUPD_UPDATES_NONE then row ''firmware update status'' CHECK_OK ''no updates available''
         else if updates = FWUPD_UPDATES_AVAILABLE then row ''firmware update status'' CHECK_WARN ''updates available''
         else row_skip_probe ''firmware update status'' ''fwupdmgr'')"

definition history_row :: "env \<Rightarrow> check_result" where
  "history_row e =
     (let c = bythos_capture_argv_status e [''fwupdmgr'', ''get-history''] 2048; hist = cap_text c
      in if \<not> bythos_command_exists e ''fwupdmgr''
         then row_skip_tool_or_untrusted e ''firmware update history'' ''fwupdmgr'' ''fwupd''
         else if \<not> cap_ok c then row_skip_exec ''firmware update history'' ''fwupdmgr''
         else if cap_exit c \<noteq> Some 0 then
           (if hist = [] \<or> has_sub hist ''No history'' \<or> has_sub hist ''no history'' \<or>
               has_sub hist ''No firmware updates''
            then row_skip_subject ''firmware update history'' ''firmware history''
            else row_skip_exec ''firmware update history'' ''fwupdmgr'')
         else if hist \<noteq> [] then row ''firmware update history'' CHECK_OK ''available''
         else row_skip_subject ''firmware update history'' ''firmware history'')"

definition fwupd_base_rows :: "env \<Rightarrow> check_result list" where
  "fwupd_base_rows e =
     [fwupd_service_row e, refresh_timer_row e, lvfs_row e, inventory_row e, update_row e, history_row e]"

section \<open>The HSI report\<close>

text \<open>\<open>hs_detail\<close> is \<open>hsi_skip_detail\<close>: NULL exactly when the report may be read.\<close>

record hsi_source =
  hs_json :: string
  hs_reason :: skip_reason
  hs_detail :: cptr
  hs_untrusted :: bool

definition hsi_source_of :: "env \<Rightarrow> hsi_source" where
  "hsi_source_of e =
     (let has = bythos_command_exists e ''fwupdmgr'';
          c = bythos_capture_argv_status_ex e [''fwupdmgr'', ''security'', ''--json''] 65536;
          json = cap_text c;
          truncated = (has \<and> cap_truncated c);
          ok = (has \<and> cap_success c \<and> \<not> truncated \<and> json \<noteq> [])
      in if ok then \<lparr>hs_json = json, hs_reason = SKIP_NONE, hs_detail = None, hs_untrusted = False\<rparr>
         else if truncated then
           \<lparr>hs_json = json, hs_reason = SKIP_OUTPUT_UNPARSEABLE,
            hs_detail = Some ''fwupdmgr output truncated'', hs_untrusted = False\<rparr>
         else if has then
           \<lparr>hs_json = json, hs_reason = SKIP_EXEC_FAILED,
            hs_detail = Some ''fwupdmgr query failed'', hs_untrusted = False\<rparr>
         else if bythos_command_untrusted e ''fwupdmgr'' then
           \<lparr>hs_json = [], hs_reason = SKIP_NONE,
            hs_detail = Some ''fwupdmgr on PATH is not root-owned; refusing to run it as root'',
            hs_untrusted = True\<rparr>
         else \<lparr>hs_json = [], hs_reason = SKIP_TOOL_ABSENT,
                hs_detail = Some ''requires fwupd'', hs_untrusted = False\<rparr>)"

text \<open>\<open>EMIT_HSI_UNAVAILABLE\<close>.\<close>

definition hsi_unavailable_row :: "hsi_source \<Rightarrow> string \<Rightarrow> check_result" where
  "hsi_unavailable_row s name =
     (if hs_untrusted s then make_result name CHECK_WARN (hs_detail s)
      else if hs_reason s = SKIP_TOOL_ABSENT then make_skip_actionable name (hs_reason s) (hs_detail s)
      else make_skip name (hs_reason s) (hs_detail s))"

text \<open>The arguments of one \<open>EMIT_HSI\<close>: name, id, positive value and the OK message.\<close>

type_synonym hsi_entry = "string \<times> string \<times> string \<times> string"

definition hsi_attr_ok :: "hsi_attribute \<Rightarrow> string \<Rightarrow> bool" where
  "hsi_attr_ok a positive \<longleftrightarrow>
     (ha_success a \<noteq> [] \<and> ha_result a = ha_success a) \<or> (ha_success a = [] \<and> ha_result a = positive)"

definition hsi_row :: "hsi_source \<Rightarrow> hsi_entry \<Rightarrow> check_result" where
  "hsi_row s entry =
     (case entry of (name, ident, positive, ok_msg) \<Rightarrow>
        if hs_detail s \<noteq> None then hsi_unavailable_row s name
        else case bythos_hsi_find_attribute (Some (hs_json s)) ident of
          None \<Rightarrow> row_skip name SKIP_FEATURE_ABSENT ''not reported''
        | Some a \<Rightarrow>
            if ha_result a = ''not-supported'' then row_skip name SKIP_FEATURE_ABSENT ''not supported''
            else if hsi_attr_ok a positive then row name CHECK_OK ok_msg
            else row name CHECK_WARN (hsi_format_warn a BYTHOS_DETAIL_MAX))"

definition hsi_mark_if_failing :: "hsi_source \<Rightarrow> hsi_reported \<Rightarrow> string \<Rightarrow> hsi_reported" where
  "hsi_mark_if_failing s reported ident =
     (if hs_detail s \<noteq> None then reported
      else case bythos_hsi_find_attribute (Some (hs_json s)) ident of
        None \<Rightarrow> reported
      | Some a \<Rightarrow> if ha_passing a then reported else hsi_mark_reported reported ident (ha_result a))"

text \<open>\<open>EMIT_HSI\<close>: the row and the mark, both only while there is room.\<close>

definition emit_hsi ::
  "hsi_source \<Rightarrow> nat \<Rightarrow> check_result list \<times> hsi_reported \<Rightarrow> hsi_entry \<Rightarrow> check_result list \<times> hsi_reported" where
  "emit_hsi s max_results st entry =
     (let (results, reported) = st
      in if length results < max_results
         then (results @ [hsi_row s entry], hsi_mark_if_failing s reported (fst (snd entry)))
         else (results, reported))"

definition hsi_universal :: "hsi_entry list" where
  "hsi_universal =
    [(''HSI: platform fused'', ''org.fwupd.hsi.PlatformFused'', ''locked'', ''security fuses set''),
     (''HSI: debug locked'', ''org.fwupd.hsi.PlatformDebugLocked'', ''locked'', ''locked''),
     (''HSI: Secure Boot'', ''org.fwupd.hsi.Uefi.SecureBoot'', ''enabled'', ''enabled''),
     (''HSI: UEFI PK'', ''org.fwupd.hsi.Uefi.Pk'', ''valid'', ''enrolled''),
     (''HSI: UEFI db'', ''org.fwupd.hsi.Uefi.Db'', ''valid'', ''valid''),
     (''HSI: UEFI boot variables'', ''org.fwupd.hsi.Uefi.BootserviceVars'', ''locked'', ''locked''),
     (''HSI: capsule updates'', ''org.fwupd.hsi.Bios.CapsuleUpdates'', ''enabled'', ''authentication enabled''),
     (''HSI: TPM 2.0'', ''org.fwupd.hsi.Tpm.Version20'', ''found'', ''present''),
     (''HSI: TPM empty PCR'', ''org.fwupd.hsi.Tpm.EmptyPcr'', ''valid'', ''no unexpected empty PCRs''),
     (''HSI: TPM PCR0 reconstruction'', ''org.fwupd.hsi.Tpm.ReconstructionPcr0'', ''valid'', ''valid''),
     (''HSI: IOMMU'', ''org.fwupd.hsi.Iommu'', ''enabled'', ''enabled''),
     (''HSI: pre-boot DMA protection'', ''org.fwupd.hsi.PrebootDma'', ''enabled'', ''active''),
     (''HSI: encrypted RAM'', ''org.fwupd.hsi.EncryptedRam'', ''enabled'', ''memory encryption active'')]"

definition hsi_amd :: "hsi_entry list" where
  "hsi_amd =
    [(''HSI: platform secure boot'', ''org.fwupd.hsi.Amd.PlatformSecureBoot'', ''enabled'', ''fused at factory''),
     (''HSI: SMM locked'', ''org.fwupd.hsi.Amd.SmmLocked'', ''locked'', ''locked''),
     (''HSI: SPI replay protection'', ''org.fwupd.hsi.Amd.SpiReplayProtection'', ''enabled'', ''enabled''),
     (''HSI: firmware rollback protection'', ''org.fwupd.hsi.Amd.RollbackProtection'', ''enabled'', ''enabled''),
     (''HSI: SPI write protection'', ''org.fwupd.hsi.Amd.SpiWriteProtection'', ''enabled'', ''enabled'')]"

definition hsi_intel :: "hsi_entry list" where
  "hsi_intel =
    [(''HSI: SPI BIOSWE'', ''org.fwupd.hsi.Spi.Bioswe'', ''valid'', ''BIOS write-enable clear''),
     (''HSI: SPI BLE'', ''org.fwupd.hsi.Spi.Ble'', ''valid'', ''BIOS lock enabled''),
     (''HSI: SPI SMM_BWP'', ''org.fwupd.hsi.Spi.SmmBwp'', ''valid'', ''SMM write protection enabled''),
     (''HSI: ME manufacturing mode'', ''org.fwupd.hsi.Mei.ManufacturingMode'', ''locked'', ''not in manufacturing mode''),
     (''HSI: Boot Guard ACM'', ''org.fwupd.hsi.IntelBootguard.Acm'', ''valid'', ''valid''),
     (''HSI: Boot Guard policy'', ''org.fwupd.hsi.IntelBootguard.Policy'', ''valid'', ''valid'')]"

definition hsi_entries :: "cpu_vendor \<Rightarrow> hsi_entry list" where
  "hsi_entries vendor =
     hsi_universal @ (if vendor = CPU_VENDOR_AMD then hsi_amd else []) @
     (if vendor = CPU_VENDOR_INTEL then hsi_intel else [])"

section \<open>Boot Guard\<close>

definition BG_ENABLED :: string where "BG_ENABLED = ''org.fwupd.hsi.IntelBootguard.Enabled''"
definition BG_VERIFIED :: string where "BG_VERIFIED = ''org.fwupd.hsi.IntelBootguard.Verified''"

definition boot_guard_row :: "hsi_source \<Rightarrow> check_result" where
  "boot_guard_row s =
     (if hs_detail s \<noteq> None then hsi_unavailable_row s ''HSI: Boot Guard''
      else case bythos_hsi_find_attribute (Some (hs_json s)) BG_ENABLED of
        None \<Rightarrow> row_skip ''HSI: Boot Guard'' SKIP_FEATURE_ABSENT ''not reported''
      | Some en \<Rightarrow>
          if ha_result en = ''not-supported'' then row_skip ''HSI: Boot Guard'' SKIP_FEATURE_ABSENT ''not supported''
          else if ha_result en \<noteq> ''enabled''
          then row ''HSI: Boot Guard'' CHECK_WARN (hsi_format_warn en BYTHOS_DETAIL_MAX)
          else case bythos_hsi_find_attribute (Some (hs_json s)) BG_VERIFIED of
            Some ver \<Rightarrow> if ha_result ver \<noteq> ''enabled'' then row ''HSI: Boot Guard'' CHECK_WARN ''measurement-only''
                        else row ''HSI: Boot Guard'' CHECK_OK ''enabled and verified''
          | None \<Rightarrow> row ''HSI: Boot Guard'' CHECK_OK ''enabled and verified'')"

text \<open>Marks both attributes whether or not there is room for the row.\<close>

definition boot_guard_marks :: "hsi_source \<Rightarrow> hsi_reported \<Rightarrow> hsi_reported" where
  "boot_guard_marks s reported =
     hsi_mark_if_failing s (hsi_mark_if_failing s reported BG_ENABLED) BG_VERIFIED"

definition emit_boot_guard ::
  "hsi_source \<Rightarrow> cpu_vendor \<Rightarrow> nat \<Rightarrow> check_result list \<times> hsi_reported \<Rightarrow> check_result list \<times> hsi_reported" where
  "emit_boot_guard s vendor max_results st =
     (if vendor = CPU_VENDOR_INTEL
      then (emit max_results (fst st) (boot_guard_row s), boot_guard_marks s (snd st))
      else st)"

section \<open>The attributes without a row\<close>

text \<open>
  The naming loop: the identifiers left, the names so far, how many, and the detail. \<open>next_names\<close>
  has the size of \<open>names\<close>, \<open>BYTHOS_DETAIL_MAX\<close>. The detail is \<open>None\<close> while nothing was written to it.
\<close>

fun name_loop ::
  "hsi_reported \<Rightarrow> nat \<Rightarrow> nat \<Rightarrow> string list \<Rightarrow> string \<Rightarrow> nat \<Rightarrow> cptr \<Rightarrow> string \<times> nat \<times> cptr" where
  "name_loop reported hidden inapplicable [] names named detail = (names, named, detail)"
| "name_loop reported hidden inapplicable (i # ids) names named detail =
     (if \<not> named < hidden then (names, named, detail)
      else if hsi_already_reported reported i
      then name_loop reported hidden inapplicable ids names named detail
      else let next_names = names @ (if named = 0 then [] else '', '') @ i
           in if BYTHOS_DETAIL_MAX \<le> length next_names then (names, named, detail)
              else case hsi_unmapped_detail BYTHOS_DETAIL_MAX hidden next_names (named + 1) inapplicable of
                Some (next_detail, True) \<Rightarrow>
                  name_loop reported hidden inapplicable ids next_names (named + 1) (Some next_detail)
              | _ \<Rightarrow> (names, named, detail))"

definition unmapped_warn_detail :: "hsi_reported \<Rightarrow> nat \<Rightarrow> nat \<Rightarrow> string list \<Rightarrow> cptr" where
  "unmapped_warn_detail reported hidden inapplicable ids =
     snd (snd (name_loop reported hidden inapplicable ids [] 0
       (map_option fst (hsi_unmapped_detail BYTHOS_DETAIL_MAX hidden [] 0 inapplicable))))"

definition unmapped_row :: "hsi_source \<Rightarrow> hsi_reported \<Rightarrow> check_result" where
  "unmapped_row s reported =
     (if hs_detail s \<noteq> None then hsi_unavailable_row s ''HSI: unmapped attributes''
      else
        (let not_passing = bythos_hsi_collect_not_passing (Some (hs_json s));
             weak = np_total not_passing - np_not_supported not_passing;
             reported_weak = (if hr_not_supported reported < hr_count reported
                              then hr_count reported - hr_not_supported reported else 0);
             inapplicable = (if hr_not_supported reported < np_not_supported not_passing
                             then np_not_supported not_passing - hr_not_supported reported else 0)
         in if reported_weak < weak then
              make_result ''HSI: unmapped attributes'' CHECK_WARN
                (unmapped_warn_detail reported (weak - reported_weak) inapplicable (np_id not_passing))
            else if 0 < inapplicable then
              row ''HSI: unmapped attributes'' CHECK_OK
                (snprintf_s BYTHOS_DETAIL_MAX
                  (dec_nat inapplicable @ '' further fwupd '' @
                   bythos_pl inapplicable ''attribute is'' ''attributes are'' @
                   '' not-supported, so inapplicable; nothing else not passing is unreported''))
            else row ''HSI: unmapped attributes'' CHECK_OK ''every fwupd attribute not passing is reported above''))"

section \<open>The check\<close>

definition bythos_check_fwupd :: "env \<Rightarrow> nat \<Rightarrow> check_result list" where
  "bythos_check_fwupd e max_results =
     (let s = hsi_source_of e; vendor = bythos_cpu_vendor e;
          base = emit_all max_results [] (fwupd_base_rows e);
          st = foldl (emit_hsi s max_results) (base, hsi_reported_zero) (hsi_entries vendor);
          (results, reported) = emit_boot_guard s vendor max_results st
      in emit max_results results (unmapped_row s reported))"

text \<open>With room enough: every row, and every mark.\<close>

definition fwupd_marks :: "hsi_source \<Rightarrow> cpu_vendor \<Rightarrow> hsi_reported" where
  "fwupd_marks s vendor =
     (let r = foldl (hsi_mark_if_failing s) hsi_reported_zero (map (fst \<circ> snd) (hsi_entries vendor))
      in if vendor = CPU_VENDOR_INTEL then boot_guard_marks s r else r)"

definition hsi_rows :: "hsi_source \<Rightarrow> cpu_vendor \<Rightarrow> check_result list" where
  "hsi_rows s vendor =
     map (hsi_row s) (hsi_entries vendor) @ (if vendor = CPU_VENDOR_INTEL then [boot_guard_row s] else [])"

definition fwupd_rows :: "env \<Rightarrow> check_result list" where
  "fwupd_rows e =
     (let s = hsi_source_of e; vendor = bythos_cpu_vendor e
      in fwupd_base_rows e @ hsi_rows s vendor @ [unmapped_row s (fwupd_marks s vendor)])"

lemma take_take_append: "take m (take m xs @ ys) = take m (xs @ ys)"
  by (cases "length xs \<le> m") auto

lemma emit_hsi_fold:
  "length rs \<le> m \<Longrightarrow>
     fst (foldl (emit_hsi s m) (rs, rep) es) = take m (rs @ map (hsi_row s) es) \<and>
     (length rs + length es \<le> m \<longrightarrow>
        snd (foldl (emit_hsi s m) (rs, rep) es) = foldl (hsi_mark_if_failing s) rep (map (fst \<circ> snd) es))"
proof (induction es arbitrary: rs rep)
  case (Cons x es)
  show ?case
  proof (cases "length rs < m")
    case True
    with Cons.IH [of "rs @ [hsi_row s x]" "hsi_mark_if_failing s rep (fst (snd x))"]
    show ?thesis by (simp add: emit_hsi_def)
  next
    case False
    with Cons.prems Cons.IH [of rs rep] show ?thesis by (simp add: emit_hsi_def)
  qed
qed simp

lemma fwupd_prefix: "bythos_check_fwupd e m = take m (fwupd_rows e)"
proof -
  define s where "s = hsi_source_of e"
  define v where "v = bythos_cpu_vendor e"
  define rs rep where "rs = fst (foldl (emit_hsi s m) (take m (fwupd_base_rows e), hsi_reported_zero) (hsi_entries v))"
    and "rep = snd (foldl (emit_hsi s m) (take m (fwupd_base_rows e), hsi_reported_zero) (hsi_entries v))"
  note f = emit_hsi_fold [of "take m (fwupd_base_rows e)" m s hsi_reported_zero "hsi_entries v"]
  have rs: "rs = take m (fwupd_base_rows e @ map (hsi_row s) (hsi_entries v))"
    using f unfolding rs_def by (metis length_take min.cobounded2 take_take_append)
  define bg where "bg = (if v = CPU_VENDOR_INTEL then [boot_guard_row s] else [])"
  define rep' where "rep' = (if v = CPU_VENDOR_INTEL then boot_guard_marks s rep else rep)"
  have chk: "bythos_check_fwupd e m = emit m (emit_all m rs bg) (unmapped_row s rep')"
    by (simp add: bythos_check_fwupd_def Let_def emit_boot_guard_def rs_def rep_def bg_def rep'_def
        s_def v_def emit_all_Cons split: prod.split)
  have len: "length rs \<le> m" by (simp add: rs)
  have all: "emit_all m rs bg = take m (fwupd_base_rows e @ hsi_rows s v)"
    unfolding emit_all_take [OF len] unfolding rs take_take_append hsi_rows_def bg_def by (simp only: append_assoc)
  show ?thesis
  proof (cases "length (fwupd_base_rows e @ hsi_rows s v) < m")
    case True
    then have "rep' = fwupd_marks s v"
      using f by (simp add: rep'_def rep_def fwupd_marks_def hsi_rows_def Let_def split: if_splits)
    with True chk all show ?thesis
      by (simp add: fwupd_rows_def emit_def s_def [symmetric] v_def [symmetric] Let_def)
  next
    case False
    with chk all show ?thesis
      by (simp add: fwupd_rows_def emit_def s_def [symmetric] v_def [symmetric] Let_def)
  qed
qed

lemma wf_hsi_unavailable: "hs_detail (hsi_source_of e) \<noteq> None \<Longrightarrow> wf_row (hsi_unavailable_row (hsi_source_of e) n)"
  by (auto simp: hsi_unavailable_row_def hsi_source_of_def Let_def wf_make_result wf_make_skip split: if_splits)

lemma wf_fwupd_base1: "wf_row (fwupd_service_row e)" "wf_row (refresh_timer_row e)"
  by (simp_all add: fwupd_service_row_def refresh_timer_row_def split: service_state.split)

lemma wf_fwupd_base2: "wf_row (lvfs_row e)" "wf_row (inventory_row e)" "wf_row (update_row e)"
  by (simp_all add: lvfs_row_def inventory_row_def update_row_def Let_def split: option.split)

lemma wf_history_row: "wf_row (history_row e)"
  by (simp add: history_row_def Let_def)

lemma wf_fwupd_base [row_simps]: "list_all wf_row (fwupd_base_rows e)" "length (fwupd_base_rows e) = 6"
  by (simp_all add: fwupd_base_rows_def wf_fwupd_base1 wf_fwupd_base2 wf_history_row)

lemma wf_hsi_row: "wf_row (hsi_row (hsi_source_of e) x)" "wf_row (boot_guard_row (hsi_source_of e))"
    "wf_row (unmapped_row (hsi_source_of e) r)"
  using wf_hsi_unavailable [of e]
  by (auto simp: hsi_row_def boot_guard_row_def unmapped_row_def Let_def wf_make_result split: prod.split option.split)

lemma hsi_rows_length: "length (hsi_rows s v) \<le> 20"
  by (cases v) (simp_all add: hsi_rows_def hsi_entries_def hsi_universal_def hsi_amd_def hsi_intel_def)

interpretation fwupd: check_fn bythos_check_fwupd fwupd_rows 27
proof
  fix e :: env and m :: nat and r :: check_result
  show "bythos_check_fwupd e m = take m (fwupd_rows e)" by (rule fwupd_prefix)
  show "fwupd_rows e \<noteq> []" by (simp add: fwupd_rows_def Let_def)
  show "length (fwupd_rows e) \<le> 27"
    using hsi_rows_length [of "hsi_source_of e" "bythos_cpu_vendor e"]
    by (simp add: fwupd_rows_def Let_def row_simps)
  show "wf_row r" if "r \<in> set (fwupd_rows e)"
    using that wf_fwupd_base(1) [of e] wf_hsi_row [of e]
    by (auto simp: fwupd_rows_def Let_def hsi_rows_def list_all_iff split: if_splits)
qed

end
