(* ===== verification/CheckGroups.thy ===== *)
theory CheckGroups
  imports JsonDoc ChecksPlatform ChecksTpm LuksCheck BiosBootCheck EspCheck SecurebootCheck BootChainCheck FwupdCheck
begin

text \<open>
  The group runner of \<open>check_groups.c\<close>: the table of subgroups, the loop that fills one subgroup
  from its check functions with room for one row more than is left, and the summary of its rows.
\<close>

definition BYTHOS_SUBGROUP_MAX_FNS :: nat where "BYTHOS_SUBGROUP_MAX_FNS = 6"
definition BYTHOS_MAX_GROUP_SUBGROUPS :: nat where "BYTHOS_MAX_GROUP_SUBGROUPS = 16"

type_synonym check_function = "env \<Rightarrow> nat \<Rightarrow> check_result list"

record subgroup_def =
  sd_name :: string
  sd_fns :: "check_function list"

definition subgroup_init :: "string \<Rightarrow> check_subgroup" where
  "subgroup_init name =
     \<lparr>sg_name = name, sg_results = [], sg_truncated = False, sg_summary = summary_zero\<rparr>"

definition subgroup_finalize :: "check_subgroup \<Rightarrow> check_subgroup" where
  "subgroup_finalize sg = sg\<lparr>sg_summary := foldl bythos_summary_add (sg_summary sg) (sg_results sg)\<rparr>"

text \<open>
  The inner loop. A check is offered \<open>remaining + 1\<close> slots (the array has one more slot than the
  limit), so a check with too much to say is noticed; what it wrote past the limit is dropped.
\<close>

fun run_fns :: "env \<Rightarrow> check_function list \<Rightarrow> check_subgroup \<Rightarrow> check_subgroup" where
  "run_fns e [] sg = sg"
| "run_fns e (f # fs) sg =
     (if BYTHOS_MAX_SUBGROUP_RESULTS \<le> length (sg_results sg) then sg\<lparr>sg_truncated := True\<rparr>
      else
        (let remaining = BYTHOS_MAX_SUBGROUP_RESULTS - length (sg_results sg);
             written = f e (remaining + 1)
         in if remaining < length written
            then run_fns e fs (sg\<lparr>sg_results := sg_results sg @ take remaining written, sg_truncated := True\<rparr>)
            else run_fns e fs (sg\<lparr>sg_results := sg_results sg @ written\<rparr>)))"

definition run_subgroup :: "env \<Rightarrow> subgroup_def \<Rightarrow> check_subgroup" where
  "run_subgroup e d =
     subgroup_finalize (run_fns e (take BYTHOS_SUBGROUP_MAX_FNS (sd_fns d)) (subgroup_init (sd_name d)))"

definition run_subgroups :: "env \<Rightarrow> subgroup_def list \<Rightarrow> nat \<Rightarrow> check_subgroup list" where
  "run_subgroups e defs max_subgroups = map (run_subgroup e) (take max_subgroups defs)"

definition firmware_subgroups :: "subgroup_def list" where
  "firmware_subgroups =
    [\<lparr>sd_name = ''efi'', sd_fns = [bythos_check_efi]\<rparr>,
     \<lparr>sd_name = ''secure boot'', sd_fns = [bythos_check_secureboot, bythos_check_sbctl]\<rparr>,
     \<lparr>sd_name = ''boot chain'', sd_fns = [bythos_check_bios_boot, bythos_check_boot_chain]\<rparr>,
     \<lparr>sd_name = ''esp'', sd_fns = [bythos_check_esp_posture]\<rparr>,
     \<lparr>sd_name = ''tpm'', sd_fns = [bythos_check_tpm]\<rparr>,
     \<lparr>sd_name = ''luks'', sd_fns = [bythos_check_luks]\<rparr>,
     \<lparr>sd_name = ''platform firmware'',
      sd_fns = [bythos_check_bios_cntl, bythos_check_me_version, bythos_check_dci, bythos_check_chipsec]\<rparr>,
     \<lparr>sd_name = ''platform dma'', sd_fns = [bythos_check_iommu, bythos_check_bolt_dma]\<rparr>,
     \<lparr>sd_name = ''cpu'', sd_fns = [bythos_check_microcode, bythos_check_memory_encryption]\<rparr>,
     \<lparr>sd_name = ''fwupd'', sd_fns = [bythos_check_fwupd]\<rparr>]"

definition bythos_check_firmware :: "env \<Rightarrow> nat \<Rightarrow> check_subgroup list" where
  "bythos_check_firmware e max_subgroups = run_subgroups e firmware_subgroups max_subgroups"

section \<open>A subgroup over checks that keep the contract\<close>

text \<open>
  A list of checks, each of which keeps the contract \<open>check_fn\<close> with its rows. The locale states
  that interface of the runner once; the subgroups of the table are its instances.
\<close>

locale subgroup_checks =
  fixes fns :: "check_function list" and rows :: "(env \<Rightarrow> check_result list) list"
  assumes contracts: "list_all2 (\<lambda>f r. \<exists>cap. check_fn f r cap) fns rows"
begin

definition all_rows :: "env \<Rightarrow> check_result list" where
  "all_rows e = concat (map (\<lambda>r. r e) rows)"

lemma all_rows_wf: "list_all wf_row (all_rows e)"
  unfolding all_rows_def using contracts
  by (induction rule: list_all2_induct) (auto simp: list_all_iff check_fn.rows_wf)

end

lemma run_fns_full:
  assumes "list_all2 (\<lambda>f r. \<exists>cap. check_fn f r cap) fs rows" "length (sg_results sg) = BYTHOS_MAX_SUBGROUP_RESULTS"
  shows "run_fns e fs sg = sg\<lparr>sg_truncated := sg_truncated sg \<or> concat (map (\<lambda>r. r e) rows) \<noteq> []\<rparr>"
proof (cases fs)
  case Nil
  with assms(1) show ?thesis by simp
next
  case (Cons f fs')
  with assms(1) obtain r rows' cap where r: "rows = r # rows'" "check_fn f r cap"
    by (auto simp: list_all2_Cons1)
  then have "r e \<noteq> []" by (simp add: check_fn.rows_nonempty)
  with Cons r assms(2) show ?thesis by simp
qed

text \<open>
  The subgroup holds the first rows of its checks up to the limit, and says that it is truncated
  exactly when there were more.
\<close>

lemma run_fns_spec:
  assumes "list_all2 (\<lambda>f r. \<exists>cap. check_fn f r cap) fs rows" "length (sg_results sg) \<le> BYTHOS_MAX_SUBGROUP_RESULTS"
  shows "run_fns e fs sg = sg\<lparr>sg_results := take BYTHOS_MAX_SUBGROUP_RESULTS (sg_results sg @ concat (map (\<lambda>r. r e) rows)),
      sg_truncated := sg_truncated sg \<or>
        BYTHOS_MAX_SUBGROUP_RESULTS < length (sg_results sg @ concat (map (\<lambda>r. r e) rows))\<rparr>"
  using assms
proof (induction fs rows arbitrary: sg rule: list_all2_induct)
  case Nil
  then show ?case by simp
next
  case (Cons f fs r rows)
  let ?M = BYTHOS_MAX_SUBGROUP_RESULTS
  from Cons.hyps(1) obtain cap where c: "check_fn f r cap" ..
  show ?case
  proof (cases "length (sg_results sg) = ?M")
    case True
    have "list_all2 (\<lambda>f r. \<exists>cap. check_fn f r cap) (f # fs) (r # rows)" using Cons.hyps by simp
    moreover have "r e \<noteq> []" by (rule check_fn.rows_nonempty [OF c])
    ultimately show ?thesis using run_fns_full [of "f # fs" "r # rows", OF _ True, of e] True
      by simp
  next
    case False
    define rem where "rem = ?M - length (sg_results sg)"
    have rem: "0 < rem" "?M = length (sg_results sg) + rem" using False Cons.prems by (simp_all add: rem_def)
    have w: "f e (rem + 1) = take (rem + 1) (r e)" by (rule check_fn.chk_prefix [OF c])
    show ?thesis
    proof (cases "rem < length (r e)")
      case True
      let ?sg = "sg\<lparr>sg_results := sg_results sg @ take rem (r e), sg_truncated := True\<rparr>"
      have "run_fns e (f # fs) sg = run_fns e fs ?sg"
        using True False Cons.prems rem w by (simp add: rem_def [symmetric] Let_def min_def)
      also have "\<dots> = ?sg"
        using Cons.IH [of ?sg] True unfolding rem(2) by simp
      finally show ?thesis using True unfolding rem(2) by simp
    next
      case fits: False
      let ?sg = "sg\<lparr>sg_results := sg_results sg @ r e\<rparr>"
      have "run_fns e (f # fs) sg = run_fns e fs ?sg"
        using fits False Cons.prems rem w by (simp add: rem_def [symmetric] Let_def)
      with Cons.IH [of ?sg] fits rem show ?thesis by simp
    qed
  qed
qed

context subgroup_checks begin

lemma run_subgroup_spec:
  "length fns \<le> BYTHOS_SUBGROUP_MAX_FNS \<Longrightarrow>
     run_subgroup e \<lparr>sd_name = n, sd_fns = fns\<rparr> =
       \<lparr>sg_name = n, sg_results = take BYTHOS_MAX_SUBGROUP_RESULTS (all_rows e),
        sg_truncated = (BYTHOS_MAX_SUBGROUP_RESULTS < length (all_rows e)),
        sg_summary = summary_of (take BYTHOS_MAX_SUBGROUP_RESULTS (all_rows e))\<rparr>"
  by (simp add: run_subgroup_def subgroup_finalize_def run_fns_spec [OF contracts] subgroup_init_def
      all_rows_def summary_fold)

text \<open>With no more rows than the limit, every row is there.\<close>

lemma run_subgroup_complete:
  "length fns \<le> BYTHOS_SUBGROUP_MAX_FNS \<Longrightarrow> length (all_rows e) \<le> BYTHOS_MAX_SUBGROUP_RESULTS \<Longrightarrow>
     run_subgroup e \<lparr>sd_name = n, sd_fns = fns\<rparr> =
       \<lparr>sg_name = n, sg_results = all_rows e, sg_truncated = False, sg_summary = summary_of (all_rows e)\<rparr>"
  by (simp add: run_subgroup_spec)

end

section \<open>The subgroups of the table\<close>

lemmas check_contracts = efi.check_fn_axioms secureboot.check_fn_axioms sbctl.check_fn_axioms
  bios_boot.check_fn_axioms boot_chain.check_fn_axioms esp_posture.check_fn_axioms tpm.check_fn_axioms
  luks.check_fn_axioms bios_cntl.check_fn_axioms me_version.check_fn_axioms dci.check_fn_axioms
  chipsec.check_fn_axioms iommu.check_fn_axioms bolt.check_fn_axioms microcode.check_fn_axioms
  memory_encryption.check_fn_axioms fwupd.check_fn_axioms

lemma contract_Cons:
  "check_fn f r cap \<Longrightarrow> list_all2 (\<lambda>f r. \<exists>cap. check_fn f r cap) fs rs \<Longrightarrow>
     list_all2 (\<lambda>f r. \<exists>cap. check_fn f r cap) (f # fs) (r # rs)"
  by auto

interpretation sg_efi: subgroup_checks "[bythos_check_efi]" "[efi_rows]"
  by (rule subgroup_checks.intro) ((rule contract_Cons check_contracts list.rel_intros(1))+)

interpretation sg_secure_boot: subgroup_checks "[bythos_check_secureboot, bythos_check_sbctl]" "[secureboot_rows, sbctl_rows]"
  by (rule subgroup_checks.intro) ((rule contract_Cons check_contracts list.rel_intros(1))+)

interpretation sg_boot_chain: subgroup_checks "[bythos_check_bios_boot, bythos_check_boot_chain]" "[bios_boot_rows, boot_chain_rows]"
  by (rule subgroup_checks.intro) ((rule contract_Cons check_contracts list.rel_intros(1))+)

interpretation sg_esp: subgroup_checks "[bythos_check_esp_posture]" "[esp_posture_rows]"
  by (rule subgroup_checks.intro) ((rule contract_Cons check_contracts list.rel_intros(1))+)

interpretation sg_tpm: subgroup_checks "[bythos_check_tpm]" "[tpm_rows]"
  by (rule subgroup_checks.intro) ((rule contract_Cons check_contracts list.rel_intros(1))+)

interpretation sg_luks: subgroup_checks "[bythos_check_luks]" "[luks_rows]"
  by (rule subgroup_checks.intro) ((rule contract_Cons check_contracts list.rel_intros(1))+)

interpretation sg_platform: subgroup_checks
  "[bythos_check_bios_cntl, bythos_check_me_version, bythos_check_dci, bythos_check_chipsec]"
  "[bios_cntl_rows, me_version_rows, dci_rows, chipsec_rows]"
  by (rule subgroup_checks.intro) ((rule contract_Cons check_contracts list.rel_intros(1))+)

interpretation sg_dma: subgroup_checks "[bythos_check_iommu, bythos_check_bolt_dma]" "[iommu_rows, bolt_rows]"
  by (rule subgroup_checks.intro) ((rule contract_Cons check_contracts list.rel_intros(1))+)

interpretation sg_cpu: subgroup_checks "[bythos_check_microcode, bythos_check_memory_encryption]" "[microcode_rows, memory_encryption_rows]"
  by (rule subgroup_checks.intro) ((rule contract_Cons check_contracts list.rel_intros(1))+)

interpretation sg_fwupd: subgroup_checks "[bythos_check_fwupd]" "[fwupd_rows]"
  by (rule subgroup_checks.intro) ((rule contract_Cons check_contracts list.rel_intros(1))+)

text \<open>The report a run should give: the names and the rows of the ten subgroups, in order.\<close>

definition report :: "env \<Rightarrow> (string \<times> check_result list) list" where
  "report e =
    [(''efi'', efi_rows e),
     (''secure boot'', secureboot_rows e @ sbctl_rows e),
     (''boot chain'', bios_boot_rows e @ boot_chain_rows e),
     (''esp'', esp_posture_rows e),
     (''tpm'', tpm_rows e),
     (''luks'', luks_rows e),
     (''platform firmware'', bios_cntl_rows e @ me_version_rows e @ dci_rows e @ chipsec_rows e),
     (''platform dma'', iommu_rows e @ bolt_rows e),
     (''cpu'', microcode_rows e @ memory_encryption_rows e),
     (''fwupd'', fwupd_rows e)]"

definition subgroup_of :: "string \<times> check_result list \<Rightarrow> check_subgroup" where
  "subgroup_of nr =
     \<lparr>sg_name = fst nr, sg_results = snd nr, sg_truncated = False, sg_summary = summary_of (snd nr)\<rparr>"

lemma caps:
  "length (efi_rows e) \<le> 2" "length (secureboot_rows e) \<le> 12" "length (sbctl_rows e) \<le> 1"
  "length (bios_boot_rows e) \<le> 9" "length (boot_chain_rows e) \<le> 5" "length (esp_posture_rows e) \<le> 6"
  "length (tpm_rows e) \<le> 6" "length (luks_rows e) \<le> 6" "length (bios_cntl_rows e) \<le> 1"
  "length (me_version_rows e) \<le> 1" "length (dci_rows e) \<le> 1" "length (chipsec_rows e) \<le> 1"
  "length (iommu_rows e) \<le> 2" "length (bolt_rows e) \<le> 1" "length (microcode_rows e) \<le> 3"
  "length (memory_encryption_rows e) \<le> 1" "length (fwupd_rows e) \<le> 27"
  by (rule efi.rows_cap secureboot.rows_cap sbctl.rows_cap bios_boot.rows_cap boot_chain.rows_cap
      esp_posture.rows_cap tpm.rows_cap luks.rows_cap bios_cntl.rows_cap me_version.rows_cap dci.rows_cap
      chipsec.rows_cap iommu.rows_cap bolt.rows_cap microcode.rows_cap memory_encryption.rows_cap fwupd.rows_cap)+

lemma report_fits: "list_all (\<lambda>nr. length (snd nr) \<le> BYTHOS_MAX_SUBGROUP_RESULTS) (report e)"
  using caps [of e] by (simp add: report_def BYTHOS_MAX_SUBGROUP_RESULTS_def)

lemma report_nonempty: "list_all (\<lambda>nr. snd nr \<noteq> []) (report e)"
  by (simp add: report_def efi.rows_nonempty secureboot.rows_nonempty bios_boot.rows_nonempty
      esp_posture.rows_nonempty tpm.rows_nonempty luks.rows_nonempty bios_cntl.rows_nonempty
      iommu.rows_nonempty microcode.rows_nonempty fwupd.rows_nonempty)

lemma all_rows_report:
  "map snd (report e) = [sg_efi.all_rows e, sg_secure_boot.all_rows e, sg_boot_chain.all_rows e, sg_esp.all_rows e,
     sg_tpm.all_rows e, sg_luks.all_rows e, sg_platform.all_rows e, sg_dma.all_rows e, sg_cpu.all_rows e,
     sg_fwupd.all_rows e]"
  by (simp add: report_def sg_efi.all_rows_def sg_secure_boot.all_rows_def sg_boot_chain.all_rows_def
      sg_esp.all_rows_def sg_tpm.all_rows_def sg_luks.all_rows_def sg_platform.all_rows_def sg_dma.all_rows_def
      sg_cpu.all_rows_def sg_fwupd.all_rows_def)

lemma report_wf: "list_all (\<lambda>nr. list_all wf_row (snd nr)) (report e)"
proof -
  have "list_all (list_all wf_row) (map snd (report e))"
    unfolding all_rows_report
    by (simp add: sg_efi.all_rows_wf sg_secure_boot.all_rows_wf sg_boot_chain.all_rows_wf sg_esp.all_rows_wf
        sg_tpm.all_rows_wf sg_luks.all_rows_wf sg_platform.all_rows_wf sg_dma.all_rows_wf sg_cpu.all_rows_wf
        sg_fwupd.all_rows_wf)
  then show ?thesis by (simp add: list_all_iff)
qed

lemmas run_complete = sg_efi.run_subgroup_complete sg_secure_boot.run_subgroup_complete
  sg_boot_chain.run_subgroup_complete sg_esp.run_subgroup_complete sg_tpm.run_subgroup_complete
  sg_luks.run_subgroup_complete sg_platform.run_subgroup_complete sg_dma.run_subgroup_complete
  sg_cpu.run_subgroup_complete sg_fwupd.run_subgroup_complete

lemmas all_rows_defs = sg_efi.all_rows_def sg_secure_boot.all_rows_def sg_boot_chain.all_rows_def
  sg_esp.all_rows_def sg_tpm.all_rows_def sg_luks.all_rows_def sg_platform.all_rows_def sg_dma.all_rows_def
  sg_cpu.all_rows_def sg_fwupd.all_rows_def

lemma run_table: "map (run_subgroup e) firmware_subgroups = map subgroup_of (report e)"
proof -
  note c = caps [of e]
  have fit: "length (sg_efi.all_rows e) \<le> BYTHOS_MAX_SUBGROUP_RESULTS"
      "length (sg_secure_boot.all_rows e) \<le> BYTHOS_MAX_SUBGROUP_RESULTS"
      "length (sg_boot_chain.all_rows e) \<le> BYTHOS_MAX_SUBGROUP_RESULTS"
      "length (sg_esp.all_rows e) \<le> BYTHOS_MAX_SUBGROUP_RESULTS"
      "length (sg_tpm.all_rows e) \<le> BYTHOS_MAX_SUBGROUP_RESULTS"
      "length (sg_luks.all_rows e) \<le> BYTHOS_MAX_SUBGROUP_RESULTS"
      "length (sg_platform.all_rows e) \<le> BYTHOS_MAX_SUBGROUP_RESULTS"
      "length (sg_dma.all_rows e) \<le> BYTHOS_MAX_SUBGROUP_RESULTS"
      "length (sg_cpu.all_rows e) \<le> BYTHOS_MAX_SUBGROUP_RESULTS"
      "length (sg_fwupd.all_rows e) \<le> BYTHOS_MAX_SUBGROUP_RESULTS"
    using c by (simp_all add: all_rows_defs BYTHOS_MAX_SUBGROUP_RESULTS_def)
  show ?thesis
    by (simp add: firmware_subgroups_def run_complete fit BYTHOS_SUBGROUP_MAX_FNS_def report_def subgroup_of_def)
      (simp add: all_rows_defs)
qed

lemma check_firmware_report:
  "bythos_check_firmware e BYTHOS_MAX_GROUP_SUBGROUPS = map subgroup_of (report e)"
proof -
  have "length firmware_subgroups = 10" by (simp add: firmware_subgroups_def)
  then have "take BYTHOS_MAX_GROUP_SUBGROUPS firmware_subgroups = firmware_subgroups"
    by (simp add: BYTHOS_MAX_GROUP_SUBGROUPS_def)
  then show ?thesis by (simp add: bythos_check_firmware_def run_subgroups_def run_table)
qed

end
