(* ===== verification/MainProgram.thy ===== *)
theory MainProgram
  imports CheckGroups
begin

text \<open>
  \<open>main.c\<close>: the options as \<open>getopt_long\<close> of the C library delivers them, the run of the firmware
  group, the merge of the summaries, the exit code and the rendering. A run is a function of the
  terminal, the environment and the arguments to what is printed and the exit code.
\<close>

definition BYTHOS_EXIT_OK :: nat where "BYTHOS_EXIT_OK = 0"
definition BYTHOS_EXIT_FAIL :: nat where "BYTHOS_EXIT_FAIL = 1"
definition BYTHOS_EXIT_USAGE :: nat where "BYTHOS_EXIT_USAGE = 2"
definition BYTHOS_VERSION :: string where "BYTHOS_VERSION = ''0.1.1''"

definition usage :: "string \<Rightarrow> string" where
  "usage argv0 =
     ''usage: '' @ argv0 @ '' [-j|--json]'' @ [LF] @
     [LF] @
     ''  -j, --json     machine-readable JSON output (scripts, CI, pipes)'' @ [LF] @
     ''  -h, --help     show this help and exit'' @ [LF] @
     ''  -V, --version  print version and exit'' @ [LF]"

section \<open>getopt_long\<close>

text \<open>
  \<open>getopt_long(argc, argv, "hjV", long_options)\<close> of the GNU C library: clusters of short options,
  long options by unique prefix (none takes an argument), \<open>--\<close> ends the options, operands are
  permuted to the end unless \<open>POSIXLY_CORRECT\<close> is set. The result is the sequence of return values
  before \<open>-1\<close>, \<open>?\<close> for an error, and the number of operands left.
\<close>

definition long_options :: "(string \<times> char) list" where
  "long_options = [(''help'', CHR ''h''), (''json'', CHR ''j''), (''version'', CHR ''V'')]"

definition short_code :: "char \<Rightarrow> char" where
  "short_code c = (if c = CHR ''h'' \<or> c = CHR ''j'' \<or> c = CHR ''V'' then c else CHR ''?'')"

definition long_code :: "string \<Rightarrow> char" where
  "long_code arg =
     (let name = takeWhile (\<lambda>c. c \<noteq> CHR ''='') arg
      in if name \<noteq> arg then CHR ''?''
         else case filter (\<lambda>(n, c). prefix name n) long_options of
           [(n, c)] \<Rightarrow> c
         | _ \<Rightarrow> CHR ''?'')"

fun getopt_codes :: "bool \<Rightarrow> string list \<Rightarrow> char list \<times> nat" where
  "getopt_codes posixly [] = ([], 0)"
| "getopt_codes posixly (a # args) =
     (if a = ''--'' then ([], length args)
      else if prefix ''--'' a then
        (let (codes, n) = getopt_codes posixly args in (long_code (drop 2 a) # codes, n))
      else if prefix ''-'' a \<and> a \<noteq> ''-'' then
        (let (codes, n) = getopt_codes posixly args in (map short_code (tl a) @ codes, n))
      else if posixly then ([], length (a # args))
      else (let (codes, n) = getopt_codes posixly args in (codes, n + 1)))"

section \<open>main\<close>

text \<open>The option loop: an early return with its output and code, or the mode.\<close>

fun option_loop :: "string \<Rightarrow> char list \<Rightarrow> render_mode \<Rightarrow> (string \<times> nat) + render_mode" where
  "option_loop argv0 [] render_mode = Inr render_mode"
| "option_loop argv0 (opt # opts) render_mode =
     (if opt = CHR ''h'' then Inl (usage argv0, 0)
      else if opt = CHR ''j'' then option_loop argv0 opts RENDER_JSON
      else if opt = CHR ''V'' then Inl (''bythos '' @ BYTHOS_VERSION @ [LF], 0)
      else Inl (usage argv0, BYTHOS_EXIT_USAGE))"

definition merge_summaries :: "check_subgroup list \<Rightarrow> posture_summary" where
  "merge_summaries sgs = foldl (\<lambda>s sg. bythos_summary_merge s (sg_summary sg)) summary_zero sgs"

text \<open>\<open>firmware_summary\<close> and \<open>overall\<close> are merged from the same subgroups in the same loop.\<close>

definition run_report :: "terminal \<Rightarrow> env \<Rightarrow> render_mode \<Rightarrow> string \<times> nat" where
  "run_report t e render_mode =
     (let subgroups = bythos_check_firmware e BYTHOS_MAX_GROUP_SUBGROUPS;
          firmware_summary = merge_summaries subgroups;
          overall = merge_summaries subgroups;
          exit_code = (if 0 < fail_count overall then BYTHOS_EXIT_FAIL else BYTHOS_EXIT_OK);
          groups = [\<lparr>gv_name = ''firmware'', gv_subgroups = subgroups, gv_summary = firmware_summary\<rparr>]
      in (bythos_render t render_mode ''firmware'' ''firmware trust posture'' groups overall exit_code, exit_code))"

definition bythos_main :: "terminal \<Rightarrow> env \<Rightarrow> bool \<Rightarrow> string \<Rightarrow> string list \<Rightarrow> string \<times> nat" where
  "bythos_main t e posixly argv0 args =
     (let (codes, operands) = getopt_codes posixly args
      in case option_loop argv0 codes RENDER_PLAIN of
           Inl early \<Rightarrow> early
         | Inr render_mode \<Rightarrow>
             if 0 < operands then (usage argv0, BYTHOS_EXIT_USAGE) else run_report t e render_mode)"

section \<open>The whole report\<close>

definition report_rows :: "env \<Rightarrow> check_result list" where
  "report_rows e = concat (map snd (report e))"

lemma merge_summaries_of: "merge_summaries (map subgroup_of nrs) = summary_of (concat (map snd nrs))"
proof -
  have "foldl (\<lambda>s sg. bythos_summary_merge s (sg_summary sg)) (summary_of rs) (map subgroup_of nrs) =
      summary_of (rs @ concat (map snd nrs))" for rs
    by (induction nrs arbitrary: rs) (simp_all add: subgroup_of_def summary_merge_of)
  from this [of "[]"] show ?thesis by (simp add: merge_summaries_def summary_zero_of)
qed

lemma overall_summary:
  "merge_summaries (bythos_check_firmware e BYTHOS_MAX_GROUP_SUBGROUPS) = summary_of (report_rows e)"
  by (simp add: check_firmware_report merge_summaries_of report_rows_def)

lemma run_report_exit: "snd (run_report t e m) = (if CHECK_FAIL \<in> r_state ` set (report_rows e) then 1 else 0)"
  by (simp add: run_report_def Let_def overall_summary summary_of_counts state_count_pos
      BYTHOS_EXIT_FAIL_def BYTHOS_EXIT_OK_def)

end
