(* ===== verification/FailRows.thy ===== *)
theory FailRows
  imports MainProgram
begin

text \<open>
  Which rows can be a FAIL. Five checks can fail a system: kernel IOMMU settings, Intel DCI, the
  Secure Boot state, shim's validation mode and shim's signature. Every other row of the report is
  shown never to be a FAIL, and the five are characterised by the facts they read.
\<close>

definition no_fail :: "check_result \<Rightarrow> bool" where
  "no_fail r \<longleftrightarrow> r_state r \<noteq> CHECK_FAIL"

lemma no_fail_rows [simp]:
  "st \<noteq> CHECK_FAIL \<Longrightarrow> no_fail (row n st d)" "no_fail (row_skip n k d)" "no_fail (row_skip_tool n t)"
  "no_fail (row_skip_tool_install n t)" "no_fail (row_skip_feature n t)" "no_fail (row_skip_exec n t)"
  "no_fail (row_skip_exec_root n t)" "no_fail (row_skip_probe n t)" "no_fail (row_skip_field n f t)"
  "no_fail (row_skip_parse n t)" "no_fail (row_skip_not_conf n t)" "no_fail (row_skip_subject n t)"
  "no_fail (row_skip_hw n t)" "no_fail (row_skip_vendor n t)" "no_fail (row_skip_tool_or_untrusted e n b t)"
  by (simp_all add: no_fail_def)

lemma no_fail_makes [simp]:
  "st \<noteq> CHECK_FAIL \<Longrightarrow> no_fail (make_result n st c)" "no_fail (make_skip n k c)" "no_fail (make_skip_actionable n k c)"
  "no_fail (make_skip_root n k c)"
  by (simp_all add: no_fail_def make_result_def make_skip_def make_skip_actionable_def make_skip_root_def)

section \<open>Checks that never fail a system\<close>

lemma no_fail_platform:
  "no_fail (iommu_groups_row e)" "no_fail (chipsec_row e)" "no_fail (bolt_row e)" "no_fail (efi_boot_mode_row e)"
  "no_fail (esrt_row e)" "no_fail (me_version_row e)" "no_fail (memory_encryption_row e)"
  by (simp_all add: iommu_groups_row_def chipsec_row_def bolt_row_def efi_boot_mode_row_def esrt_row_def
      me_version_row_def memory_encryption_row_def Let_def split: option.split tb_dma_state.split)

lemma no_fail_microcode:
  "no_fail (microcode_row e)" "no_fail (vulnerabilities_row e)" "no_fail (vulnerability_scan_row e)"
  "no_fail (bios_cntl_row e)"
  by (simp_all add: microcode_row_def vulnerabilities_row_def vulnerability_scan_row_def bios_cntl_row_def
      bios_cntl_value_row_def Let_def split: option.split fd_answer.split)

lemma no_fail_tpm: "list_all no_fail (tpm_rows e)" "no_fail (sbctl_row e)"
proof -
  have l: "no_fail (lockout_row n)" for n by (simp add: lockout_row_def)
  have "no_fail (tpm_presence_row e)" "no_fail (da_lockout_row e)" "no_fail (pcr_row_of e n a k z d)"
      "no_fail (event_log_ascii_row e)" for n a k z d
    by (simp_all add: tpm_presence_row_def da_lockout_row_def l pcr_row_of_def event_log_ascii_row_def
        Let_def split: option.split file_data.split)
  then show "list_all no_fail (tpm_rows e)" by (simp add: tpm_rows_def event_log_rows_def pcr7_row_def pcr0_row_def)
  show "no_fail (sbctl_row e)" by (simp add: sbctl_row_def Let_def split: prod.split)
qed

lemma no_fail_luks: "list_all no_fail (luks_rows e)"
proof -
  have 1: "no_fail (luks_devices_row e)" "no_fail (luks_version_row st)" "no_fail (luks_integrity_row st)"
      "no_fail (luks_tpm_row st)" "no_fail (raw_secure_boot_row st)" "no_fail (raw_boot_chain_row st)"
      "list_all no_fail (signed_policy_rows st)" for st
    by (simp_all add: luks_devices_row_def luks_version_row_def luks_integrity_row_def luks_tpm_row_def
        raw_secure_boot_row_def raw_boot_chain_row_def signed_policy_rows_def Let_def)
  then have "list_all no_fail (luks_pcr_rows st)" for st by (simp add: luks_pcr_rows_def Let_def)
  with 1 have "list_all no_fail (luks_binding_rows e)"
    by (simp add: luks_binding_rows_def luks_names_def luks_volume_rows_def Let_def)
  with 1 show ?thesis by (simp add: luks_rows_def)
qed

lemma no_fail_bios_boot: "list_all no_fail (bios_boot_rows e)"
proof -
  have 1: "no_fail (boot_medium_row n md b l)" "no_fail (boot_next_row e)" "no_fail (firmware_attrs_row e)"
      "no_fail (efivars_immutable_row e)" "no_fail (password_slot_row buf slot)" for n md b l buf slot
    by (simp_all add: boot_medium_row_def boot_next_row_def firmware_attrs_row_def efivars_immutable_row_def
        password_slot_row_def Let_def split: option.split fd_answer.split prod.split)
  then have "list_all no_fail (efivars_boot_rows e)" "list_all no_fail (firmware_password_rows e)"
    by (simp_all add: efivars_boot_rows_def efi_boot_names_def firmware_password_rows_def password_slots_def
        Let_def split: option.split prod.split bool.split)
  with 1 show ?thesis by (simp add: bios_boot_rows_def)
qed

lemma no_fail_esp: "list_all no_fail (esp_posture_rows e)"
proof -
  have 1: "list_all no_fail (boot_ownership_rows e)" "no_fail (esp_ownership_row e)" "no_fail (esp_filesystem_row e)"
      "no_fail (vendor_dirs_row e)" "no_fail (fallback_hash_row e f s)" "no_fail (update_capsule_row e)" for f s
    by (simp_all add: boot_ownership_rows_def esp_ownership_row_def esp_filesystem_row_def vendor_dirs_row_def
        fallback_hash_row_def update_capsule_row_def Let_def split: option.split prod.split dir_data.split)
  then have "no_fail (bootx64_row e)" by (simp add: bootx64_row_def split: option.split)
  with 1 show ?thesis by (simp add: esp_posture_rows_def esp_permission_rows_def)
qed

lemma no_fail_boot_chain:
  "no_fail (bootloader_version_row e)" "no_fail (bootloader_sbat_row e)" "no_fail (boot_permissions_row e)"
  "no_fail (sbat_revocations_row e)"
proof -
  have 1: "no_fail (boot_scan_row s)" for s by (simp add: boot_scan_row_def)
  have 2: "no_fail (sbat_verdict_row r i)" for r i by (simp add: sbat_verdict_row_def split: option.split)
  show "no_fail (bootloader_version_row e)" "no_fail (bootloader_sbat_row e)" "no_fail (boot_permissions_row e)"
      "no_fail (sbat_revocations_row e)"
    by (simp_all add: bootloader_version_row_def bootloader_sbat_row_def boot_permissions_row_def
        sbat_revocations_row_def 1 2 Let_def split: option.split prod.split)
qed

lemma no_fail_secureboot:
  "no_fail (setup_mode_row e)" "no_fail (pk_owner_row e)" "no_fail (mok_row e)" "no_fail (sigdb_variable_row e p n v)"
  "no_fail (dbx_size_row e)" "no_fail (db_keys_row e)" "no_fail (sbat_level_row e)"
  "no_fail (trust_breadth_row e)" "no_fail (efivarfs_row e)"
  by (simp_all add: setup_mode_row_def pk_owner_row_def mok_row_def sigdb_variable_row_def dbx_size_row_def
      db_keys_row_def sbat_level_row_def trust_breadth_row_def efivarfs_row_def Let_def
      split: option.split prod.split)

lemma no_fail_hsi:
  "no_fail (hsi_unavailable_row s n)" "no_fail (hsi_row s x)" "no_fail (boot_guard_row s)" "no_fail (unmapped_row s r)"
proof -
  show 1: "no_fail (hsi_unavailable_row s n)" for n by (simp add: hsi_unavailable_row_def)
  show "no_fail (hsi_row s x)" "no_fail (boot_guard_row s)" "no_fail (unmapped_row s r)"
    by (simp_all add: hsi_row_def boot_guard_row_def unmapped_row_def 1 Let_def split: prod.split option.split)
qed

lemma no_fail_fwupd: "list_all no_fail (fwupd_rows e)"
proof -
  have "no_fail (fwupd_service_row e)" "no_fail (refresh_timer_row e)"
    by (simp_all add: fwupd_service_row_def refresh_timer_row_def split: service_state.split)
  moreover have "no_fail (lvfs_row e)" "no_fail (inventory_row e)" "no_fail (update_row e)"
    by (simp_all add: lvfs_row_def inventory_row_def update_row_def Let_def split: option.split)
  moreover have "no_fail (history_row e)" by (simp add: history_row_def Let_def)
  ultimately show ?thesis
    by (auto simp: fwupd_rows_def fwupd_base_rows_def hsi_rows_def Let_def no_fail_hsi list_all_iff)
qed

section \<open>The five that can\<close>

definition iommu_fails :: "env \<Rightarrow> bool" where
  "iommu_fails e \<longleftrightarrow>
     (case bythos_read_file_text e ''/proc/cmdline'' 4096 of None \<Rightarrow> False
      | Some cmdline \<Rightarrow> iommu_disabled (bythos_parse_iommu_cmdline (Some cmdline)) \<or>
                        passthrough_on (bythos_parse_iommu_cmdline (Some cmdline)))"

definition dci_fails :: "env \<Rightarrow> bool" where
  "dci_fails e \<longleftrightarrow>
     bythos_cpu_vendor e = CPU_VENDOR_INTEL \<and> bythos_file_exists e ''/dev/cpu/0/msr'' \<and>
     (case env_pread e ''/dev/cpu/0/msr'' MSR_IA32_DEBUG_INTERFACE 8 of
        FdGot val \<Rightarrow> length val = 8 \<and> bit (u64_of_bytes val) 0 | _ \<Rightarrow> False)"

definition shim_validation_fails :: "env \<Rightarrow> bool" where
  "shim_validation_fails e \<longleftrightarrow>
     has_mokutil e \<and> sbp_state (secure_boot_probe e) = SECURE_BOOT_ENABLED \<and>
     sbp_have_output (secure_boot_probe e) \<and>
     bythos_secure_boot_validation_disabled (Some (sbp_buffer (secure_boot_probe e)))"

definition shim_signature_fails :: "env \<Rightarrow> bool" where
  "shim_signature_fails e \<longleftrightarrow>
     (case fst (find_shim e) of None \<Rightarrow> False
      | Some shim_path \<Rightarrow>
          (let c = bythos_capture_argv_status e [''pesign'', ''--show-signature'', ''--in'', shim_path] 2048
           in bythos_command_exists e ''pesign'' \<and> cap_success c \<and>
              (cap_text c = [] \<or> has_sub (bythos_to_lower_ascii (cap_text c) 2048) ''no signature'')))"

lemma iommu_fail_iff: "no_fail (iommu_posture_row e) \<longleftrightarrow> \<not> iommu_fails e"
  by (simp add: iommu_posture_row_def iommu_fails_def no_fail_def Let_def split: option.split)

lemma and_bit0: "(val :: u64) AND DCI_ENABLE_BIT \<noteq> 0 \<longleftrightarrow> bit val 0"
  by (simp add: DCI_ENABLE_BIT_def and_one_eq odd_iff_mod_2_eq_one [symmetric] bit_0)

lemma dci_fail_iff: "no_fail (dci_row e) \<longleftrightarrow> \<not> dci_fails e"
  by (simp add: dci_row_def dci_fails_def dci_value_row_def and_bit0 no_fail_def Let_def
      split: cpu_vendor.split fd_answer.split)

lemma sb_state_fail_iff:
  "no_fail (sbp_row (secure_boot_probe e)) \<longleftrightarrow> sbp_state (secure_boot_probe e) \<noteq> SECURE_BOOT_DISABLED"
  by (cases "bythos_parse_secure_boot_state (Some (cap_text (mokutil_state e)))")
    (simp_all add: secure_boot_probe_def no_fail_def Let_def split: option.split)

lemma shim_validation_fail_iff: "no_fail (shim_validation_row e) \<longleftrightarrow> \<not> shim_validation_fails e"
  by (auto simp: shim_validation_row_def shim_validation_fails_def Let_def no_fail_def)

lemma shim_signature_fail_iff: "no_fail (shim_signature_row e) \<longleftrightarrow> \<not> shim_signature_fails e"
  by (simp add: shim_signature_row_def shim_signature_fails_def Let_def no_fail_def make_skip_def
      make_result_def split: prod.split option.split)

lemma list_all_no_fail: "list_all no_fail rs \<longleftrightarrow> CHECK_FAIL \<notin> r_state ` set rs"
  by (auto simp: list_all_iff no_fail_def image_iff)

lemma report_fail_iff:
  "list_all no_fail (report_rows e) \<longleftrightarrow>
     no_fail (iommu_posture_row e) \<and> no_fail (dci_row e) \<and> no_fail (sbp_row (secure_boot_probe e)) \<and>
     no_fail (shim_validation_row e) \<and> no_fail (shim_signature_row e)"
  by (simp add: report_rows_def report_def no_fail_fwupd no_fail_tpm no_fail_luks no_fail_bios_boot no_fail_esp)
    (auto simp: efi_rows_def secureboot_rows_def sbctl_rows_def boot_chain_rows_def bios_cntl_rows_def
      me_version_rows_def dci_rows_def chipsec_rows_def iommu_rows_def bolt_rows_def microcode_rows_def
      memory_encryption_rows_def no_fail_platform no_fail_microcode no_fail_tpm no_fail_secureboot no_fail_boot_chain)

end
