(* ===== verification/HelperTrust.thy ===== *)
theory HelperTrust
  imports MainProgram
begin

text \<open>
  Helpers that are not trusted have no say: a run in which every helper that does not count as
  present behaves in some other way, any way at all, gives the same rows. The lemmas go through
  the program's functions in the order of its files; a function that starts no helper does not
  see the difference, and a check that starts one has asked \<open>bythos_command_exists\<close> first.
\<close>

named_theorems mute "functions that do not see what untrusted helpers would do"

definition mute :: "(string list \<Rightarrow> proc) \<Rightarrow> env \<Rightarrow> env" where
  "mute other e = e\<lparr>env_run := (\<lambda>argv. if bythos_command_exists e (hd argv) then env_run e argv else other argv)\<rparr>"

lemma mute_fields [mute]:
  "env_stat (mute other e) = env_stat e" "env_lstat (mute other e) = env_lstat e"
  "env_access_x (mute other e) = env_access_x e" "env_file (mute other e) = env_file e"
  "env_dir (mute other e) = env_dir e" "env_pread (mute other e) = env_pread e"
  "env_flags (mute other e) = env_flags e"
  by (simp_all add: mute_def)

section \<open>The runtime\<close>

lemma mute_trusted_binary [mute]: "trusted_binary (mute other e) = trusted_binary e"
  by ((intro ext)?, unfold trusted_binary_def mute, rule refl)

lemma mute_resolve_dirs [mute]: "resolve_dirs (mute other e) = resolve_dirs e"
proof (intro ext)
  show "resolve_dirs (mute other e) name dirs = resolve_dirs e name dirs" for name dirs
    by (induction dirs) (simp_all add: mute Let_def)
qed

lemma mute_resolve_on_trusted_path [mute]: "resolve_on_trusted_path (mute other e) = resolve_on_trusted_path e"
  by ((intro ext)?, unfold resolve_on_trusted_path_def mute, rule refl)

lemma mute_bythos_command_exists [mute]: "bythos_command_exists (mute other e) = bythos_command_exists e"
  by ((intro ext)?, unfold bythos_command_exists_def mute, rule refl)

lemma mute_bythos_command_untrusted [mute]: "bythos_command_untrusted (mute other e) = bythos_command_untrusted e"
  by ((intro ext)?, unfold bythos_command_untrusted_def mute, rule refl)

lemma mute_row_skip_tool_or_untrusted [mute]: "row_skip_tool_or_untrusted (mute other e) = row_skip_tool_or_untrusted e"
  by ((intro ext)?, unfold row_skip_tool_or_untrusted_def mute, rule refl)

lemma mute_bythos_file_exists [mute]: "bythos_file_exists (mute other e) = bythos_file_exists e"
  by ((intro ext)?, unfold bythos_file_exists_def mute, rule refl)

lemma mute_bythos_read_file_text_ex [mute]: "bythos_read_file_text_ex (mute other e) = bythos_read_file_text_ex e"
  by ((intro ext)?, unfold bythos_read_file_text_ex_def mute, rule refl)

lemma mute_bythos_read_file_text [mute]: "bythos_read_file_text (mute other e) = bythos_read_file_text e"
  by ((intro ext)?, unfold bythos_read_file_text_def mute, rule refl)

lemma mute_bythos_read_file_binary_ex [mute]: "bythos_read_file_binary_ex (mute other e) = bythos_read_file_binary_ex e"
  by ((intro ext)?, unfold bythos_read_file_binary_ex_def mute, rule refl)

lemma mute_bythos_read_file_binary [mute]: "bythos_read_file_binary (mute other e) = bythos_read_file_binary e"
  by ((intro ext)?, unfold bythos_read_file_binary_def mute, rule refl)

lemma mute_bythos_first_line_with_prefix [mute]: "bythos_first_line_with_prefix (mute other e) = bythos_first_line_with_prefix e"
  by ((intro ext)?, unfold bythos_first_line_with_prefix_def mute, rule refl)

lemma mute_env_names [mute]: "env_names (mute other e) = env_names e"
  by ((intro ext)?, unfold env_names_def mute, rule refl)

lemma mute_is_child_dir [mute]: "is_child_dir (mute other e) = is_child_dir e"
  by ((intro ext)?, unfold is_child_dir_def mute, rule refl)

lemma mute_bythos_count_child_dirs [mute]: "bythos_count_child_dirs (mute other e) = bythos_count_child_dirs e"
  by ((intro ext)?, unfold bythos_count_child_dirs_def mute, rule refl)

lemma mute_bythos_read_key_value [mute]: "bythos_read_key_value (mute other e) = bythos_read_key_value e"
  by ((intro ext)?, unfold bythos_read_key_value_def mute, rule refl)

lemma mute_bythos_esp_efi_base [mute]: "bythos_esp_efi_base (mute other e) = bythos_esp_efi_base e"
  by ((intro ext)?, unfold bythos_esp_efi_base_def mute, rule refl)

lemma mute_bythos_cpu_vendor [mute]: "bythos_cpu_vendor (mute other e) = bythos_cpu_vendor e"
  by ((intro ext)?, unfold bythos_cpu_vendor_def mute, rule refl)

text \<open>A helper that is present is heard as before.\<close>

lemma mute_capture [mute]:
  assumes "bythos_command_exists e tool"
  shows "bythos_capture_argv_status_ex (mute other e) (tool # args) = bythos_capture_argv_status_ex e (tool # args)"
    "bythos_capture_argv_status (mute other e) (tool # args) = bythos_capture_argv_status e (tool # args)"
    "bythos_run_argv_quiet (mute other e) (tool # args) = bythos_run_argv_quiet e (tool # args)"
proof -
  have "env_run (mute other e) (tool # args) = env_run e (tool # args)" using assms by (simp add: mute_def)
  then show "bythos_capture_argv_status_ex (mute other e) (tool # args) = bythos_capture_argv_status_ex e (tool # args)"
    by (intro ext capture_cong)
  then show "bythos_capture_argv_status (mute other e) (tool # args) = bythos_capture_argv_status e (tool # args)"
    by (simp add: fun_eq_iff bythos_capture_argv_status_def)
  then show "bythos_run_argv_quiet (mute other e) (tool # args) = bythos_run_argv_quiet e (tool # args)"
    by (simp add: bythos_run_argv_quiet_def)
qed

lemma mute_bythos_probe_systemd_service [mute]: "bythos_probe_systemd_service (mute other e) = bythos_probe_systemd_service e"
  by (cases "bythos_command_exists e ''systemctl''") (simp_all add: fun_eq_iff bythos_probe_systemd_service_def mute Let_def)

section \<open>The platform checks\<close>

lemma mute_iommu_group_count [mute]: "iommu_group_count (mute other e) = iommu_group_count e"
  by ((intro ext)?, unfold iommu_group_count_def mute, rule refl)

lemma mute_iommu_groups_visible [mute]: "iommu_groups_visible (mute other e) = iommu_groups_visible e"
  by ((intro ext)?, unfold iommu_groups_visible_def mute, rule refl)

lemma mute_iommu_groups_row [mute]: "iommu_groups_row (mute other e) = iommu_groups_row e"
  by ((intro ext)?, unfold iommu_groups_row_def mute, rule refl)

lemma mute_iommu_posture_row [mute]: "iommu_posture_row (mute other e) = iommu_posture_row e"
  by ((intro ext)?, unfold iommu_posture_row_def mute, rule refl)

lemma mute_iommu_rows [mute]: "iommu_rows (mute other e) = iommu_rows e"
  by ((intro ext)?, unfold iommu_rows_def mute, rule refl)

lemma mute_dci_row [mute]: "dci_row (mute other e) = dci_row e"
  by ((intro ext)?, unfold dci_row_def mute, rule refl)

lemma mute_dci_rows [mute]: "dci_rows (mute other e) = dci_rows e"
  by ((intro ext)?, unfold dci_rows_def mute, rule refl)

lemma mute_chipsec_row [mute]: "chipsec_row (mute other e) = chipsec_row e"
  by ((intro ext)?, unfold chipsec_row_def mute, rule refl)

lemma mute_chipsec_rows [mute]: "chipsec_rows (mute other e) = chipsec_rows e"
  by ((intro ext)?, unfold chipsec_rows_def mute, rule refl)

lemma mute_tb_step [mute]: "tb_step (mute other e) = tb_step e"
  by ((intro ext)?, unfold tb_step_def mute, rule refl)

lemma mute_read_tb_dma_state [mute]: "read_tb_dma_state (mute other e) = read_tb_dma_state e"
  by ((intro ext)?, unfold read_tb_dma_state_def mute, rule refl)

lemma mute_tb_controller_present [mute]: "tb_controller_present (mute other e) = tb_controller_present e"
  by ((intro ext)?, unfold tb_controller_present_def mute, rule refl)

lemma mute_bolt_row [mute]: "bolt_row (mute other e) = bolt_row e"
  by ((intro ext)?, unfold bolt_row_def mute, rule refl)

lemma mute_bolt_rows [mute]: "bolt_rows (mute other e) = bolt_rows e"
  by ((intro ext)?, unfold bolt_rows_def mute, rule refl)

lemma mute_efi_visible [mute]: "efi_visible (mute other e) = efi_visible e"
  by ((intro ext)?, unfold efi_visible_def mute, rule refl)

lemma mute_efi_boot_mode_row [mute]: "efi_boot_mode_row (mute other e) = efi_boot_mode_row e"
  by ((intro ext)?, unfold efi_boot_mode_row_def mute, rule refl)

lemma mute_esrt_row [mute]: "esrt_row (mute other e) = esrt_row e"
  by ((intro ext)?, unfold esrt_row_def mute, rule refl)

lemma mute_efi_rows [mute]: "efi_rows (mute other e) = efi_rows e"
  by ((intro ext)?, unfold efi_rows_def mute, rule refl)

lemma mute_me_version_row [mute]: "me_version_row (mute other e) = me_version_row e"
  by ((intro ext)?, unfold me_version_row_def mute, rule refl)

lemma mute_me_version_rows [mute]: "me_version_rows (mute other e) = me_version_rows e"
  by ((intro ext)?, unfold me_version_rows_def mute, rule refl)

lemma mute_memory_encryption_row [mute]: "memory_encryption_row (mute other e) = memory_encryption_row e"
  by ((intro ext)?, unfold memory_encryption_row_def mute, rule refl)

lemma mute_memory_encryption_rows [mute]: "memory_encryption_rows (mute other e) = memory_encryption_rows e"
  by ((intro ext)?, unfold memory_encryption_rows_def mute, rule refl)

lemma mute_microcode_row [mute]: "microcode_row (mute other e) = microcode_row e"
  by ((intro ext)?, unfold microcode_row_def mute, rule refl)

lemma mute_vuln_step [mute]: "vuln_step (mute other e) = vuln_step e"
  by ((intro ext)?, unfold vuln_step_def mute, rule refl)

lemma mute_vulnerabilities_row [mute]: "vulnerabilities_row (mute other e) = vulnerabilities_row e"
  by ((intro ext)?, unfold vulnerabilities_row_def mute, rule refl)

lemma mute_vulnerability_scan_row [mute]: "vulnerability_scan_row (mute other e) = vulnerability_scan_row e"
  by ((intro ext)?, unfold vulnerability_scan_row_def mute, rule refl)

lemma mute_microcode_rows [mute]: "microcode_rows (mute other e) = microcode_rows e"
  by ((intro ext)?, unfold microcode_rows_def mute, rule refl)

lemma mute_bios_cntl_config_path [mute]: "bios_cntl_config_path (mute other e) = bios_cntl_config_path e"
  by ((intro ext)?, unfold bios_cntl_config_path_def mute, rule refl)

lemma mute_bios_cntl_row [mute]: "bios_cntl_row (mute other e) = bios_cntl_row e"
  by ((intro ext)?, unfold bios_cntl_row_def mute, rule refl)

lemma mute_bios_cntl_rows [mute]: "bios_cntl_rows (mute other e) = bios_cntl_rows e"
  by ((intro ext)?, unfold bios_cntl_rows_def mute, rule refl)

section \<open>TPM, sbctl and LUKS\<close>

lemma mute_tpm_present [mute]: "tpm_present (mute other e) = tpm_present e"
  by ((intro ext)?, unfold tpm_present_def mute, rule refl)

lemma mute_tpm_presence_row [mute]: "tpm_presence_row (mute other e) = tpm_presence_row e"
  by ((intro ext)?, unfold tpm_presence_row_def mute, rule refl)

lemma mute_da_lockout_row [mute]: "da_lockout_row (mute other e) = da_lockout_row e"
  by (cases "bythos_command_exists e ''tpm2_getcap''") (simp_all add: fun_eq_iff da_lockout_row_def mute Let_def)

lemma mute_pcr_row_of [mute]: "pcr_row_of (mute other e) = pcr_row_of e"
  by (cases "bythos_command_exists e ''tpm2_pcrread''") (simp_all add: fun_eq_iff pcr_row_of_def mute Let_def)

lemma mute_pcr7_row [mute]: "pcr7_row (mute other e) = pcr7_row e"
  by ((intro ext)?, unfold pcr7_row_def mute, rule refl)

lemma mute_pcr0_row [mute]: "pcr0_row (mute other e) = pcr0_row e"
  by ((intro ext)?, unfold pcr0_row_def mute, rule refl)

lemma mute_event_log_ascii_row [mute]: "event_log_ascii_row (mute other e) = event_log_ascii_row e"
  by ((intro ext)?, unfold event_log_ascii_row_def mute, rule refl)

lemma mute_event_log_rows [mute]: "event_log_rows (mute other e) = event_log_rows e"
  by ((intro ext)?, unfold event_log_rows_def mute, rule refl)

lemma mute_tpm_rows [mute]: "tpm_rows (mute other e) = tpm_rows e"
  by ((intro ext)?, unfold tpm_rows_def mute, rule refl)

lemma mute_sbctl_row [mute]: "sbctl_row (mute other e) = sbctl_row e"
  by (cases "bythos_command_exists e ''sbctl''") (simp_all add: fun_eq_iff sbctl_row_def mute Let_def)

lemma mute_sbctl_rows [mute]: "sbctl_rows (mute other e) = sbctl_rows e"
  by ((intro ext)?, unfold sbctl_rows_def mute, rule refl)

lemma mute_luks_devices_row [mute]: "luks_devices_row (mute other e) = luks_devices_row e"
  by (cases "bythos_command_exists e ''lsblk''") (simp_all add: fun_eq_iff luks_devices_row_def mute Let_def)

lemma mute_luks_scan_lines: "bythos_command_exists e ''cryptsetup'' \<Longrightarrow> luks_scan_lines (mute other e) = luks_scan_lines e"
proof -
  assume c: "bythos_command_exists e ''cryptsetup''"
  have step: "luks_line_step (mute other e) = luks_line_step e"
    by (intro ext, unfold luks_line_step_def mute_capture [OF c], rule refl)
  show "luks_scan_lines (mute other e) = luks_scan_lines e" by (intro ext, unfold luks_scan_lines_def step, rule refl)
qed

lemma mute_luks_binding_rows [mute]: "luks_binding_rows (mute other e) = luks_binding_rows e"
  by (cases "bythos_command_exists e ''lsblk''"; cases "bythos_command_exists e ''cryptsetup''")
    (simp_all add: luks_binding_rows_def mute mute_luks_scan_lines Let_def)

lemma mute_luks_rows [mute]: "luks_rows (mute other e) = luks_rows e"
  by ((intro ext)?, unfold luks_rows_def mute, rule refl)

section \<open>Boot entries, ESP\<close>

lemma mute_read_boot_entry [mute]: "read_boot_entry (mute other e) = read_boot_entry e"
  by ((intro ext)?, unfold read_boot_entry_def mute, rule refl)

lemma mute_boot_walk_step [mute]: "boot_walk_step (mute other e) = boot_walk_step e"
  by ((intro ext)?, unfold boot_walk_step_def mute, rule refl)

lemma mute_boot_walk [mute]: "boot_walk (mute other e) = boot_walk e"
  by ((intro ext)?, unfold boot_walk_def mute, rule refl)

lemma mute_boot_next_row [mute]: "boot_next_row (mute other e) = boot_next_row e"
  by ((intro ext)?, unfold boot_next_row_def mute, rule refl)

lemma mute_efivars_boot_rows [mute]: "efivars_boot_rows (mute other e) = efivars_boot_rows e"
  by ((intro ext)?, unfold efivars_boot_rows_def mute, rule refl)

lemma mute_attr_value [mute]: "attr_value (mute other e) = attr_value e"
  by ((intro ext)?, unfold attr_value_def mute, rule refl)

lemma mute_vendor_value [mute]: "vendor_value (mute other e) = vendor_value e"
  by ((intro ext)?, unfold vendor_value_def mute, rule refl)

lemma mute_firmware_attrs_row [mute]: "firmware_attrs_row (mute other e) = firmware_attrs_row e"
  by ((intro ext)?, unfold firmware_attrs_row_def mute, rule refl)

lemma mute_firmware_password_rows [mute]: "firmware_password_rows (mute other e) = firmware_password_rows e"
  by (cases "bythos_command_exists e ''dmidecode''") (simp_all add: fun_eq_iff firmware_password_rows_def mute Let_def)

lemma mute_efivars_immutable_row [mute]: "efivars_immutable_row (mute other e) = efivars_immutable_row e"
  by ((intro ext)?, unfold efivars_immutable_row_def mute, rule refl)

lemma mute_bios_boot_rows [mute]: "bios_boot_rows (mute other e) = bios_boot_rows e"
  by ((intro ext)?, unfold bios_boot_rows_def mute, rule refl)

lemma mute_boot_ownership_rows [mute]: "boot_ownership_rows (mute other e) = boot_ownership_rows e"
  by ((intro ext)?, unfold boot_ownership_rows_def mute, rule refl)

lemma mute_esp_find [mute]: "esp_find (mute other e) = esp_find e"
proof (intro ext)
  show "esp_find (mute other e) cs = esp_find e cs" for cs
    by (induction e cs rule: esp_find.induct) (simp_all add: mute split: option.split)
qed

lemma mute_esp_mount_fstype [mute]: "esp_mount_fstype (mute other e) = esp_mount_fstype e"
proof (intro ext)
  show "esp_mount_fstype (mute other e) mounts cs = esp_mount_fstype e mounts cs" for mounts cs
    by (induction e mounts cs rule: esp_mount_fstype.induct) (simp_all add: mute split: option.split)
qed

lemma mute_esp_ownership_row [mute]: "esp_ownership_row (mute other e) = esp_ownership_row e"
  by ((intro ext)?, unfold esp_ownership_row_def mute, rule refl)

lemma mute_esp_permission_rows [mute]: "esp_permission_rows (mute other e) = esp_permission_rows e"
  by ((intro ext)?, unfold esp_permission_rows_def mute, rule refl)

lemma mute_esp_filesystem_row [mute]: "esp_filesystem_row (mute other e) = esp_filesystem_row e"
  by ((intro ext)?, unfold esp_filesystem_row_def mute, rule refl)

lemma mute_vendor_step [mute]: "vendor_step (mute other e) = vendor_step e"
  by ((intro ext)?, unfold vendor_step_def mute, rule refl)

lemma mute_vendor_dirs_row [mute]: "vendor_dirs_row (mute other e) = vendor_dirs_row e"
  by ((intro ext)?, unfold vendor_dirs_row_def mute, rule refl)

lemma mute_usable_path [mute]: "usable_path (mute other e) = usable_path e"
  by ((intro ext)?, unfold usable_path_def mute, rule refl)

lemma mute_esp_find_shim_in [mute]: "esp_find_shim_in (mute other e) = esp_find_shim_in e"
proof (intro ext)
  show "esp_find_shim_in (mute other e) base vendors = esp_find_shim_in e base vendors" for base vendors
    by (induction vendors) (simp_all add: mute split: option.split)
qed

lemma mute_esp_find_shim [mute]: "esp_find_shim (mute other e) = esp_find_shim e"
  by ((intro ext)?, unfold esp_find_shim_def mute, rule refl)

lemma mute_fallback_path [mute]: "fallback_path (mute other e) = fallback_path e"
  by ((intro ext)?, unfold fallback_path_def mute, rule refl)

lemma mute_same_inode [mute]: "same_inode (mute other e) = same_inode e"
  by ((intro ext)?, unfold same_inode_def mute, rule refl)

lemma mute_fallback_hash_row:
  assumes "bythos_command_exists e ''sha256sum''"
  shows "fallback_hash_row (mute other e) = fallback_hash_row e"
  by (intro ext, unfold fallback_hash_row_def mute mute_capture [OF assms], rule refl)

lemma mute_bootx64_row [mute]: "bootx64_row (mute other e) = bootx64_row e"
  by (cases "bythos_command_exists e ''sha256sum''")
    (simp_all add: bootx64_row_def mute mute_fallback_hash_row split: option.split)

lemma mute_update_capsule_row [mute]: "update_capsule_row (mute other e) = update_capsule_row e"
  by ((intro ext)?, unfold update_capsule_row_def mute, rule refl)

lemma mute_esp_posture_rows [mute]: "esp_posture_rows (mute other e) = esp_posture_rows e"
  by ((intro ext)?, unfold esp_posture_rows_def mute, rule refl)

section \<open>Secure Boot and the boot chain\<close>

lemma mute_bythos_probe_mok_ownership [mute]: "bythos_probe_mok_ownership (mute other e) = bythos_probe_mok_ownership e"
  by (cases "bythos_command_exists e ''mokutil''") (simp_all add: fun_eq_iff bythos_probe_mok_ownership_def mute Let_def)

lemma mute_read_efi_bool_var [mute]: "read_efi_bool_var (mute other e) = read_efi_bool_var e"
  by ((intro ext)?, unfold read_efi_bool_var_def mute, rule refl)

lemma mute_sigdb_variable_row [mute]: "sigdb_variable_row (mute other e) = sigdb_variable_row e"
  by ((intro ext)?, unfold sigdb_variable_row_def mute, rule refl)

lemma mute_has_mokutil [mute]: "has_mokutil (mute other e) = has_mokutil e"
  by ((intro ext)?, unfold has_mokutil_def mute, rule refl)

lemma mute_secure_boot_probe [mute]: "secure_boot_probe (mute other e) = secure_boot_probe e"
proof (cases "bythos_command_exists e ''mokutil''")
  case True
  show ?thesis unfolding secure_boot_probe_def mokutil_state_def mute mute_capture [OF True] ..
next
  case False
  then have "\<not> has_mokutil e" by (simp add: has_mokutil_def)
  then show ?thesis by (simp add: secure_boot_probe_def mute Let_def split: option.split)
qed

lemma mute_setup_mode_row [mute]: "setup_mode_row (mute other e) = setup_mode_row e"
  by ((intro ext)?, unfold setup_mode_row_def mute, rule refl)

lemma mute_shim_validation_row [mute]: "shim_validation_row (mute other e) = shim_validation_row e"
  by ((intro ext)?, unfold shim_validation_row_def mute, rule refl)

lemma mute_pk_owner_row [mute]: "pk_owner_row (mute other e) = pk_owner_row e"
  by ((intro ext)?, unfold pk_owner_row_def mute, rule refl)

lemma mute_mok_row [mute]: "mok_row (mute other e) = mok_row e"
  by ((intro ext)?, unfold mok_row_def mute, rule refl)

lemma mute_sb_efi_visible [mute]: "sb_efi_visible (mute other e) = sb_efi_visible e"
  by ((intro ext)?, unfold sb_efi_visible_def mute, rule refl)

lemma mute_dbx_size_row [mute]: "dbx_size_row (mute other e) = dbx_size_row e"
  by ((intro ext)?, unfold dbx_size_row_def mute, rule refl)

lemma mute_db_keys_row [mute]: "db_keys_row (mute other e) = db_keys_row e"
  by ((intro ext)?, unfold db_keys_row_def mute, rule refl)

lemma mute_sbat_level_row [mute]: "sbat_level_row (mute other e) = sbat_level_row e"
  by ((intro ext)?, unfold sbat_level_row_def mute, rule refl)

lemma mute_trust_breadth_row [mute]: "trust_breadth_row (mute other e) = trust_breadth_row e"
  by (cases "bythos_command_exists e ''mokutil''") (simp_all add: trust_breadth_row_def has_mokutil_def mute Let_def)

lemma mute_efivarfs_row [mute]: "efivarfs_row (mute other e) = efivarfs_row e"
  by ((intro ext)?, unfold efivarfs_row_def mute, rule refl)

lemma mute_secureboot_rows [mute]: "secureboot_rows (mute other e) = secureboot_rows e"
  by ((intro ext)?, unfold secureboot_rows_def mute, rule refl)

lemma mute_bootloader_version_row [mute]: "bootloader_version_row (mute other e) = bootloader_version_row e"
proof (cases "find (bythos_command_exists e) bootloader_tools")
  case (Some tool)
  then have "bythos_command_exists e tool" by (auto simp: find_Some_iff)
  with Some show ?thesis by (simp add: bootloader_version_row_def mute Let_def)
qed (simp add: bootloader_version_row_def mute)

lemma mute_efi_binary_in [mute]: "efi_binary_in (mute other e) = efi_binary_in e"
  by ((intro ext)?, unfold efi_binary_in_def mute, rule refl)

lemma mute_efi_vendor_binary [mute]: "efi_vendor_binary (mute other e) = efi_vendor_binary e"
  by ((intro ext)?, unfold efi_vendor_binary_def mute, rule refl)

lemma mute_find_efi_binary [mute]: "find_efi_binary (mute other e) = find_efi_binary e"
  by ((intro ext)?, unfold find_efi_binary_def mute, rule refl)

lemma mute_booted_filepath [mute]: "booted_filepath (mute other e) = booted_filepath e"
  by ((intro ext)?, unfold booted_filepath_def mute, rule refl)

lemma mute_shim_path_of [mute]: "shim_path_of (mute other e) = shim_path_of e"
  by ((intro ext)?, unfold shim_path_of_def mute, rule refl)

lemma mute_find_booted_shim [mute]: "find_booted_shim (mute other e) = find_booted_shim e"
  by ((intro ext)?, unfold find_booted_shim_def mute, rule refl)

lemma mute_find_shim [mute]: "find_shim (mute other e) = find_shim e"
  by ((intro ext)?, unfold find_shim_def mute, rule refl)

lemma mute_find_grub [mute]: "find_grub (mute other e) = find_grub e"
  by ((intro ext)?, unfold find_grub_def mute, rule refl)

lemma mute_shim_signature_row [mute]: "shim_signature_row (mute other e) = shim_signature_row e"
  by (cases "bythos_command_exists e ''pesign''") (simp_all add: shim_signature_row_def mute Let_def split: prod.split option.split)

lemma mute_scan_boot_entry [mute]: "scan_boot_entry (mute other e) = scan_boot_entry e"
  by ((intro ext)?, unfold scan_boot_entry_def mute, rule refl)

lemma mute_scan_boot_names [mute]: "scan_boot_names (mute other e) = scan_boot_names e"
  by ((intro ext)?, unfold scan_boot_names_def mute, rule refl)

lemma mute_scan_boot_dir [mute]: "scan_boot_dir n (mute other e) = scan_boot_dir n e"
  by (induction n) (simp_all add: mute)

lemma mute_boot_permissions_row [mute]: "boot_permissions_row (mute other e) = boot_permissions_row e"
  by ((intro ext)?, unfold boot_permissions_row_def mute, rule refl)

lemma mute_collect_sbat_entries [mute]: "collect_sbat_entries (mute other e) = collect_sbat_entries e"
  by ((intro ext)?, unfold collect_sbat_entries_def mute, rule refl)

lemma mute_collect_installed [mute]: "collect_installed (mute other e) = collect_installed e"
  by ((intro ext)?, unfold collect_installed_def mute, rule refl)

lemma mute_bootloader_sbat_row [mute]: "bootloader_sbat_row (mute other e) = bootloader_sbat_row e"
proof (cases "bythos_command_exists e ''mokutil''")
  case True
  show ?thesis unfolding bootloader_sbat_row_def mokutil_revocations_def mute mute_capture [OF True] ..
next
  case False
  then show ?thesis by (simp only: bootloader_sbat_row_def Let_def mute not_False_eq_True if_True)
qed

lemma mute_sbat_revocations_row [mute]: "sbat_revocations_row (mute other e) = sbat_revocations_row e"
  by (cases "bythos_command_exists e ''mokutil''") (simp_all add: fun_eq_iff sbat_revocations_row_def mute Let_def)

lemma mute_boot_chain_rows [mute]: "boot_chain_rows (mute other e) = boot_chain_rows e"
  by ((intro ext)?, unfold boot_chain_rows_def mute, rule refl)

section \<open>fwupd\<close>

lemma mute_fwupd_service_row [mute]: "fwupd_service_row (mute other e) = fwupd_service_row e"
  by ((intro ext)?, unfold fwupd_service_row_def mute, rule refl)

lemma mute_refresh_timer_row [mute]: "refresh_timer_row (mute other e) = refresh_timer_row e"
  by ((intro ext)?, unfold refresh_timer_row_def mute, rule refl)

lemma mute_lvfs_row [mute]: "lvfs_row (mute other e) = lvfs_row e"
  by ((intro ext)?, unfold lvfs_row_def mute, rule refl)

lemma mute_inventory_row [mute]: "inventory_row (mute other e) = inventory_row e"
  by (cases "bythos_command_exists e ''fwupdmgr''") (simp_all add: fun_eq_iff inventory_row_def mute Let_def)

lemma mute_update_row [mute]: "update_row (mute other e) = update_row e"
  by (cases "bythos_command_exists e ''fwupdmgr''") (simp_all add: fun_eq_iff update_row_def mute Let_def)

lemma mute_history_row [mute]: "history_row (mute other e) = history_row e"
  by (cases "bythos_command_exists e ''fwupdmgr''") (simp_all add: fun_eq_iff history_row_def mute Let_def)

lemma mute_fwupd_base_rows [mute]: "fwupd_base_rows (mute other e) = fwupd_base_rows e"
  by ((intro ext)?, unfold fwupd_base_rows_def mute, rule refl)

lemma mute_hsi_source_of [mute]: "hsi_source_of (mute other e) = hsi_source_of e"
  by (cases "bythos_command_exists e ''fwupdmgr''") (simp_all add: fun_eq_iff hsi_source_of_def mute Let_def)

lemma mute_fwupd_rows [mute]: "fwupd_rows (mute other e) = fwupd_rows e"
  by ((intro ext)?, unfold fwupd_rows_def mute, rule refl)

section \<open>The report\<close>

lemma mute_report [mute]: "report (mute other e) = report e"
  by (simp add: report_def mute)

end
