(* ===== verification/BootChainProps.thy ===== *)
theory BootChainProps
  imports BootChainCheck
begin

text \<open>
  What the verdicts of the boot chain check mean: the walk below /boot is sound at any depth, and
  the SBAT row compares generations component by component.
\<close>

section \<open>The walk below /boot\<close>

text \<open>
  The paths the walk answers for: entries of a directory it can list, not hidden and not too long,
  and the same of the directories among them that lie on the device, however deep.
\<close>

definition entry_of :: "env \<Rightarrow> string \<Rightarrow> string \<Rightarrow> bool" where
  "entry_of e dir path \<longleftrightarrow> (\<exists>names name. env_names e dir = Some names \<and> name \<in> set names \<and>
     \<not> starts_with name ''.'' \<and> path = dir @ ''/'' @ name \<and> length path < PATH_MAX)"

inductive below :: "env \<Rightarrow> nat \<Rightarrow> string \<Rightarrow> string \<Rightarrow> bool" for e device where
  entry: "entry_of e dir path \<Longrightarrow> below e device dir path"
| deeper: "entry_of e dir sub \<Longrightarrow> env_lstat e sub = Some st \<Longrightarrow> S_ISDIR (st_mode st) \<Longrightarrow> st_dev st = device \<Longrightarrow>
    below e device sub path \<Longrightarrow> below e device dir path"

definition root_only :: "file_stat \<Rightarrow> bool" where
  "root_only st \<longleftrightarrow> st_uid st = 0 \<and> st_mode st AND 0x12 = 0"

text \<open>A file that is safe to boot from, or a link to one on the same device.\<close>

definition boot_safe :: "env \<Rightarrow> nat \<Rightarrow> string \<Rightarrow> bool" where
  "boot_safe e device path \<longleftrightarrow>
     (case env_lstat e path of None \<Rightarrow> True
      | Some st \<Rightarrow>
          if S_ISREG (st_mode st) then st_dev st = device \<longrightarrow> root_only st
          else if S_ISLNK (st_mode st) then
            (case env_stat e path of None \<Rightarrow> False
             | Some t \<Rightarrow> S_ISREG (st_mode t) \<and> st_dev t = device \<and> root_only t)
          else True)"

definition clean :: "boot_scan \<Rightarrow> bool" where
  "clean s \<longleftrightarrow> \<not> bs_any_warn s \<and> \<not> bs_depth_exceeded s \<and> \<not> bs_unverified_link s"

lemma clean_note:
  "clean (note_boot_file_owner name st s) \<Longrightarrow> clean s \<and> root_only st"
  by (auto simp: note_boot_file_owner_def clean_def root_only_def group_world_writable_def split: if_splits)

lemma clean_marks [simp]:
  "clean (s\<lparr>bs_count := c\<rparr>) \<longleftrightarrow> clean s" "\<not> clean (s\<lparr>bs_unverified_link := True\<rparr>)"
  "\<not> clean (s\<lparr>bs_depth_exceeded := True\<rparr>)"
  by (simp_all add: clean_def)

text \<open>No step takes a mark back, so a clean end has clean steps.\<close>

lemma clean_entry_or_descent:
  "clean (scan_boot_entry e device descend dir s name) \<Longrightarrow> clean s \<or> (\<exists>p. clean (descend p s))"
  by (auto simp: scan_boot_entry_def Let_def dest!: clean_note split: if_splits option.splits)

lemma clean_entry:
  assumes "\<forall>p s. clean (descend p s) \<longrightarrow> clean s" "clean (scan_boot_entry e device descend dir s name)"
  shows "clean s"
  using clean_entry_or_descent [OF assms(2)] assms(1) by blast

lemma clean_fold:
  assumes step: "\<And>s x. clean (f s x) \<Longrightarrow> clean s"
  shows "clean (foldl f s xs) \<Longrightarrow> clean s \<and> (\<forall>x\<in>set xs. \<exists>s. clean (f s x))"
proof (induction xs arbitrary: s)
  case (Cons x xs)
  from Cons.prems have "clean (foldl f (f s x) xs)" by simp
  then have IH: "clean (f s x)" "\<forall>x\<in>set xs. \<exists>s. clean (f s x)" using Cons.IH by blast+
  from IH(1) have "clean s" by (rule step)
  with IH show ?case unfolding list.set by blast
qed simp

lemma clean_names:
  assumes "\<forall>p s. clean (descend p s) \<longrightarrow> clean s" "clean (scan_boot_names e device descend dir s)"
  shows "clean s \<and> (\<forall>names. env_names e dir = Some names \<longrightarrow>
    (\<forall>name\<in>set names. \<exists>s. clean (scan_boot_entry e device descend dir s name)))"
proof (cases "env_names e dir")
  case None
  with assms(2) show ?thesis by (simp add: scan_boot_names_def)
next
  case (Some names)
  with assms(2) have "clean (foldl (scan_boot_entry e device descend dir) s names)" by (simp add: scan_boot_names_def)
  moreover have "clean (scan_boot_entry e device descend dir s x) \<Longrightarrow> clean s" for s x
    by (rule clean_entry [OF assms(1)])
  ultimately have "clean s \<and> (\<forall>name\<in>set names. \<exists>s. clean (scan_boot_entry e device descend dir s name))"
    by (intro clean_fold)
  with Some show ?thesis by simp
qed

definition descent :: "nat \<Rightarrow> env \<Rightarrow> nat \<Rightarrow> string \<Rightarrow> boot_scan \<Rightarrow> boot_scan" where
  "descent n e device = (case n of 0 \<Rightarrow> (\<lambda>path s. s\<lparr>bs_depth_exceeded := True\<rparr>) | Suc m \<Rightarrow> scan_boot_dir m e device)"

lemma scan_boot_dir_descent: "scan_boot_dir n e device = scan_boot_names e device (descent n e device)"
  by (cases n) (simp_all add: descent_def)

lemma clean_scan:
  assumes "\<forall>p s. clean (descent n e device p s) \<longrightarrow> clean s" "clean (scan_boot_dir n e device dir s)"
  shows "clean s"
  using clean_names [OF assms(1), of e device dir s] assms(2) unfolding scan_boot_dir_descent by blast

lemma clean_descent: "\<forall>p s. clean (descent n e device p s) \<longrightarrow> clean s"
proof (induction n)
  case 0
  then show ?case by (simp add: descent_def)
next
  case (Suc n)
  have "descent (Suc n) e device = scan_boot_dir n e device" by (simp add: descent_def)
  then show ?case using clean_scan [OF Suc.IH] by metis
qed

lemma clean_scan_entry:
  assumes "clean (scan_boot_dir n e device dir s)" "entry_of e dir path"
  obtains s' name where "path = dir @ ''/'' @ name" "\<not> starts_with name ''.''" "length path < PATH_MAX"
    "clean (scan_boot_entry e device (descent n e device) dir s' name)"
proof -
  from assms(2) obtain names name where n: "env_names e dir = Some names" "name \<in> set names"
    "\<not> starts_with name ''.''" "path = dir @ ''/'' @ name" "length path < PATH_MAX"
    unfolding entry_of_def by blast
  have "clean (scan_boot_names e device (descent n e device) dir s)"
    using assms(1) unfolding scan_boot_dir_descent .
  then obtain s' where "clean (scan_boot_entry e device (descent n e device) dir s' name)"
    using clean_names [OF clean_descent] n(1,2) by blast
  with n(3-5) that show thesis by blast
qed

lemma file_kinds: "S_ISDIR m \<Longrightarrow> \<not> S_ISREG m \<and> \<not> S_ISLNK m"
  by (auto simp: S_ISDIR_def S_ISREG_def S_ISLNK_def)

lemma clean_below:
  "below e device dir path \<Longrightarrow> clean (scan_boot_dir n e device dir s) \<Longrightarrow> boot_safe e device path"
proof (induction arbitrary: n s rule: below.induct)
  case (entry dir path)
  obtain s' name where p: "path = dir @ ''/'' @ name" "\<not> starts_with name ''.''" "length path < PATH_MAX"
    and c: "clean (scan_boot_entry e device (descent n e device) dir s' name)"
    using clean_scan_entry [OF entry.prems entry.hyps] .
  from p c show ?case
    by (auto simp: scan_boot_entry_def boot_safe_def Let_def not_le [symmetric] dest!: clean_note split: if_splits option.splits)
next
  case (deeper dir sub st path)
  obtain s' name where p: "sub = dir @ ''/'' @ name" "\<not> starts_with name ''.''" "length sub < PATH_MAX"
    and c: "clean (scan_boot_entry e device (descent n e device) dir s' name)"
    using clean_scan_entry [OF deeper.prems deeper.hyps(1)] .
  then have "clean (descent n e device sub s')"
    using deeper.hyps file_kinds [OF deeper.hyps(3)] by (simp add: scan_boot_entry_def)
  then obtain m where "clean (scan_boot_dir m e device sub s')"
    by (cases n) (auto simp: descent_def)
  then show ?case by (rule deeper.IH)
qed

text \<open>
  Claim C23: when the permissions row of /boot is OK, every regular file on the boot device that
  can be reached below /boot through listable directories of that device and names that are not
  hidden, however deep, belongs to root and is not writable by group or others, and every
  symbolic link among them leads to such a file. A tree deeper than the walk is never called OK.
\<close>

theorem boot_permissions_ok_sound:
  assumes "r_state (boot_permissions_row e) = CHECK_OK" "env_stat e ''/boot'' = Some boot"
    and "below e (st_dev boot) ''/boot'' path" "env_lstat e path = Some st"
  shows "(S_ISREG (st_mode st) \<and> st_dev st = st_dev boot \<longrightarrow> st_uid st = 0 \<and> st_mode st AND 0x12 = 0) \<and>
    (S_ISLNK (st_mode st) \<longrightarrow> (\<exists>t. env_stat e path = Some t \<and> S_ISREG (st_mode t) \<and> st_dev t = st_dev boot \<and>
       st_uid t = 0 \<and> st_mode t AND 0x12 = 0))"
proof -
  let ?s = "scan_boot_dir 3 e (st_dev boot) ''/boot'' boot_scan_zero"
  have "r_state (boot_permissions_row e) = CHECK_OK \<Longrightarrow> r_state (boot_scan_row ?s) = CHECK_OK"
    using assms(2) by (auto simp: boot_permissions_row_def split: option.splits if_splits)
  with assms(1) have "clean ?s" by (auto simp: boot_scan_row_def clean_def split: if_splits)
  with assms(3) have "boot_safe e (st_dev boot) path" by (rule clean_below)
  with assms(4) show ?thesis
    by (auto simp: boot_safe_def root_only_def S_ISREG_def S_ISLNK_def split: option.splits if_splits)
qed

text \<open>A system with one kernel under /boot, readable by all and written by root.\<close>

definition boot_env :: env where
  "boot_env = demo_env\<lparr>
     env_stat := (\<lambda>p. Some \<lparr>st_uid = 0, st_mode = 0x41ED, st_dev = 7, st_ino = 2\<rparr>),
     env_lstat := (\<lambda>p. Some \<lparr>st_uid = 0, st_mode = 0x81A4, st_dev = 7, st_ino = 3\<rparr>),
     env_file := (\<lambda>p. if p = ''/proc/mounts'' then Opened [] False else OpenFails),
     env_dir := (\<lambda>p. if p = ''/boot'' then DirNames [''vmlinuz''] else DirFails ENOENT)\<rparr>"

theorem boot_permissions_ok_sound_witness:
  "\<exists>st. env_lstat boot_env ''/boot/vmlinuz'' = Some st \<and> S_ISREG (st_mode st) \<and> st_uid st = 0 \<and> st_mode st AND 0x12 = 0"
proof -
  have names: "env_names boot_env ''/boot'' = Some [''vmlinuz'']" by (simp add: env_names_def boot_env_def)
  have stat: "env_stat boot_env p = Some \<lparr>st_uid = 0, st_mode = 0x41ED, st_dev = 7, st_ino = 2\<rparr>"
    "env_lstat boot_env p = Some \<lparr>st_uid = 0, st_mode = 0x81A4, st_dev = 7, st_ino = 3\<rparr>" for p
    by (simp_all add: boot_env_def)
  have "bythos_read_file_text_ex boot_env ''/proc/mounts'' 65536 = Some ([], False)"
    by (simp add: bythos_read_file_text_ex_def boot_env_def c_fread_def cstr_def)
  moreover have "bythos_find_mount_entry [] ''/boot'' (Some 64) None = None" by code_simp
  moreover have reg: "S_ISREG 0x81A4" by (simp add: S_ISREG_def S_IFMT_def)
  ultimately have ok: "r_state (boot_permissions_row boot_env) = CHECK_OK"
    by (simp add: boot_permissions_row_def stat boot_fs_without_owners_def scan_boot_dir_descent scan_boot_names_def
        names scan_boot_entry_def starts_with_def PATH_MAX_def note_boot_file_owner_def boot_scan_zero_def
        group_world_writable_def boot_scan_row_def)
  have "entry_of boot_env ''/boot'' ''/boot/vmlinuz''"
    unfolding entry_of_def using names by (simp add: starts_with_def PATH_MAX_def)
  then have "below boot_env 7 ''/boot'' ''/boot/vmlinuz''" by (rule below.entry)
  then show ?thesis using boot_permissions_ok_sound [OF ok stat(1) _ stat(2)] reg stat(2) by simp
qed

section \<open>SBAT generations\<close>

lemma worst_revoked_fold:
  "foldl (\<lambda>(worst, any_match) r. if component \<noteq> sb_component r then (worst, any_match)
        else (if sb_generation r > worst then sb_generation r else worst, True)) (w, b) revoked = (w', b') \<Longrightarrow>
     (x < w' \<longleftrightarrow> x < w \<or> (\<exists>r\<in>set revoked. sb_component r = component \<and> x < sb_generation r)) \<and>
     (b' \<longleftrightarrow> b \<or> (\<exists>r\<in>set revoked. sb_component r = component))"
proof (induction revoked arbitrary: w b)
  case (Cons r rs)
  then show ?case by (cases "sb_component r = component"; cases "sb_generation r > w") fastforce+
qed simp

lemma below_minimum_iff:
  "below_minimum revoked i \<longleftrightarrow>
     list_ex (\<lambda>r. sb_component r = sb_component i \<and> unat (sb_generation i) < unat (sb_generation r)) revoked"
proof -
  obtain w b where wb: "worst_revoked (sb_component i) revoked = (w, b)" by fastforce
  from worst_revoked_fold [OF wb [unfolded worst_revoked_def], of "sb_generation i"] show ?thesis
    by (auto simp: below_minimum_def wb list_ex_iff word_less_nat_alt)
qed

text \<open>
  Claim C24: the SBAT verdict warns exactly when some installed component has a generation below a
  minimum that the revocation list states for the same component, whatever order and however often
  the list names it, and is OK otherwise.
\<close>

theorem sbat_verdict_exact:
  "r_state (sbat_verdict_row revoked insts) =
     (if list_ex (\<lambda>i. list_ex (\<lambda>r. sb_component r = sb_component i \<and>
           unat (sb_generation i) < unat (sb_generation r)) revoked) insts
      then CHECK_WARN else CHECK_OK)"
proof (cases "find (below_minimum revoked) insts")
  case None
  then have "\<not> list_ex (below_minimum revoked) insts" by (auto simp: find_None_iff list_ex_iff)
  with None show ?thesis by (simp add: sbat_verdict_row_def below_minimum_iff [abs_def])
next
  case (Some i)
  then have "list_ex (below_minimum revoked) insts" by (auto simp: find_Some_iff list_ex_iff)
  with Some show ?thesis by (simp add: sbat_verdict_row_def below_minimum_iff [abs_def] split: prod.split)
qed

end
