(* ===== verification/StorageProps.thy ===== *)
theory StorageProps
  imports StorageParsers
begin

text \<open>
  The PCR masks of a \<open>cryptsetup luksDump\<close> report: the report as the token section prints it, and
  the masks read from it.
\<close>

section \<open>Numbers joined by plus signs\<close>

fun pcr_list :: "nat list \<Rightarrow> string" where
  "pcr_list [] = []"
| "pcr_list [p] = dec_nat p"
| "pcr_list (p # q # ps) = dec_nat p @ ''+'' @ pcr_list (q # ps)"

lemma scan_no_digit: "list_all (\<lambda>c. \<not> c_isdigit c) gap \<Longrightarrow> scan_runs (gap @ q) st = scan_runs q st"
  by (induction gap) (simp_all add: scan_runs.simps [of "_ # _"])

lemma plus_no_digit: "\<not> c_isdigit (CHR ''+'')"
  by (simp add: c_isdigit_def char_le_iff byte_val_def)

lemma scan_number:
  assumes "p < 32" "r = [] \<or> \<not> c_isdigit (hd r)"
  shows "scan_runs (dec_nat p @ r) (bits, found) = scan_runs r (bits OR push_bit p 1, True)"
proof -
  have digits: "\<forall>c\<in>set (dec_nat p). c_isdigit c" using dec_nat_digits by blast
  have tw: "takeWhile c_isdigit (dec_nat p @ r) = dec_nat p" "dropWhile c_isdigit (dec_nat p @ r) = r"
    using digits assms(2) by (cases r; auto simp: takeWhile_append dropWhile_append)+
  have "length (dec_nat p) \<le> 2" using length_dec_nat_le [of p 2] assms(1) by simp
  then have "run_value (dec_nat p) = p" by (simp add: run_value_def num_val_dec_nat)
  moreover have "c_isdigit (hd (dec_nat p @ r))" using digits by simp
  ultimately show ?thesis
    using assms(1) by (subst scan_runs.simps) (simp add: tw)
qed

lemma bit_one_at: "p < 32 \<Longrightarrow> bit (2 ^ p :: u32) i \<longleftrightarrow> i = p"
  by (auto simp: bit_exp_iff possible_bit_word)

lemma scan_pcr_list:
  "ps \<noteq> [] \<Longrightarrow> list_all (\<lambda>p. p < 32) ps \<Longrightarrow>
     \<exists>m. scan_runs (pcr_list ps) (bits, found) = (m, True) \<and> (\<forall>i. bit m i \<longleftrightarrow> bit bits i \<or> i \<in> set ps)"
proof (induction ps arbitrary: bits found rule: pcr_list.induct)
  case (2 p)
  then have "scan_runs (dec_nat p @ []) (bits, found) = scan_runs [] (bits OR push_bit p 1, True)"
    by (intro scan_number) auto
  moreover have "scan_runs [] st = st" for st by (subst scan_runs.simps) simp
  ultimately show ?case using 2 by (auto simp: bit_or_iff bit_one_at)
next
  case (3 p q ps)
  then have "scan_runs (dec_nat p @ ''+'' @ pcr_list (q # ps)) (bits, found)
      = scan_runs (''+'' @ pcr_list (q # ps)) (bits OR push_bit p 1, True)"
    using plus_no_digit by (intro scan_number) auto
  also have "\<dots> = scan_runs (pcr_list (q # ps)) (bits OR push_bit p 1, True)"
    using plus_no_digit by (intro scan_no_digit) simp
  finally have "scan_runs (pcr_list (p # q # ps)) (bits, found) = scan_runs (pcr_list (q # ps)) (bits OR push_bit p 1, True)"
    by simp
  moreover obtain m where "scan_runs (pcr_list (q # ps)) (bits OR push_bit p 1, True) = (m, True)"
    "\<forall>i. bit m i \<longleftrightarrow> bit (bits OR push_bit p 1) i \<or> i \<in> set (q # ps)"
    using "3.IH" "3.prems" by fastforce
  ultimately show ?case using "3.prems" by (auto simp: bit_or_iff bit_one_at)
qed simp

section \<open>Lines of the window\<close>

lemma no_pcrs_key: "\<not> sublist ''pcrs'' l \<Longrightarrow> pcrs_key l = None"
  by (induction l) (auto simp: sublist_Cons_right)

text \<open>A line without \<open>pcrs\<close>, or of the other kind, is passed over.\<close>

lemma window_line:
  assumes "list_all (\<lambda>c. \<not> is_eol c) l"
  shows "luks_window b (l @ LF # w) =
    (case (if has_sub l ''pubkey'' = b then pcr_mask_of_line l else None) of
       Some bits \<Rightarrow> Some bits | None \<Rightarrow> luks_window b w)"
proof -
  have eol: "is_eol LF" by (simp add: is_eol_def)
  have tw: "takeWhile (\<lambda>c. \<not> is_eol c) (l @ LF # w) = l"
    using assms eol by (auto simp: takeWhile_append list_all_iff)
  have dw: "drop 1 (dropWhile (\<lambda>c. \<not> is_eol c) (l @ LF # w)) = w"
    using assms eol by (auto simp: dropWhile_append list_all_iff)
  show ?thesis by (subst luks_window.simps, unfold Let_def tw dw) simp
qed

definition plain_line :: "string \<Rightarrow> bool" where
  "plain_line l \<longleftrightarrow> list_all (\<lambda>c. \<not> is_eol c) l \<and> \<not> sublist ''pcrs'' l"

definition lf_lines :: "string list \<Rightarrow> string" where
  "lf_lines ls = concat (map (\<lambda>l. l @ [LF]) ls)"

lemma window_plain_lines: "list_all plain_line ls \<Longrightarrow> luks_window b (lf_lines ls @ w) = luks_window b w"
proof (induction ls)
  case (Cons l ls)
  then have "list_all (\<lambda>c. \<not> is_eol c) l" "pcr_mask_of_line l = None"
    by (auto simp: plain_line_def pcr_mask_of_line_def no_pcrs_key)
  then have "luks_window b (l @ LF # (lf_lines ls @ w)) = luks_window b (lf_lines ls @ w)"
    by (simp add: window_line)
  with Cons show ?case by (simp add: lf_lines_def)
qed (simp add: lf_lines_def)

lemma window_no_pcrs: "\<not> sublist ''pcrs'' w \<Longrightarrow> luks_window b w = None"
proof (induction b w rule: luks_window.induct)
  case (1 b w)
  let ?l = "takeWhile (\<lambda>c. \<not> is_eol c) w" and ?r = "drop 1 (dropWhile (\<lambda>c. \<not> is_eol c) w)"
  have "sublist ?l w" "sublist ?r w"
    by (metis sublist_append_rightI takeWhile_dropWhile_id, metis append_take_drop_id sublist_append_leftI sublist_order.order.trans takeWhile_dropWhile_id)
  with "1.prems" have "\<not> sublist ''pcrs'' ?l" "\<not> sublist ''pcrs'' ?r" using sublist_order.order.trans by blast+
  then have l: "pcr_mask_of_line ?l = None" and r: "\<not> sublist ''pcrs'' ?r" by (simp_all add: pcr_mask_of_line_def no_pcrs_key)
  show ?case
  proof (cases "w = []")
    case True
    then show ?thesis by (subst luks_window.simps) simp
  next
    case False
    from "1.IH" [OF False refl _ r] l have "luks_window b ?r = None" by simp
    with False l show ?thesis by (subst luks_window.simps, unfold Let_def) simp
  qed
qed

section \<open>The report of a token\<close>

text \<open>
  What \<open>luksDump\<close> prints of a systemd-tpm2 token, from its name on: other lines, the PCRs of the
  plain policy, other lines, the PCRs of the signed policy.
\<close>

definition hash_line :: "nat list \<Rightarrow> string" where
  "hash_line ps = TAB # ''tpm2-hash-pcrs:   '' @ pcr_list ps"

definition pubkey_line :: "nat list \<Rightarrow> string" where
  "pubkey_line ps = TAB # ''tpm2-pubkey-pcrs: '' @ pcr_list ps"

definition token_report :: "string list \<Rightarrow> nat list \<Rightarrow> string list \<Rightarrow> nat list \<Rightarrow> string" where
  "token_report ls ps ms qs = lf_lines (''systemd-tpm2'' # ls @ hash_line ps # ms @ [pubkey_line qs])"

definition mask_lists :: "u32 option \<Rightarrow> nat list \<Rightarrow> bool" where
  "mask_lists r ps = (case r of None \<Rightarrow> ps = [] | Some m \<Rightarrow> ps \<noteq> [] \<and> list_all (\<lambda>i. bit m i \<longleftrightarrow> i \<in> set ps) [0..<32])"

lemma pcr_list_chars: "c \<in> set (pcr_list ps) \<Longrightarrow> c_isdigit c \<or> c = CHR ''+''"
  by (induction ps rule: pcr_list.induct) (auto dest: dec_nat_digits)

lemma digit_no_eol: "c_isdigit c \<Longrightarrow> \<not> is_eol c \<and> c \<noteq> CHR ''p''"
  by (auto simp: c_isdigit_def is_eol_def char_le_iff byte_val_def)

lemma pcr_list_plain: "list_all (\<lambda>c. \<not> is_eol c) (pcr_list ps)" "\<not> sublist (CHR ''p'' # r) (pcr_list ps)"
proof -
  have "\<not> is_eol (CHR ''+'')" by (simp add: is_eol_def)
  then show "list_all (\<lambda>c. \<not> is_eol c) (pcr_list ps)"
    using pcr_list_chars digit_no_eol by (fastforce simp: list_all_iff)
  have "CHR ''p'' \<notin> set (pcr_list ps)" using pcr_list_chars digit_no_eol by fastforce
  then show "\<not> sublist (CHR ''p'' # r) (pcr_list ps)" using set_mono_sublist by fastforce
qed

lemma policy_lines:
  "list_all (\<lambda>c. \<not> is_eol c) (hash_line ps)" "list_all (\<lambda>c. \<not> is_eol c) (pubkey_line ps)"
  "\<not> has_sub (hash_line ps) ''pubkey''" "has_sub (pubkey_line ps) ''pubkey''"
  using pcr_list_plain [where ps = ps]
  by (simp_all add: hash_line_def pubkey_line_def is_eol_def has_sub_iff sublist_Cons_right)

lemma policy_mask:
  assumes "list_all (\<lambda>p. p < 32) ps"
  shows "mask_lists (pcr_mask_of_line (hash_line ps)) ps" "mask_lists (pcr_mask_of_line (pubkey_line ps)) ps"
proof -
  have "mask_lists (let (bits, found) = scan_runs (gap @ pcr_list ps) (0, False) in if found then Some bits else None) ps"
    if "list_all (\<lambda>c. \<not> c_isdigit c) gap" for gap
  proof (cases "ps = []")
    case True
    then show ?thesis using scan_no_digit [OF that, of "[]"] scan_runs.simps [of "[]"] by (simp add: mask_lists_def)
  next
    case False
    then show ?thesis using scan_pcr_list [OF False assms, of 0 False] scan_no_digit [OF that]
      by (auto simp: mask_lists_def list_all_iff)
  qed
  from this [of "''   ''"] this [of "'' ''"]
  show "mask_lists (pcr_mask_of_line (hash_line ps)) ps" "mask_lists (pcr_mask_of_line (pubkey_line ps)) ps"
    by (simp_all add: pcr_mask_of_line_def hash_line_def pubkey_line_def c_isdigit_def char_le_iff byte_val_def)
qed

lemma window_report:
  assumes "list_all plain_line (ls @ ms)" "\<not> sublist ''pcrs'' w"
  shows "luks_window False (token_report ls ps ms qs @ w) = pcr_mask_of_line (hash_line ps)"
    "luks_window True (token_report ls ps ms qs @ w) = pcr_mask_of_line (pubkey_line qs)"
proof -
  have token: "plain_line ''systemd-tpm2''" by code_simp
  have r: "token_report ls ps ms qs @ w = lf_lines (''systemd-tpm2'' # ls) @ hash_line ps @ LF # lf_lines ms @ pubkey_line qs @ LF # w"
    by (simp add: token_report_def lf_lines_def)
  have tail: "luks_window b (lf_lines ms @ pubkey_line qs @ LF # w) = (if b then pcr_mask_of_line (pubkey_line qs) else None)" for b
    using assms by (simp add: window_plain_lines window_line policy_lines window_no_pcrs split: option.split)
  have "luks_window b (token_report ls ps ms qs @ w) = luks_window b (hash_line ps @ LF # lf_lines ms @ pubkey_line qs @ LF # w)" for b
    unfolding r using assms(1) token by (intro window_plain_lines) simp
  then show "luks_window False (token_report ls ps ms qs @ w) = pcr_mask_of_line (hash_line ps)"
    "luks_window True (token_report ls ps ms qs @ w) = pcr_mask_of_line (pubkey_line qs)"
    by (simp_all add: window_line policy_lines tail split: option.split)
qed

lemma strstr_at: "\<not> sublist n (a @ butlast n) \<Longrightarrow> n \<noteq> [] \<Longrightarrow> strstr (a @ n @ r) n = Some (n @ r)"
proof (induction a)
  case Nil
  then show ?case by (cases n) simp_all
next
  case (Cons c a)
  have "\<not> prefix n (c # a @ n @ r)"
  proof
    assume "prefix n (c # a @ n @ r)"
    moreover have "prefix (c # a @ butlast n) (c # a @ n @ r)"
      by (metis append_butlast_last_id append_Cons append_assoc Cons.prems(2) prefixI)
    moreover have "length n \<le> length (c # a @ butlast n)" by simp
    ultimately have "prefix n (c # a @ butlast n)" by (rule prefix_length_prefix)
    with Cons.prems(1) show False by auto
  qed
  moreover have "\<not> sublist n (a @ butlast n)" using Cons.prems(1) by (auto simp: sublist_Cons_right)
  ultimately show ?case using Cons by simp
qed

section \<open>Properties\<close>

text \<open>
  Claim C25: on the report of a LUKS volume with a systemd-tpm2 token the mask of the plain policy has
  exactly the bits of the PCRs listed after tpm2-hash-pcrs, the mask of the signed policy exactly
  those listed after tpm2-pubkey-pcrs, and an empty list gives no mask. The other lines of the
  token may hold anything but the word pcrs, and the token must fit the window of 512 bytes.
\<close>

theorem luks_pcr_masks_of_report:
  assumes "\<not> sublist ''systemd-tpm2'' (pre @ ''systemd-tpm'')" "\<not> sublist ''pcrs'' post"
    and "list_all plain_line (ls @ ms)" "list_all (\<lambda>p. p < 32) (ps @ qs)" "length (token_report ls ps ms qs) \<le> 512"
  shows "mask_lists (bythos_parse_luks_pcr_mask (Some (pre @ token_report ls ps ms qs @ post))) ps \<and>
    mask_lists (bythos_luks_signed_policy_pcr_mask (Some (pre @ token_report ls ps ms qs @ post))) qs"
proof -
  let ?t = "token_report ls ps ms qs"
  obtain r where t: "?t = ''systemd-tpm2'' @ r" by (simp add: token_report_def lf_lines_def)
  have "strstr (pre @ ''systemd-tpm2'' @ r @ post) ''systemd-tpm2'' = Some (''systemd-tpm2'' @ r @ post)"
    using assms(1) by (intro strstr_at) simp_all
  then have pos: "strstr (pre @ ?t @ post) ''systemd-tpm2'' = Some (?t @ post)" unfolding t by simp
  have win: "take BYTHOS_LUKS_PCR_WINDOW_BYTES (?t @ post) = ?t @ take (512 - length ?t) post"
    using assms(5) by (simp add: BYTHOS_LUKS_PCR_WINDOW_BYTES_def)
  have "\<not> sublist ''pcrs'' (take (512 - length ?t) post)"
    using assms(2) sublist_order.order.trans sublist_take by blast
  note masks = window_report [OF assms(3) this]
  show ?thesis
    unfolding bythos_parse_luks_pcr_mask_def bythos_luks_signed_policy_pcr_mask_def luks_scan_pcrs_def option.case pos win masks
    using policy_mask(1) [of ps] policy_mask(2) [of qs] assms(4) by simp
qed

theorem luks_pcr_masks_of_report_witness:
  "mask_lists (bythos_parse_luks_pcr_mask (Some (''  0: '' @ token_report [] [0, 7] [TAB # ''tpm2-pubkey:''] [11] @ ''Digests:''))) [0, 7] \<and>
   mask_lists (bythos_luks_signed_policy_pcr_mask
     (Some (''  0: '' @ token_report [] [0, 7] [TAB # ''tpm2-pubkey:''] [11] @ ''Digests:''))) [11]"
proof (rule luks_pcr_masks_of_report)
  show "\<not> sublist ''systemd-tpm2'' (''  0: '' @ ''systemd-tpm'')" "\<not> sublist ''pcrs'' ''Digests:''"
    by (simp_all add: sublist_Cons_right)
  show "list_all plain_line ([] @ [TAB # ''tpm2-pubkey:''])"
    by (simp add: plain_line_def is_eol_def sublist_Cons_right)
  show "list_all (\<lambda>p. p < 32) ([0, 7] @ [11 :: nat])" by simp
  have "dec_nat 0 = ''0''" "dec_nat 7 = ''7''" "dec_nat 11 = ''11''" by code_simp+
  then show "length (token_report [] [0, 7] [TAB # ''tpm2-pubkey:''] [11]) \<le> 512"
    by (simp add: token_report_def lf_lines_def hash_line_def pubkey_line_def)
qed

end
