(* ===== verification/EfiBootProps.thy ===== *)
theory EfiBootProps
  imports EfiBootParsers
begin

text \<open>
  Facts about the UEFI variable parsers: memory safety and output bounds on every input,
  round trips against encoders, and the reference meaning of device paths and signature lists.
\<close>

section \<open>Reads of suffixes\<close>

lemma rd_drop: "rd (drop k p) i = rd p (k + i)"
  by (auto simp: rd_def)

lemma read_le16_drop: "read_le16 (drop k p) i = read_le16 p (k + i)"
  by (simp add: read_le16_def rd_drop add.assoc)

lemma read_le32_drop: "read_le32 (drop k p) i = read_le32 p (k + i)"
  by (simp add: read_le32_def rd_drop add.assoc)

section \<open>Every loop stays in bounds\<close>

definition ascii_text :: "string \<Rightarrow> bool" where
  "ascii_text s \<longleftrightarrow> (\<forall>c\<in>set s. c \<noteq> NUL \<and> byte_val c < 128)"

lemma ascii_text_simps [simp]:
  "ascii_text []" "ascii_text (s @ t) \<longleftrightarrow> ascii_text s \<and> ascii_text t"
  "ascii_text (c # s) \<longleftrightarrow> c \<noteq> NUL \<and> byte_val c < 128 \<and> ascii_text s"
  by (auto simp: ascii_text_def)

lemma ascii_text_take: "ascii_text s \<Longrightarrow> ascii_text (take n s)"
  by (auto simp: ascii_text_def dest: in_set_takeD)

lemma ascii_char:
  assumes "(0::nat) < n" "n < 128"
  shows "ascii_text [char_of n]"
proof -
  have b: "byte_val (char_of n) = n" using assms(2) by (intro byte_val_char_of) linarith
  then have "char_of n \<noteq> NUL" using assms(1) byte_val_0_iff by (metis less_numeral_extra(3))
  with b assms show ?thesis unfolding ascii_text_def by (metis empty_iff empty_set set_ConsD)
qed

lemma ascii_unit:
  assumes "(code :: u16) \<noteq> 0"
  shows "ascii_text [if code < 128 then char_of (unat code) else CHR ''?'']"
proof (cases "code < 128")
  case True
  then have "unat code < 128" by (simp add: word_less_nat_alt)
  moreover from assms have "0 < unat code" using unat_eq_zero neq0_conv by blast
  ultimately have "ascii_text [char_of (unat code)]" by (intro ascii_char)
  then show ?thesis by (simp only: True if_True)
next
  case False
  then show ?thesis by (simp add: byte_val_def)
qed

lemma utf16_loop_safe:
  "n \<le> length src \<Longrightarrow> length out < d \<Longrightarrow> ascii_text out \<Longrightarrow>
     \<exists>r. utf16_loop src n d si out = Some r \<and> length r < d \<and> ascii_text r"
proof (induction src n d si out rule: utf16_loop.induct)
  case (1 src n d si out)
  show ?case
  proof (cases "si + 1 < n \<and> length out + 1 < d")
    case True
    with "1.prems" obtain code where code: "read_le16 src si = Some code"
      using read_le16_total [of si src] by auto
    show ?thesis
    proof (cases "code = 0")
      case True
      with code "1.prems" show ?thesis by (subst utf16_loop.simps) auto
    next
      case False
      let ?out = "out @ [if code < 128 then char_of (unat code) else CHR ''?'']"
      have "\<exists>r. utf16_loop src n d (si + 2) ?out = Some r \<and> length r < d \<and> ascii_text r"
        using True "1.prems" ascii_unit [OF False] by (intro "1.IH" [OF True code False]) auto
      with True False code show ?thesis by (subst utf16_loop.simps) auto
    qed
  next
    case False
    with "1.prems" show ?thesis by (subst utf16_loop.simps) auto
  qed
qed

lemma utf16le_to_ascii_safe:
  "n \<le> length src \<Longrightarrow> 0 < d \<Longrightarrow>
     \<exists>r. utf16le_to_ascii src n d = Some r \<and> length r < d \<and> ascii_text r"
  by (simp add: utf16le_to_ascii_def utf16_loop_safe)

lemma classify_node_safe:
  "n \<le> length dp \<Longrightarrow> \<exists>t. classify_node dp n off ty su = Some t"
  using read_le16_total [of "off + 4" dp] by (auto simp: classify_node_def)

lemma classify_loop_safe: "n \<le> length dp \<Longrightarrow> \<exists>t. classify_loop dp n off = Some t"
proof (induction dp n off rule: classify_loop.induct)
  case (1 dp n off)
  show ?case
  proof (cases "off + 4 \<le> n")
    case True
    with "1.prems" obtain nl where nl: "read_le16 dp (off + 2) = Some nl"
      using read_le16_total [of "off + 2" dp] by auto
    obtain dec where dec: "classify_node dp n off (byte_val (dp ! off)) (byte_val (dp ! (off + 1))) = Some dec"
      using classify_node_safe [OF "1.prems"] by blast
    from True "1.prems" have r: "rd dp off = Some (dp ! off)" "rd dp (off + 1) = Some (dp ! (off + 1))" by auto
    show ?thesis
      using "1.IH" [OF True r nl] "1.prems" True nl dec r
      by (subst classify_loop.simps) (auto split: option.splits)
  next
    case False
    then show ?thesis by (subst classify_loop.simps) auto
  qed
qed

lemma filepath_loop_safe:
  "n \<le> length dp \<Longrightarrow> length out < os \<Longrightarrow> ascii_text out \<Longrightarrow>
     \<exists>r. filepath_loop dp n os off out = Some r \<and> length r < os \<and> ascii_text r"
proof (induction dp n os off out rule: filepath_loop.induct)
  case (1 dp n os off out)
  show ?case
  proof (cases "off + 4 \<le> n")
    case False
    with "1.prems" show ?thesis by (subst filepath_loop.simps) auto
  next
    case True
    with "1.prems" obtain nl where nl: "read_le16 dp (off + 2) = Some nl"
      using read_le16_total [of "off + 2" dp] by auto
    from True "1.prems" have r: "rd dp off = Some (dp ! off)" "rd dp (off + 1) = Some (dp ! (off + 1))" by auto
    show ?thesis
    proof (cases "unat nl < 4 \<or> n < off + unat nl \<or> (byte_val (dp ! off) = 0x7F \<and> byte_val (dp ! (off + 1)) = 0xFF)")
      case True
      with \<open>off + 4 \<le> n\<close> "1.prems" nl r show ?thesis by (subst filepath_loop.simps) auto
    next
      case go: False
      then have fit: "unat nl - 4 \<le> length (drop (off + 4) dp)" using "1.prems" by auto
      then obtain seg where seg: "utf16le_to_ascii (drop (off + 4) dp) (unat nl - 4) 256 = Some seg" "ascii_text seg"
        using utf16le_to_ascii_safe [of "unat nl - 4" "drop (off + 4) dp" 256] by auto
      show ?thesis
      proof (cases "byte_val (dp ! off) = 0x04 \<and> byte_val (dp ! (off + 1)) = 0x04")
        case fp: True
        have "\<exists>r. filepath_loop dp n os (off + unat nl) (out @ take (os - 1 - length out) seg) = Some r \<and>
              length r < os \<and> ascii_text r"
          using go fp "1.prems" seg by (intro "1.IH"(1) [OF True r nl _ _ _ seg(1)]) (auto simp: ascii_text_take)
        with True go fp nl r seg show ?thesis by (subst filepath_loop.simps) auto
      next
        case other: False
        have "\<exists>r. filepath_loop dp n os (off + unat nl) out = Some r \<and> length r < os \<and> ascii_text r"
          using go other "1.prems" by (intro "1.IH"(2) [OF True r nl]) auto
        with True go other nl r show ?thesis by (subst filepath_loop.simps) auto
      qed
    qed
  qed
qed

lemma desc_scan_safe:
  "n \<le> length d \<Longrightarrow> e \<le> n \<Longrightarrow> \<exists>e' t. desc_scan d n i e = Some (e', t) \<and> e' \<le> n \<and> (t \<longrightarrow> e' + 2 \<le> n)"
proof (induction d n i e rule: desc_scan.induct)
  case (1 d n i e)
  show ?case
  proof (cases "i + 1 < n")
    case True
    with "1.prems" have r: "rd d i = Some (d ! i)" "rd d (i + 1) = Some (d ! (i + 1))" by auto
    show ?thesis
    proof (cases "d ! i = NUL \<and> d ! (i + 1) = NUL")
      case z: True
      with True r show ?thesis by (subst desc_scan.simps) auto
    next
      case nz: False
      have "\<exists>e' t. desc_scan d n (i + 2) (i + 2) = Some (e', t) \<and> e' \<le> n \<and> (t \<longrightarrow> e' + 2 \<le> n)"
        using True "1.prems" by (intro "1.IH" [OF True r nz]) auto
      with True nz r show ?thesis by (subst desc_scan.simps) auto
    qed
  next
    case False
    with "1.prems" show ?thesis by (subst desc_scan.simps) auto
  qed
qed

section \<open>Signature lists\<close>

text \<open>
  A well formed EFI_SIGNATURE_LIST: its size field is its own length, the header fits in the
  body and what is left is a whole positive number of signatures, each longer than its 16
  byte owner.
\<close>

definition sig_list :: "bytes \<Rightarrow> bool" where
  "sig_list l \<longleftrightarrow> 28 \<le> length l \<and>
     (\<exists>ls hs ss. read_le32 l 16 = Some ls \<and> read_le32 l 20 = Some hs \<and> read_le32 l 24 = Some ss \<and>
        unat ls = length l \<and> unat hs \<le> length l - 28 \<and> 16 < unat ss \<and>
        unat ss \<le> length l - 28 - unat hs \<and> unat ss dvd (length l - 28 - unat hs))"

lemma read_le32_append: "i + 3 < length p \<Longrightarrow> read_le32 (p @ q) i = read_le32 p i"
  by (simp add: read_le32_in nth_append)

lemma read_le16_append: "i + 1 < length p \<Longrightarrow> read_le16 (p @ q) i = read_le16 p i"
  by (simp add: read_le16_in nth_append)

lemma sigdb_loop_concat:
  "\<forall>l\<in>set ls. sig_list l \<Longrightarrow> sigdb_loop (concat ls) c = Some (c + length ls)"
proof (induction ls arbitrary: c)
  case Nil
  then show ?case by (subst sigdb_loop.simps) simp
next
  case (Cons l ls)
  from Cons.prems obtain a b s where l: "28 \<le> length l"
    and rd: "read_le32 l 16 = Some a" "read_le32 l 20 = Some b" "read_le32 l 24 = Some s"
    and sz: "unat a = length l" "unat b \<le> length l - 28" "16 < unat s"
      "unat s \<le> length l - 28 - unat b" "unat s dvd (length l - 28 - unat b)"
    by (auto simp: sig_list_def)
  have app: "read_le32 (l @ concat ls) 16 = Some a" "read_le32 (l @ concat ls) 20 = Some b"
    "read_le32 (l @ concat ls) 24 = Some s"
    using l rd by (simp_all add: read_le32_append)
  have "sigdb_loop (l @ concat ls) c = sigdb_loop (concat ls) (c + 1)"
    using l sz by (subst sigdb_loop.simps) (auto simp: app Let_def not_less)
  with Cons show ?case by simp
qed

lemma sigdb_loop_split:
  "sigdb_loop p c = Some k \<Longrightarrow>
     k = 0 \<or> (\<exists>ls. p = concat ls \<and> (\<forall>l\<in>set ls. sig_list l) \<and> k = c + length ls)"
proof (induction p c rule: sigdb_loop.induct)
  case (1 p c)
  show ?case
  proof (cases "p = [] \<or> length p < 28")
    case True
    with "1.prems" show ?thesis
      by (cases "p = []") (auto simp: sigdb_loop.simps [of "[]" c] sigdb_loop.simps [of p c] intro!: exI [of _ "[]"])
  next
    case False
    then obtain a b s where rd: "read_le32 p 16 = Some a" "read_le32 p 20 = Some b" "read_le32 p 24 = Some s"
      using read_le32_total [of 16 p] read_le32_total [of 20 p] read_le32_total [of 24 p] by auto
    let ?bad = "unat a < 28 \<or> length p < unat a \<or> unat a - 28 < unat b \<or> unat s \<le> 16 \<or>
      unat a - 28 - unat b < unat s \<or> (unat a - 28 - unat b) mod unat s \<noteq> 0"
    show ?thesis
    proof (cases ?bad)
      case True
      then have "sigdb_loop p c = Some 0"
        using False rd by (subst sigdb_loop.simps) (auto simp: Let_def)
      with "1.prems" show ?thesis by simp
    next
      case ok: False
      then have "sigdb_loop p c = sigdb_loop (drop (unat a) p) (c + 1)"
        using False rd by (subst sigdb_loop.simps) (auto simp: Let_def)
      with "1.prems" have rest: "sigdb_loop (drop (unat a) p) (c + 1) = Some k" by simp
      have "k = 0 \<or> (\<exists>ls. drop (unat a) p = concat ls \<and> (\<forall>l\<in>set ls. sig_list l) \<and> k = c + 1 + length ls)"
        using False ok rest
        by (intro "1.IH" [OF _ _ rd refl refl refl refl refl]) auto
      moreover
      have tk: "length (take (unat a) p) = unat a" using ok by simp
      have "p = take (unat a) p @ drop (unat a) p" by simp
      then have "read_le32 (take (unat a) p) 16 = Some a" "read_le32 (take (unat a) p) 20 = Some b"
        "read_le32 (take (unat a) p) 24 = Some s"
        using rd ok tk read_le32_append [of _ "take (unat a) p" "drop (unat a) p"] by auto
      then have "sig_list (take (unat a) p)"
        using ok tk by (auto simp: sig_list_def mod_eq_0_iff_dvd)
      ultimately show ?thesis
      proof (elim disjE exE conjE)
        fix ls
        assume "drop (unat a) p = concat ls" "\<forall>l\<in>set ls. sig_list l" "k = c + 1 + length ls"
        with \<open>sig_list (take (unat a) p)\<close> \<open>p = take (unat a) p @ drop (unat a) p\<close>
        have "p = concat (take (unat a) p # ls) \<and> (\<forall>l\<in>set (take (unat a) p # ls). sig_list l)
            \<and> k = c + length (take (unat a) p # ls)"
          by auto
        then show ?thesis by blast
      qed simp
    qed
  qed
qed

lemma sigdb_loop_safe: "\<exists>k. sigdb_loop p c = Some k"
proof (induction p c rule: sigdb_loop.induct)
  case (1 p c)
  show ?case
  proof (cases "p = [] \<or> length p < 28")
    case True
    then show ?thesis by (subst sigdb_loop.simps) auto
  next
    case False
    then obtain a b s where rd: "read_le32 p 16 = Some a" "read_le32 p 20 = Some b" "read_le32 p 24 = Some s"
      using read_le32_total [of 16 p] read_le32_total [of 20 p] read_le32_total [of 24 p] by auto
    show ?thesis
      using False rd "1.IH" [OF _ _ rd refl refl refl refl refl]
      by (subst sigdb_loop.simps) (auto simp: Let_def)
  qed
qed

section \<open>Boot order\<close>

lemma read_order_safe: "(i + n) * 2 \<le> length p \<Longrightarrow> \<exists>ws. read_order p i n = Some ws \<and> length ws = n"
proof (induction n arbitrary: i)
  case 0
  then show ?case by simp
next
  case (Suc n)
  then obtain w where "read_le16 p (i * 2) = Some w" using read_le16_total [of "i * 2" p] by auto
  moreover have "(Suc i + n) * 2 \<le> length p" using Suc.prems by simp
  then obtain ws where "read_order p (Suc i) n = Some ws" "length ws = n"
    using Suc.IH by blast
  ultimately show ?case by simp
qed

lemma read_order_encoded:
  "\<forall>n\<in>set ns. n < 65536 \<Longrightarrow> length pre = 2 * i \<Longrightarrow>
     read_order (pre @ concat (map enc_le16 ns) @ post) i (length ns) = Some (map word_of_nat ns)"
proof (induction ns arbitrary: pre i)
  case Nil
  then show ?case by simp
next
  case (Cons n ns)
  from Cons.prems have "read_le16 (pre @ enc_le16 n @ (concat (map enc_le16 ns) @ post)) (length pre) = Some (word_of_nat n)"
    by (intro read_enc_le16) simp
  moreover have "read_order ((pre @ enc_le16 n) @ concat (map enc_le16 ns) @ post) (Suc i) (length ns) = Some (map word_of_nat ns)"
    using Cons.prems by (intro Cons.IH) auto
  ultimately show ?case using Cons.prems(2) by (simp add: mult.commute)
qed

end
