(* ===== verification/EfiBootEntry.thy ===== *)
theory EfiBootEntry
  imports EfiBootProps
begin

text \<open>
  The meaning of Boot#### variables: device paths as lists of nodes, the encoders of nodes,
  UTF-16 text and whole load options, and the properties of the UEFI parsers. What a node means
  is stated by the tables of the UEFI specification, not by the functions of the parser.
\<close>

section \<open>Encoders and reference meaning\<close>

text \<open>
  A UTF-16 text is a list of nonzero 16 bit units; the program shows the ASCII ones and a question
  mark for every other.
\<close>

type_synonym utf16 = "nat list"

definition units_ok :: "utf16 \<Rightarrow> bool" where
  "units_ok us \<longleftrightarrow> list_all (\<lambda>u. 0 < u \<and> u < 65536) us"

definition enc_utf16 :: "utf16 \<Rightarrow> bytes" where
  "enc_utf16 us = concat (map enc_le16 us)"

definition shown :: "utf16 \<Rightarrow> string" where
  "shown us = map (\<lambda>u. if u < 128 then char_of u else CHR ''?'') us"

text \<open>
  The nodes of a device path: a file path node with its text (and what follows the text: nothing, or
  a terminator), a BBS boot node with its device type, and any other node with its type, subtype
  and payload.
\<close>

datatype dp_node = FilePathNode utf16 bytes | BbsNode nat bytes | OtherNode nat nat bytes

type_synonym raw_node = "nat \<times> nat \<times> bytes"

fun raw_node :: "dp_node \<Rightarrow> raw_node" where
  "raw_node (FilePathNode us pad) = (0x04, 0x04, enc_utf16 us @ pad)"
| "raw_node (BbsNode device rest) = (0x05, 0x01, enc_le16 device @ rest)"
| "raw_node (OtherNode t s p) = (t, s, p)"

fun enc_raw :: "raw_node \<Rightarrow> bytes" where
  "enc_raw (t, s, p) = char_of t # char_of s # enc_le16 (4 + length p) @ p"

definition enc_raws :: "raw_node list \<Rightarrow> bytes" where
  "enc_raws ns = concat (map enc_raw ns)"

definition end_node :: bytes where
  "end_node = CHR 0x7F # CHR 0xFF # enc_le16 4"

text \<open>A whole device path with its END node.\<close>

definition enc_path :: "dp_node list \<Rightarrow> bytes" where
  "enc_path ns = enc_raws (map raw_node ns) @ end_node"

fun node_ok :: "dp_node \<Rightarrow> bool" where
  "node_ok (FilePathNode us pad) \<longleftrightarrow> units_ok us \<and> (pad = [] \<or> take 2 pad = [NUL, NUL]) \<and>
     4 + 2 * length us + length pad < 65536"
| "node_ok (BbsNode device rest) \<longleftrightarrow> device < 65536 \<and> 6 + length rest < 65536"
| "node_ok (OtherNode t s p) \<longleftrightarrow> t < 256 \<and> s < 256 \<and> 4 + length p < 65536 \<and>
     (t, s) \<notin> {(0x7F, 0xFF), (0x04, 0x04), (0x05, 0x01)}"

text \<open>
  What decides the type of an entry: messaging nodes (3) for USB, USB class and USB WWID, and for
  InfiniBand, MAC, IPv4, IPv6 and URI; media nodes (4) for hard drive, CD-ROM and file path; the
  device type of a BBS boot node, where 0x80 is the bootstrap entry vector under which removable USB
  appears with the compatibility module on.
\<close>

definition node_types :: "((nat \<times> nat) \<times> efi_boot_type) list" where
  "node_types =
    [((0x03, 0x05), EFI_BOOT_TYPE_USB), ((0x03, 0x0F), EFI_BOOT_TYPE_USB), ((0x03, 0x10), EFI_BOOT_TYPE_USB),
     ((0x03, 0x09), EFI_BOOT_TYPE_NETWORK), ((0x03, 0x0B), EFI_BOOT_TYPE_NETWORK),
     ((0x03, 0x0C), EFI_BOOT_TYPE_NETWORK), ((0x03, 0x0D), EFI_BOOT_TYPE_NETWORK),
     ((0x03, 0x18), EFI_BOOT_TYPE_NETWORK),
     ((0x04, 0x01), EFI_BOOT_TYPE_DISK), ((0x04, 0x02), EFI_BOOT_TYPE_CD)]"

definition bbs_types :: "(nat \<times> efi_boot_type) list" where
  "bbs_types = [(0x02, EFI_BOOT_TYPE_DISK), (0x03, EFI_BOOT_TYPE_CD), (0x05, EFI_BOOT_TYPE_USB),
     (0x06, EFI_BOOT_TYPE_NETWORK), (0x80, EFI_BOOT_TYPE_USB)]"

fun node_type :: "dp_node \<Rightarrow> efi_boot_type option" where
  "node_type (FilePathNode us pad) = Some EFI_BOOT_TYPE_DISK"
| "node_type (BbsNode device rest) = map_of bbs_types device"
| "node_type (OtherNode t s p) = map_of node_types (t, s)"

fun path_type :: "dp_node list \<Rightarrow> efi_boot_type option" where
  "path_type [] = None"
| "path_type (n # ns) = (case node_type n of Some t \<Rightarrow> Some t | None \<Rightarrow> path_type ns)"

text \<open>The type a description suggests: the first group one of whose words occurs in any case.\<close>

definition mentions :: "string \<Rightarrow> string list \<Rightarrow> bool" where
  "mentions desc ws \<longleftrightarrow> list_ex (\<lambda>w. sublist w (map c_tolower desc)) ws"

definition description_type :: "string \<Rightarrow> efi_boot_type" where
  "description_type desc =
     (if mentions desc [''usb'', ''removable''] then EFI_BOOT_TYPE_USB
      else if mentions desc [''network'', ''pxe'', ''ipv4'', ''ipv6'', ''lan''] then EFI_BOOT_TYPE_NETWORK
      else if mentions desc [''cd'', ''dvd''] then EFI_BOOT_TYPE_CD
      else EFI_BOOT_TYPE_UNKNOWN)"

definition entry_type :: "dp_node list \<Rightarrow> string \<Rightarrow> efi_boot_type" where
  "entry_type ns desc = (case path_type ns of Some t \<Rightarrow> t | None \<Rightarrow> description_type desc)"

fun node_text :: "dp_node \<Rightarrow> string" where
  "node_text (FilePathNode us pad) = shown us"
| "node_text n = []"

definition enc_boot_entry :: "bytes \<Rightarrow> nat \<Rightarrow> utf16 \<Rightarrow> bytes \<Rightarrow> bytes \<Rightarrow> bytes" where
  "enc_boot_entry hdr attrs desc dp opt =
     hdr @ enc_le32 attrs @ enc_le16 (length dp) @ enc_utf16 desc @ [NUL, NUL] @ dp @ opt"

section \<open>Raw nodes\<close>

text \<open>What the parser's own classifiers make of a node; related to the tables below.\<close>

fun raw_ok :: "raw_node \<Rightarrow> bool" where
  "raw_ok (t, s, p) \<longleftrightarrow> t < 256 \<and> s < 256 \<and> 4 + length p < 65536 \<and>
     \<not> (t = 0x7F \<and> s = 0xFF) \<and> (t = 0x05 \<and> s = 0x01 \<longrightarrow> 2 \<le> length p)"

fun raw_type :: "raw_node \<Rightarrow> efi_boot_type option" where
  "raw_type (t, s, p) =
     (if t = 0x05 \<and> s = 0x01 then classify_bbs (word_of_nat (byte_val (p ! 0) + 256 * byte_val (p ! 1)))
      else if t = 0x03 then classify_msg s
      else if t = 0x04 then classify_media s else None)"

fun raw_path_type :: "raw_node list \<Rightarrow> efi_boot_type" where
  "raw_path_type [] = EFI_BOOT_TYPE_UNKNOWN"
| "raw_path_type (n # ns) = (case raw_type n of Some t \<Rightarrow> t | None \<Rightarrow> raw_path_type ns)"

fun raw_text :: "raw_node \<Rightarrow> string" where
  "raw_text (t, s, p) =
     (if t = 0x04 \<and> s = 0x04 then the (utf16le_to_ascii p (length p) 256) else [])"

section \<open>UTF-16 text\<close>

lemma enc_utf16_simps [simp]: "enc_utf16 [] = []" "enc_utf16 (u # us) = enc_le16 u @ enc_utf16 us"
  by (simp_all add: enc_utf16_def)

lemma length_enc_utf16 [simp]: "length (enc_utf16 us) = 2 * length us"
  by (induction us) auto

lemma units_ok_simps [simp]: "units_ok []" "units_ok (u # us) \<longleftrightarrow> 0 < u \<and> u < 65536 \<and> units_ok us"
  by (auto simp: units_ok_def)

lemma shown_simps [simp]: "shown [] = []"
  "shown (u # us) = (if u < 128 then char_of u else CHR ''?'') # shown us" "length (shown us) = length us"
  by (simp_all add: shown_def)

lemma byte_val_NUL [simp]: "byte_val NUL = 0"
  by (simp add: byte_val_def)

lemma unat_unit: "n < 65536 \<Longrightarrow> unat (word_of_nat n :: u16) = n"
  by (simp add: unat_of_nat take_bit_eq_mod)

lemma word_unit:
  assumes "0 < u" "u < 65536"
  shows "(word_of_nat u :: u16) \<noteq> 0" "(word_of_nat u :: u16) < 128 \<longleftrightarrow> u < 128"
  using assms unat_unit [of u] by (auto simp: word_less_nat_alt)

text \<open>
  The loop reads the units up to the count or to a terminator, and keeps what fits the output.
\<close>

lemma utf16_loop_encoded:
  assumes "units_ok us" "length out < d" "k = 0 \<or> 2 \<le> k \<and> take 2 post = [NUL, NUL]"
  shows "utf16_loop (pre @ enc_utf16 us @ post) (length pre + 2 * length us + k) d (length pre) out
    = Some (take (d - 1) (out @ shown us))"
  using assms
proof (induction us arbitrary: pre out)
  case Nil
  from Nil.prems(3) have "2 \<le> k \<Longrightarrow> read_le16 (pre @ post) (length pre) = Some 0"
    by (cases post; cases "tl post") (auto simp: read_le16_in nth_append)
  with Nil.prems show ?case by (subst utf16_loop.simps) auto
next
  case (Cons u us)
  let ?src = "pre @ enc_utf16 (u # us) @ post" and ?n = "length pre + 2 * length (u # us) + k"
  from Cons.prems(1) have u: "0 < u" "u < 65536" "units_ok us" by auto
  show ?case
  proof (cases "length out + 1 < d")
    case True
    have "read_le16 ?src (length pre) = Some (word_of_nat u)"
      using read_enc_le16 [OF u(2), of pre "enc_utf16 us @ post"] by simp
    then have "utf16_loop ?src ?n d (length pre) out
        = utf16_loop ?src ?n d (length pre + 2) (out @ [if u < 128 then char_of u else CHR ''?''])"
      using True by (subst utf16_loop.simps) (simp add: word_unit [OF u(1,2)] unat_unit [OF u(2)])
    also have "\<dots> = Some (take (d - 1) ((out @ [if u < 128 then char_of u else CHR ''?'']) @ shown us))"
      using Cons.IH [of "out @ [if u < 128 then char_of u else CHR ''?'']" "pre @ enc_le16 u"] u(3) True Cons.prems(3)
      by simp
    finally show ?thesis by simp
  next
    case False
    with Cons.prems(2) have "length out = d - 1" by simp
    with False show ?thesis by (subst utf16_loop.simps) simp
  qed
qed

lemma utf16_encoded:
  "units_ok us \<Longrightarrow> 0 < d \<Longrightarrow> utf16le_to_ascii (enc_utf16 us @ post) (2 * length us) d = Some (take (d - 1) (shown us))"
  using utf16_loop_encoded [of us "[]" d 0 post "[]"] by (simp add: utf16le_to_ascii_def)

lemma utf16_node_text:
  assumes "units_ok us" "pad = [] \<or> take 2 pad = [NUL, NUL]"
  shows "utf16le_to_ascii (enc_utf16 us @ pad) (2 * length us + length pad) 256 = Some (take 255 (shown us))"
proof -
  have "length pad = 0 \<or> 2 \<le> length pad \<and> take 2 pad = [NUL, NUL]"
    using assms(2) by (cases pad; cases "tl pad") auto
  then show ?thesis
    using utf16_loop_encoded [of us "[]" 256 "length pad" pad "[]"] assms(1) by (simp add: utf16le_to_ascii_def)
qed

text \<open>Bytes past the given count do not matter.\<close>

lemma utf16_loop_append:
  "n \<le> length src \<Longrightarrow> utf16_loop (src @ post) n d si out = utf16_loop src n d si out"
proof (induction src n d si out rule: utf16_loop.induct)
  case (1 src n d si out)
  show ?case
  proof (cases "si + 1 < n \<and> length out + 1 < d")
    case True
    with "1.prems" obtain code where code: "read_le16 src si = Some code"
      using read_le16_total [of si src] by auto
    with True "1.prems" have code': "read_le16 (src @ post) si = Some code"
      by (simp add: read_le16_append)
    show ?thesis
      using "1.IH" [OF True code _ "1.prems"]
      by (subst (1 2) utf16_loop.simps) (simp add: code code')
  next
    case False
    then have "utf16_loop q n d si out = Some out" for q
      by (simp only: utf16_loop.simps [of q n d si out] if_False)
    then show ?thesis by simp
  qed
qed

lemma char_of_NUL: "char_of (n :: nat) = NUL \<longleftrightarrow> n mod 256 = 0"
  using byte_val_char_of_mod [of n] byte_val_0_iff [of "char_of n"] by simp

lemma desc_scan_encoded:
  "units_ok us \<Longrightarrow>
     desc_scan (pre @ enc_utf16 us @ NUL # NUL # post) (length pre + 2 * length us + 2 + length post) (length pre) (length pre)
     = Some (length pre + 2 * length us, True)"
proof (induction us arbitrary: pre)
  case Nil
  then show ?case by (subst desc_scan.simps) (simp add: rd_def nth_append)
next
  case (Cons u us)
  let ?src = "pre @ enc_utf16 (u # us) @ NUL # NUL # post" and ?n = "length pre + 2 * length (u # us) + 2 + length post"
  from Cons.prems have "\<not> (u mod 256 = 0 \<and> u div 256 mod 256 = 0)" using nat16_split [of u] by auto
  then have "desc_scan ?src ?n (length pre) (length pre) = desc_scan ?src ?n (length pre + 2) (length pre + 2)"
    by (subst desc_scan.simps) (auto simp: nth_append enc_le16_def char_of_NUL)
  also have "\<dots> = Some (length pre + 2 * length (u # us), True)"
    using Cons.IH [of "pre @ enc_le16 u"] Cons.prems by simp
  finally show ?case .
qed

section \<open>Device paths\<close>

lemma length_enc_raw: "length (enc_raw (t, s, p)) = 4 + length p"
  by simp

text \<open>The three reads at the head of a node.\<close>

lemma node_reads:
  assumes "raw_ok (t, s, p)" and dp: "dp = pre @ enc_raw (t, s, p) @ post"
  shows "rd dp (length pre) = Some (char_of t)" "rd dp (length pre + 1) = Some (char_of s)"
    "read_le16 dp (length pre + 2) = Some (word_of_nat (4 + length p))"
proof -
  show "rd dp (length pre) = Some (char_of t)" "rd dp (length pre + 1) = Some (char_of s)"
    by (simp_all add: dp rd_def nth_append)
  have "read_le16 ((pre @ [char_of t, char_of s]) @ enc_le16 (4 + length p) @ (p @ post)) (length (pre @ [char_of t, char_of s]))
      = Some (word_of_nat (4 + length p))"
    using assms(1) by (intro read_enc_le16) simp
  then show "read_le16 dp (length pre + 2) = Some (word_of_nat (4 + length p))" by (simp add: dp)
qed

lemma classify_node_encoded:
  assumes ok: "raw_ok (t, s, p)" and dp: "dp = pre @ enc_raw (t, s, p) @ post"
    and n: "length pre + 4 + length p \<le> n"
  shows "classify_node dp n (length pre) t s = Some (raw_type (t, s, p))"
proof (cases "t = 0x05 \<and> s = 0x01")
  case True
  then have p: "2 \<le> length p" using ok by simp
  then obtain x y q where pq: "p = x # y # q" by (cases p; cases "tl p") auto
  have idx: "dp ! (length pre + 4) = p ! 0" "dp ! (length pre + 4 + 1) = p ! 1"
    by (simp_all add: dp pq nth_append enc_le16_def)
  have "length pre + 4 + 1 < length dp" using p by (simp add: dp)
  then have "read_le16 dp (length pre + 4) = Some (word_of_nat (byte_val (p ! 0) + 256 * byte_val (p ! 1)))"
    by (simp only: read_le16_in idx)
  with True p n show ?thesis by (simp add: classify_node_def split: option.split)
next
  case False
  then show ?thesis by (auto simp: classify_node_def split: option.split)
qed

lemma classify_loop_node:
  assumes ok: "raw_ok (t, s, p)" and dp: "dp = pre @ enc_raw (t, s, p) @ post"
    and n: "length pre + 4 + length p \<le> n"
  shows "classify_loop dp n (length pre) =
    (case raw_type (t, s, p) of Some b \<Rightarrow> Some b
     | None \<Rightarrow> classify_loop dp n (length (pre @ enc_raw (t, s, p))))"
proof -
  note r = node_reads [OF ok dp]
  from ok have "t < 256" "s < 256" "4 + length p < 65536" by auto
  then have b: "byte_val (char_of t) = t" "byte_val (char_of s) = s"
    "unat (word_of_nat (4 + length p) :: u16) = 4 + length p"
    by (simp_all only: byte_val_char_of unat_unit)
  have len: "length (pre @ enc_raw (t, s, p)) = length pre + (4 + length p)" by simp
  have go: "(length pre + 4 \<le> n) = True" "(4 + length p < 4) = False" "(t = 0x7F \<and> s = 0xFF) = False"
    using n ok by auto
  show ?thesis
    unfolding len
    by (subst classify_loop.simps)
      (simp only: go r bind.simps b classify_node_encoded [OF ok dp n] if_True if_False)
qed

lemma end_node_reads:
  "dp = pre @ end_node @ post \<Longrightarrow> rd dp (length pre) = Some (CHR 0x7F) \<and> rd dp (length pre + 1) = Some (CHR 0xFF) \<and>
     read_le16 dp (length pre + 2) = Some 4"
  using read_enc_le16 [of 4 "pre @ [CHR 0x7F, CHR 0xFF]" post]
  by (simp add: end_node_def rd_def nth_append)

lemma byte_val_end [simp]: "byte_val (CHR 0x7F) = 127" "byte_val (CHR 0xFF) = 255"
  by (simp_all add: byte_val_def)

lemma classify_loop_end:
  "dp = pre @ end_node @ post \<Longrightarrow> classify_loop dp n (length pre) = Some EFI_BOOT_TYPE_UNKNOWN"
  using end_node_reads [of dp pre post] by (subst classify_loop.simps) simp

lemma classify_loop_path:
  "\<forall>n\<in>set ns. raw_ok n \<Longrightarrow> length (pre @ enc_raws ns) \<le> n \<Longrightarrow>
     classify_loop (pre @ enc_raws ns @ end_node @ post) n (length pre) = Some (raw_path_type ns)"
proof (induction ns arbitrary: pre)
  case Nil
  then show ?case by (simp add: enc_raws_def classify_loop_end)
next
  case (Cons m ns)
  obtain t s p where m: "m = (t, s, p)" by (cases m)
  have dp: "pre @ enc_raws (m # ns) @ end_node @ post = pre @ enc_raw (t, s, p) @ (enc_raws ns @ end_node @ post)"
    by (simp add: enc_raws_def m)
  have "length pre + 4 + length p \<le> n" using Cons.prems(2) by (simp add: enc_raws_def m)
  then have "classify_loop (pre @ enc_raws (m # ns) @ end_node @ post) n (length pre) =
      (case raw_type (t, s, p) of Some b \<Rightarrow> Some b
       | None \<Rightarrow> classify_loop (pre @ enc_raws (m # ns) @ end_node @ post) n (length (pre @ enc_raw (t, s, p))))"
    using Cons.prems(1) m by (intro classify_loop_node [OF _ dp]) auto
  moreover have "classify_loop ((pre @ enc_raw (t, s, p)) @ enc_raws ns @ end_node @ post) n (length (pre @ enc_raw (t, s, p)))
      = Some (raw_path_type ns)"
    using Cons.prems by (intro Cons.IH) (auto simp: enc_raws_def m)
  then have "classify_loop (pre @ enc_raws (m # ns) @ end_node @ post) n (length (pre @ enc_raw (t, s, p)))
      = Some (raw_path_type ns)"
    by (simp only: dp append_assoc)
  ultimately show ?case
    by (simp only: m raw_path_type.simps) (cases "raw_type (t, s, p)"; simp only: option.case)
qed

section \<open>File paths\<close>

lemma utf16_total: "n \<le> length p \<Longrightarrow> utf16le_to_ascii p n 256 = Some (the (utf16le_to_ascii p n 256))"
  using utf16le_to_ascii_safe [of n p 256] by auto

lemma filepath_loop_node:
  assumes ok: "raw_ok (t, s, p)" and dp: "dp = pre @ enc_raw (t, s, p) @ post"
    and n: "length pre + 4 + length p \<le> n"
  shows "filepath_loop dp n os (length pre) out =
    filepath_loop dp n os (length (pre @ enc_raw (t, s, p))) (out @ take (os - 1 - length out) (raw_text (t, s, p)))"
proof -
  note r = node_reads [OF ok dp]
  from ok have "t < 256" "s < 256" "4 + length p < 65536" by auto
  then have b: "byte_val (char_of t) = t" "byte_val (char_of s) = s"
    "unat (word_of_nat (4 + length p) :: u16) = 4 + length p"
    by (simp_all only: byte_val_char_of unat_unit)
  have len: "length (pre @ enc_raw (t, s, p)) = length pre + (4 + length p)" by simp
  have go: "(length pre + 4 \<le> n) = True" "(4 + length p < 4 \<or> n < length pre + (4 + length p)) = False"
    "(t = 0x7F \<and> s = 0xFF) = False"
    using n ok by auto
  have "utf16le_to_ascii (p @ post) (length p) 256 = utf16le_to_ascii p (length p) 256"
    by (simp add: utf16le_to_ascii_def utf16_loop_append)
  then have seg: "utf16le_to_ascii (drop (length pre + 4) dp) (4 + length p - 4) 256
      = Some (the (utf16le_to_ascii p (length p) 256))"
    using utf16_total [of "length p" p] by (simp add: dp enc_le16_def)
  show ?thesis
    unfolding len
    by (subst filepath_loop.simps)
      (simp only: go r bind.simps b seg if_True if_False, simp)
qed

lemma filepath_loop_end:
  "dp = pre @ end_node @ post \<Longrightarrow> filepath_loop dp n os (length pre) out = Some out"
  using end_node_reads [of dp pre post] by (subst filepath_loop.simps) simp

lemma take_room: "length out \<le> k \<Longrightarrow> take k (out @ a @ b) = take k ((out @ take (k - length out) a) @ b)"
  by (simp add: min_def)

lemma filepath_loop_path:
  "\<forall>n\<in>set ns. raw_ok n \<Longrightarrow> length (pre @ enc_raws ns) \<le> n \<Longrightarrow> length out \<le> os - 1 \<Longrightarrow>
     filepath_loop (pre @ enc_raws ns @ end_node @ post) n os (length pre) out
     = Some (take (os - 1) (out @ concat (map raw_text ns)))"
proof (induction ns arbitrary: pre out)
  case Nil
  then show ?case by (simp add: enc_raws_def filepath_loop_end)
next
  case (Cons m ns)
  obtain t s p where m: "m = (t, s, p)" by (cases m)
  let ?out = "out @ take (os - 1 - length out) (raw_text (t, s, p))"
  have dp: "pre @ enc_raws (m # ns) @ end_node @ post = pre @ enc_raw (t, s, p) @ (enc_raws ns @ end_node @ post)"
    by (simp add: enc_raws_def m)
  have "length pre + 4 + length p \<le> n" using Cons.prems(2) by (simp add: enc_raws_def m)
  then have "filepath_loop (pre @ enc_raws (m # ns) @ end_node @ post) n os (length pre) out =
      filepath_loop (pre @ enc_raws (m # ns) @ end_node @ post) n os (length (pre @ enc_raw (t, s, p))) ?out"
    using Cons.prems(1) m by (intro filepath_loop_node [OF _ dp]) auto
  also have "\<dots> = filepath_loop ((pre @ enc_raw (t, s, p)) @ enc_raws ns @ end_node @ post) n os (length (pre @ enc_raw (t, s, p))) ?out"
    by (simp only: dp append_assoc)
  also have "\<dots> = Some (take (os - 1) (?out @ concat (map raw_text ns)))"
    using Cons.prems by (intro Cons.IH) (auto simp: enc_raws_def m)
  also have "\<dots> = Some (take (os - 1) (out @ concat (map raw_text (m # ns))))"
    using take_room [OF Cons.prems(3)] by (simp only: m list.map concat.simps)
  finally show ?case .
qed

section \<open>Whole variables\<close>

lemma boot_entry_layout:
  fixes desc :: utf16 and opt :: bytes
  assumes hdr: "length hdr = 4" and attrs: "attrs < 4294967296" and len: "length dp < 65536"
  defines "p \<equiv> drop EFI_VAR_ATTR_SIZE (enc_boot_entry hdr attrs desc dp opt)"
  shows "read_le32 p 0 = Some (word_of_nat attrs)" "read_le16 p 4 = Some (word_of_nat (length dp))"
    "drop 6 p = enc_utf16 desc @ NUL # NUL # dp @ opt"
    "drop (6 + 2 * length desc + 2) p = dp @ opt"
    "length p = 6 + 2 * length desc + 2 + length dp + length opt"
proof -
  have p: "p = enc_le32 attrs @ enc_le16 (length dp) @ enc_utf16 desc @ NUL # NUL # dp @ opt"
    using hdr by (simp add: p_def enc_boot_entry_def EFI_VAR_ATTR_SIZE_def)
  show "read_le32 p 0 = Some (word_of_nat attrs)"
    using read_enc_le32 [OF attrs, of "[]"] by (simp add: p)
  show "read_le16 p 4 = Some (word_of_nat (length dp))"
    using read_enc_le16 [OF len, of "enc_le32 attrs"] by (simp add: p)
  have split: "p = (enc_le32 attrs @ enc_le16 (length dp)) @ enc_utf16 desc @ NUL # NUL # dp @ opt"
    by (simp add: p)
  then show d6: "drop 6 p = enc_utf16 desc @ NUL # NUL # dp @ opt" by simp
  have "drop (6 + 2 * length desc + 2) p = drop (2 * length desc + 2) (drop 6 p)"
    by (simp add: add.commute)
  also have "\<dots> = dp @ opt" unfolding d6 by simp
  finally show "drop (6 + 2 * length desc + 2) p = dp @ opt" .
  show "length p = 6 + 2 * length desc + 2 + length dp + length opt" by (simp add: p)
qed

lemma word1_odd: "n < 4294967296 \<Longrightarrow> ((word_of_nat n :: u32) AND 1 \<noteq> 0) = odd n"
  by (simp add: and_one_eq flip: odd_iff_mod_2_eq_one)

lemma parse_boot_entry_encoded:
  assumes hdr: "length hdr = 4" and attrs: "attrs < 4294967296"
    and desc: "units_ok desc"
    and dp: "dp = enc_raws ns @ end_node" "length dp < 65536" "\<forall>n\<in>set ns. raw_ok n"
  shows "bythos_parse_efi_boot_entry (Some (enc_boot_entry hdr attrs desc dp opt)) number =
    Some (True, \<lparr>be_number = number, be_active = odd attrs,
      be_type = (if raw_path_type ns = EFI_BOOT_TYPE_UNKNOWN then classify_description (take 127 (shown desc))
                 else raw_path_type ns),
      be_description = take 127 (shown desc), be_filepath = take 255 (concat (map raw_text ns))\<rparr>)"
proof -
  let ?d = "enc_boot_entry hdr attrs desc dp opt"
  let ?p = "drop EFI_VAR_ATTR_SIZE ?d"
  note lay = boot_entry_layout [OF hdr attrs dp(2), of desc opt]
  have ld: "length ?d = 4 + (6 + 2 * length desc + 2 + length dp + length opt)"
    using hdr by (simp add: enc_boot_entry_def)
  have dp4: "4 \<le> length dp" using dp(1) by (simp add: end_node_def)
  have un: "unat (word_of_nat (length dp) :: u16) = length dp" using dp(2) by (rule unat_unit)
  have scan: "desc_scan (enc_utf16 desc @ NUL # NUL # dp @ opt) (2 * length desc + 2 + (length dp + length opt)) 0 0
      = Some (2 * length desc, True)"
    using desc_scan_encoded [OF desc, of "[]" "dp @ opt"] by simp
  have desc_txt: "utf16le_to_ascii (enc_utf16 desc @ NUL # NUL # dp @ opt) (2 * length desc) 128 = Some (take 127 (shown desc))"
    using utf16_encoded [OF desc, of 128] by simp
  have cls: "classify_device_path (dp @ opt) (length dp) = Some (raw_path_type ns)"
    using classify_loop_path [OF dp(3), of "[]" "length dp" opt] by (simp add: classify_device_path_def dp(1))
  have fp: "dp_extract_filepath (dp @ opt) (length dp) 256 = Some (take 255 (concat (map raw_text ns)))"
    using filepath_loop_path [OF dp(3), of "[]" "length dp" "[]" 256 opt] by (simp add: dp_extract_filepath_def dp(1))
  have "(length ?d < 12) = False" using ld dp4 by simp
  moreover have "length ?d - EFI_VAR_ATTR_SIZE = 6 + 2 * length desc + 2 + length dp + length opt"
    by (simp add: ld EFI_VAR_ATTR_SIZE_def)
  moreover have "min (length dp + length opt) (length dp) = length dp" by simp
  moreover have "dp \<noteq> []" using dp4 by auto
  ultimately show ?thesis
    using lay(1-4) scan desc_txt cls fp un word1_odd [OF attrs]
    by (simp add: bythos_parse_efi_boot_entry_def Let_def algebra_simps)
qed

section \<open>Nodes and their meaning\<close>

lemma raw_ok_node: "node_ok n \<Longrightarrow> raw_ok (raw_node n)"
  by (cases n) auto

lemma word_of_unit: "n < 65536 \<Longrightarrow> (word_of_nat n :: u16) = w \<longleftrightarrow> n = unat w"
  by (simp add: word_unat_eq_iff unat_unit)

lemma raw_type_node: "node_ok n \<Longrightarrow> raw_type (raw_node n) = node_type n"
proof (cases n)
  case (FilePathNode us pad)
  then show ?thesis by (simp add: classify_media_def)
next
  case (BbsNode device rest)
  moreover assume "node_ok n"
  ultimately have d: "device < 65536" by simp
  have "byte_val (char_of (device mod 256)) + 256 * byte_val (char_of (device div 256 mod 256)) = device"
    unfolding byte_val_char_of_mod by (rule nat16_split [OF d])
  then have "raw_type (raw_node n) = classify_bbs (word_of_nat device)"
    by (simp add: BbsNode enc_le16_def)
  also have "\<dots> = map_of bbs_types device"
    by (simp add: classify_bbs_def bbs_types_def word_of_unit [OF d])
  finally show ?thesis by (simp add: BbsNode)
next
  case (OtherNode t s p)
  moreover assume "node_ok n"
  ultimately show ?thesis by (auto simp: classify_msg_def classify_media_def node_types_def)
qed

lemma node_type_known: "node_type n = Some t \<Longrightarrow> t \<noteq> EFI_BOOT_TYPE_UNKNOWN"
proof -
  have "map_of bbs_types d = Some t \<Longrightarrow> t \<noteq> EFI_BOOT_TYPE_UNKNOWN" for d
    by (drule map_of_SomeD) (auto simp: bbs_types_def)
  moreover have "map_of node_types ts = Some t \<Longrightarrow> t \<noteq> EFI_BOOT_TYPE_UNKNOWN" for ts
    by (drule map_of_SomeD) (auto simp: node_types_def)
  ultimately show "node_type n = Some t \<Longrightarrow> t \<noteq> EFI_BOOT_TYPE_UNKNOWN" by (cases n) auto
qed

lemma path_type_known: "path_type ns = Some t \<Longrightarrow> t \<noteq> EFI_BOOT_TYPE_UNKNOWN"
  by (induction ns) (auto split: option.splits dest: node_type_known)

lemma raw_path_type_nodes:
  "list_all node_ok ns \<Longrightarrow>
     raw_path_type (map raw_node ns) = (case path_type ns of Some t \<Rightarrow> t | None \<Rightarrow> EFI_BOOT_TYPE_UNKNOWN)"
  by (induction ns) (auto simp: raw_type_node split: option.split)

lemma classify_description_type: "length desc < 128 \<Longrightarrow> classify_description desc = description_type desc"
  by (simp add: classify_description_def description_type_def mentions_def has_sub_iff to_lower_fits Let_def)

lemma raw_text_node: "node_ok n \<Longrightarrow> raw_text (raw_node n) = take 255 (node_text n)"
  by (cases n) (auto simp: utf16_node_text)

lemma take_concat_take: "take k (concat (map (\<lambda>x. take k (f x)) xs)) = take k (concat (map f xs))"
proof (induction xs)
  case (Cons x xs)
  let ?a = "concat (map (\<lambda>x. take k (f x)) xs)" and ?b = "concat (map f xs)"
  have "take (k - length (f x)) ?a = take (k - length (f x)) ?b"
    using arg_cong [OF Cons.IH, of "take (k - length (f x))"] by (simp add: min_def)
  then show ?case by (cases "length (f x) \<le> k") simp_all
qed simp

lemma raw_texts_nodes:
  assumes "list_all node_ok ns"
  shows "take 255 (concat (map raw_text (map raw_node ns))) = take 255 (concat (map node_text ns))"
proof -
  have "map raw_text (map raw_node ns) = map (\<lambda>n. take 255 (node_text n)) ns"
    using assms by (simp add: list_all_iff raw_text_node)
  then show ?thesis by (simp only: take_concat_take)
qed

section \<open>Properties\<close>

text \<open>
  Claim C8: no input makes a UEFI variable parser read outside its buffer (BootOrder, Boot####,
  BootNext, the boolean variables, the signature lists), and the texts of a parsed boot entry
  are terminated ASCII strings that fit their arrays of 128 and 256 bytes.
\<close>

theorem efi_parsers_memory_safe:
  "(\<exists>ok order. bythos_parse_efi_boot_order data = Some (ok, order) \<and> length (bo_order order) \<le> 32) \<and>
   (\<exists>ok entry. bythos_parse_efi_boot_entry data number = Some (ok, entry) \<and>
      length (be_description entry) < 128 \<and> ascii_text (be_description entry) \<and>
      length (be_filepath entry) < 256 \<and> ascii_text (be_filepath entry)) \<and>
   bythos_parse_efi_boot_next data \<noteq> None \<and> bythos_parse_efi_bool_var data \<noteq> None \<and>
   bythos_count_efi_sigdb_lists data \<noteq> None"
    (is "?order \<and> ?entry \<and> ?next \<and> ?bool \<and> ?sigdb")
proof (cases data)
  case None
  then show ?thesis
    by (auto simp: bythos_parse_efi_boot_order_def bythos_parse_efi_boot_entry_def empty_entry_def
        bythos_parse_efi_boot_next_def bythos_parse_efi_bool_var_def bythos_count_efi_sigdb_lists_def
        intro!: exI [of _ False])
next
  case (Some d)
  have ?order
  proof (cases "length d < 6")
    case False
    let ?n = "if (length d - 4) div 2 > 32 then 32 else (length d - 4) div 2"
    have "(0 + ?n) * 2 \<le> length (drop 4 d)" by auto
    then obtain ws where "read_order (drop 4 d) 0 ?n = Some ws" "length ws = ?n"
      using read_order_safe by blast
    with False Some show ?thesis
      by (auto simp: bythos_parse_efi_boot_order_def Let_def EFI_VAR_ATTR_SIZE_def BYTHOS_EFI_BOOT_MAX_ENTRIES_def)
  qed (auto simp: Some bythos_parse_efi_boot_order_def intro: exI [of _ False])
  moreover have ?entry
  proof (cases "length d < 12")
    case True
    then show ?thesis
      by (auto simp: Some bythos_parse_efi_boot_entry_def empty_entry_def intro: exI [of _ False])
  next
    case False
    let ?p = "drop 4 d" and ?n = "length d - 4"
    obtain la fl where rd: "read_le32 ?p 0 = Some la" "read_le16 ?p 4 = Some fl"
      using False read_le32_total [of 0 ?p] read_le16_total [of 4 ?p] by force
    obtain e t where scan: "desc_scan (drop 6 ?p) (?n - 6) 0 0 = Some (e, t)" "e \<le> ?n - 6"
      using desc_scan_safe [of "?n - 6" "drop 6 ?p" 0 0] by auto
    then obtain ds where ds: "utf16le_to_ascii (drop 6 ?p) e 128 = Some ds" "length ds < 128" "ascii_text ds"
      using utf16le_to_ascii_safe [of e "drop 6 ?p" 128] by auto
    let ?dp = "drop (6 + e + 2) ?p" and ?a = "min (?n - (6 + e + 2)) (unat fl)"
    have len: "?a \<le> length ?dp" by simp
    obtain ty where ty: "classify_device_path ?dp ?a = Some ty"
      using classify_loop_safe [OF len] by (auto simp: classify_device_path_def)
    obtain f where f: "dp_extract_filepath ?dp ?a 256 = Some f" "length f < 256" "ascii_text f"
      using filepath_loop_safe [OF len, of "[]" 256 0] by (auto simp: dp_extract_filepath_def)
    show ?thesis
      using False rd scan(1) ds ty f
      by (auto simp: Some bythos_parse_efi_boot_entry_def Let_def EFI_VAR_ATTR_SIZE_def)
  qed
  moreover have ?next
  proof (cases "length d < 6")
    case False
    then have "0 + 1 < length (drop 4 d)" by simp
    then obtain w where "read_le16 (drop 4 d) 0 = Some w" using read_le16_total by blast
    with False Some show ?thesis by (simp add: bythos_parse_efi_boot_next_def EFI_VAR_ATTR_SIZE_def)
  qed (simp add: Some bythos_parse_efi_boot_next_def EFI_VAR_ATTR_SIZE_def)
  moreover have ?bool by (auto simp: Some bythos_parse_efi_bool_var_def EFI_VAR_ATTR_SIZE_def)
  moreover have ?sigdb using sigdb_loop_safe by (auto simp: Some bythos_count_efi_sigdb_lists_def)
  ultimately show ?thesis by blast
qed

text \<open>
  Claim C9: a Boot#### variable that encodes an attribute word, a UTF-16 description, a device path
  of well formed nodes and optional data parses back: the entry is active when bit 0 of the
  attributes is set; its type is the one the tables give the first deciding node of the path, and
  the words of the description decide only when no node does; its description is the first 127
  characters of the text and its file path the first 255 of the joined texts of the file path
  nodes, a character outside ASCII shown as a question mark.
\<close>

theorem boot_entry_roundtrip:
  assumes "length hdr = 4" "attrs < 4294967296" "units_ok desc"
    and "list_all node_ok ns" "length (enc_path ns) < 65536"
  shows "bythos_parse_efi_boot_entry (Some (enc_boot_entry hdr attrs desc (enc_path ns) opt)) number =
    Some (True, \<lparr>be_number = number, be_active = odd attrs, be_type = entry_type ns (take 127 (shown desc)),
      be_description = take 127 (shown desc), be_filepath = take 255 (concat (map node_text ns))\<rparr>)"
proof -
  have "\<forall>m\<in>set (map raw_node ns). raw_ok m" using assms(4) raw_ok_node by (auto simp: list_all_iff)
  note parsed = parse_boot_entry_encoded [OF assms(1-3) enc_path_def [of ns] assms(5) this, of opt number]
  have "classify_description (take 127 (shown desc)) = description_type (take 127 (shown desc))"
    by (rule classify_description_type) simp
  then show ?thesis
    unfolding parsed raw_texts_nodes [OF assms(4)] raw_path_type_nodes [OF assms(4)]
    by (auto simp: entry_type_def path_type_known split: option.split)
qed

text \<open>A network entry with a file on the served volume, and an entry only its description types.\<close>

theorem boot_entry_roundtrip_witness:
  "bythos_parse_efi_boot_entry
      (Some (enc_boot_entry ''abcd'' 1 [80, 88, 69] (enc_path [OtherNode 2 1 ''ACPI'', OtherNode 3 11 ''mac'',
         FilePathNode [92, 97, 233] [NUL, NUL]]) [])) 7 =
      Some (True, \<lparr>be_number = 7, be_active = True, be_type = EFI_BOOT_TYPE_NETWORK,
        be_description = ''PXE'', be_filepath = [CHR 92, CHR ''a'', CHR ''?'']\<rparr>) \<and>
   bythos_parse_efi_boot_entry
      (Some (enc_boot_entry ''abcd'' 0 [85, 83, 66] (enc_path [BbsNode 4 []]) [])) 8 =
      Some (True, \<lparr>be_number = 8, be_active = False, be_type = EFI_BOOT_TYPE_USB,
        be_description = ''USB'', be_filepath = []\<rparr>)"
proof -
  let ?net = "[OtherNode 2 1 ''ACPI'', OtherNode 3 11 ''mac'', FilePathNode [92, 97, 233] [NUL, NUL]]"
  have letters: "shown [80, 88, 69] = ''PXE''" "shown [85, 83, 66] = ''USB''"
    "shown [92, 97, 233] = [CHR 92, CHR ''a'', CHR ''?'']"
    by code_simp+
  have net: "entry_type ?net ''PXE'' = EFI_BOOT_TYPE_NETWORK"
    "take 127 (shown [80, 88, 69]) = ''PXE''" "take 255 (concat (map node_text ?net)) = [CHR 92, CHR ''a'', CHR ''?'']"
    "list_all node_ok ?net" "units_ok [80, 88, 69]" "length (enc_path ?net) < 65536"
    by (simp_all add: letters entry_type_def node_types_def enc_path_def enc_raws_def end_node_def del: shown_simps)
  have "description_type ''USB'' = EFI_BOOT_TYPE_USB" by code_simp
  then have usb: "entry_type [BbsNode 4 []] ''USB'' = EFI_BOOT_TYPE_USB"
    "take 127 (shown [85, 83, 66]) = ''USB''" "take 255 (concat (map node_text [BbsNode 4 []])) = []"
    "list_all node_ok [BbsNode 4 []]" "units_ok [85, 83, 66]" "length (enc_path [BbsNode 4 []]) < 65536"
    by (simp_all add: letters entry_type_def bbs_types_def enc_path_def enc_raws_def end_node_def del: shown_simps)
  show ?thesis
    using boot_entry_roundtrip [of "''abcd''" 1 "[80, 88, 69]" ?net "[]" 7, OF _ _ net(5,4,6), unfolded net(1-3)]
      boot_entry_roundtrip [of "''abcd''" 0 "[85, 83, 66]" "[BbsNode 4 []]" "[]" 8, OF _ _ usb(5,4,6), unfolded usb(1-3)]
    by (simp del: node_text.simps)
qed

text \<open>
  Claim C10: BootOrder parses to the 16 bit entry numbers it encodes, in order, cut to the 32 the
  structure holds, and the truncation flag says exactly whether some were cut.
\<close>

theorem boot_order_roundtrip:
  assumes "length hdr = 4" "ns \<noteq> []" "\<forall>n\<in>set ns. n < 65536"
  shows "bythos_parse_efi_boot_order (Some (hdr @ concat (map enc_le16 ns))) =
    Some (True, \<lparr>bo_order = map word_of_nat (take 32 ns), bo_truncated = (32 < length ns)\<rparr>)"
proof -
  let ?d = "hdr @ concat (map enc_le16 ns)"
  have l: "length (concat (map enc_le16 ns)) = 2 * length ns" by (induction ns) auto
  have tk: "concat (map enc_le16 ns) = [] @ concat (map enc_le16 (take 32 ns)) @ concat (map enc_le16 (drop 32 ns))"
    by (simp flip: concat_append map_append)
  have "read_order (concat (map enc_le16 ns)) 0 (length (take 32 ns)) = Some (map word_of_nat (take 32 ns))"
    unfolding tk by (rule read_order_encoded) (use assms(3) in \<open>auto dest: in_set_takeD\<close>)
  moreover have "(if length ns > 32 then 32 else length ns) = length (take 32 ns)" by simp
  moreover have "\<not> length ?d < 6" using assms(1,2) l by (cases ns) auto
  ultimately show ?thesis
    using assms(1) l
    by (cases "32 < length ns")
      (simp_all add: bythos_parse_efi_boot_order_def Let_def EFI_VAR_ATTR_SIZE_def BYTHOS_EFI_BOOT_MAX_ENTRIES_def)
qed

theorem boot_order_roundtrip_witness:
  "bythos_parse_efi_boot_order (Some (''abcd'' @ concat (map enc_le16 [1, 256]))) =
    Some (True, \<lparr>bo_order = [1, 256], bo_truncated = False\<rparr>)"
  using boot_order_roundtrip [of "''abcd''" "[1, 256]"] by simp

text \<open>
  Claim C11: the signature database count is positive exactly when the whole payload after the
  attributes is a sequence of well formed signature lists, and then it is their number; one
  malformed list makes the count zero.
\<close>

theorem sigdb_count_iff_well_formed:
  "bythos_count_efi_sigdb_lists (Some d) = Some (Suc k) \<longleftrightarrow>
     (\<exists>ls. length ls = Suc k \<and> drop 4 d = concat ls \<and> list_all sig_list ls)"
  unfolding list_all_iff
proof
  assume c: "bythos_count_efi_sigdb_lists (Some d) = Some (Suc k)"
  then have "sigdb_loop (drop 4 d) 0 = Some (Suc k)"
    by (auto simp: bythos_count_efi_sigdb_lists_def EFI_VAR_ATTR_SIZE_def split: if_splits)
  then show "\<exists>ls. length ls = Suc k \<and> drop 4 d = concat ls \<and> (\<forall>l\<in>set ls. sig_list l)"
    using sigdb_loop_split by fastforce
next
  assume "\<exists>ls. length ls = Suc k \<and> drop 4 d = concat ls \<and> (\<forall>l\<in>set ls. sig_list l)"
  then obtain ls where ls: "length ls = Suc k" "drop 4 d = concat ls" "\<forall>l\<in>set ls. sig_list l" by blast
  then obtain l ls' where "ls = l # ls'" by (cases ls) auto
  with ls have "28 \<le> length (drop 4 d)" by (auto simp: sig_list_def)
  then have "\<not> length d \<le> 4" by simp
  with ls sigdb_loop_concat [OF ls(3), of 0] show "bythos_count_efi_sigdb_lists (Some d) = Some (Suc k)"
    by (simp add: bythos_count_efi_sigdb_lists_def EFI_VAR_ATTR_SIZE_def)
qed

end

