(* ===== verification/SiliconProps.thy ===== *)
theory SiliconProps
  imports SiliconParsers
begin

text \<open>Facts and properties of the silicon parsers.\<close>

section \<open>Tokens\<close>

lemma space_tok_end: "c_isspace c \<Longrightarrow> c \<noteq> CHR 0x0B \<Longrightarrow> c \<noteq> CHR 0x0C \<Longrightarrow> is_tok_end c"
  by (auto simp: c_isspace_def is_tok_end_def)

definition plain_blanks :: "string \<Rightarrow> bool" where
  "plain_blanks s \<longleftrightarrow> CHR 0x0B \<notin> set s \<and> CHR 0x0C \<notin> set s"

definition is_token_of :: "string \<Rightarrow> string \<Rightarrow> bool" where
  "is_token_of n t \<longleftrightarrow> (\<exists>a b. t = a @ n @ b \<and> (a = [] \<or> is_tok_end (last a)) \<and> (b = [] \<or> is_tok_end (hd b)))"

lemma hd_dropWhile_tok: "dropWhile (\<lambda>c. \<not> is_tok_end c) s \<noteq> [] \<Longrightarrow> is_tok_end (hd (dropWhile (\<lambda>c. \<not> is_tok_end c) s))"
  using hd_dropWhile [of "\<lambda>c. \<not> is_tok_end c" s] by blast

lemma token_present_sound:
  "n \<noteq> [] \<Longrightarrow> \<forall>c\<in>set n. \<not> is_tok_end c \<Longrightarrow> plain_blanks t \<Longrightarrow> token_present t n \<Longrightarrow> is_token_of n t"
proof (induction t n rule: token_present.induct)
  case (1 t n)
  let ?ws = "takeWhile c_isspace t" and ?cur = "dropWhile c_isspace t"
  let ?tok = "takeWhile (\<lambda>c. \<not> is_tok_end c) ?cur" and ?rest = "dropWhile (\<lambda>c. \<not> is_tok_end c) ?cur"
  have t: "t = ?ws @ ?tok @ ?rest" by simp
  have ws: "?ws = [] \<or> is_tok_end (last ?ws)"
  proof (cases "?ws = []")
    case False
    then have "last ?ws \<in> set ?ws" by (rule last_in_set)
    then have "c_isspace (last ?ws)" "last ?ws \<in> set t" by (auto dest: set_takeWhileD)
    with "1.prems"(3) show ?thesis by (auto simp: plain_blanks_def intro: space_tok_end)
  qed simp
  have ne: "?cur \<noteq> []" using "1.prems"(4) by (intro notI) (simp add: token_present.simps [of t n])
  show ?case
  proof (cases "?tok = n")
    case True
    have "?rest = [] \<or> is_tok_end (hd ?rest)" using hd_dropWhile_tok by blast
    with True ws t show ?thesis unfolding is_token_of_def by metis
  next
    case False
    then have "token_present ?rest n" using "1.prems"(4) ne
      by (simp only: token_present.simps [of t n] Let_def if_False)
    moreover have "plain_blanks ?rest"
      using "1.prems"(3) by (auto simp: plain_blanks_def dest!: set_dropWhileD)
    ultimately have "is_token_of n ?rest" using "1.IH" [OF refl ne False] "1.prems"(1,2) by blast
    then obtain a b where ab: "?rest = a @ n @ b" "a = [] \<or> is_tok_end (last a)" "b = [] \<or> is_tok_end (hd b)"
      by (auto simp: is_token_of_def)
    have "a \<noteq> []"
    proof
      assume "a = []"
      with ab(1) "1.prems"(1,2) have "?rest \<noteq> []" "\<not> is_tok_end (hd ?rest)" by auto
      with hd_dropWhile_tok show False by blast
    qed
    with ab have "is_tok_end (last (?ws @ ?tok @ a))" by simp
    moreover have "t = (?ws @ ?tok @ a) @ n @ b" using t ab(1) by simp
    ultimately show ?thesis using ab(3) unfolding is_token_of_def by blast
  qed
qed

lemma dropWhile_append_stop: "xs \<noteq> [] \<Longrightarrow> \<not> P (last xs) \<Longrightarrow> dropWhile P (xs @ ys) = dropWhile P xs @ ys"
  by (metis dropWhile_append1 last_in_set)

lemma takeWhile_stop: "list_all P xs \<Longrightarrow> ys = [] \<or> \<not> P (hd ys) \<Longrightarrow> takeWhile P (xs @ ys) = xs"
  by (cases ys) (auto simp: takeWhile_append list_all_iff)

lemma token_present_complete:
  "n \<noteq> [] \<Longrightarrow> \<forall>c\<in>set n. \<not> is_tok_end c \<Longrightarrow> plain_blanks t \<Longrightarrow> is_token_of n t \<Longrightarrow> token_present t n"
proof (induction t n rule: token_present.induct)
  case (1 t n)
  obtain a b where t: "t = a @ n @ b" and a: "a = [] \<or> is_tok_end (last a)" and b: "b = [] \<or> is_tok_end (hd b)"
    using "1.prems"(4) by (auto simp: is_token_of_def)
  have n: "n \<noteq> []" "\<forall>c\<in>set n. \<not> is_tok_end c" using "1.prems"(1,2) by auto
  then have hn: "\<not> is_tok_end (hd n)" "hd n \<in> set n" by auto
  moreover have "hd n \<in> set t" using t hn(2) by simp
  ultimately have nsp: "\<not> c_isspace (hd n)"
    using "1.prems"(3) space_tok_end [of "hd n"] unfolding plain_blanks_def by metis
  let ?a = "dropWhile c_isspace a"
  have "dropWhile c_isspace t = ?a @ n @ b"
    using nsp n(1) by (cases n) (auto simp: t dropWhile_append)
  then have cur: "dropWhile c_isspace t = ?a @ n @ b" "dropWhile c_isspace t \<noteq> []" using n(1) by auto
  show ?case
  proof (cases "?a = []")
    case True
    have "takeWhile (\<lambda>c. \<not> is_tok_end c) (n @ b) = n"
      using n(2) b by (intro takeWhile_stop) (auto simp: list_all_iff)
    with True cur(1) have "takeWhile (\<lambda>c. \<not> is_tok_end c) (dropWhile c_isspace t) = n"
      by (simp only: append_Nil)
    with cur(2) show ?thesis by (simp only: token_present.simps [of t n] Let_def if_False if_True simp_thms)
  next
    case False
    then have "a \<noteq> []" by auto
    with a False have last: "is_tok_end (last ?a)" by (metis last_appendR takeWhile_dropWhile_id)
    let ?r = "dropWhile (\<lambda>c. \<not> is_tok_end c) ?a"
    have rest: "dropWhile (\<lambda>c. \<not> is_tok_end c) (dropWhile c_isspace t) = ?r @ n @ b"
      unfolding cur(1) using False last by (intro dropWhile_append_stop) auto
    have "last ?a \<in> set ?a" using False by (rule last_in_set)
    with last have "?r \<noteq> []" by (auto simp only: dropWhile_eq_Nil_conv)
    then have "is_tok_end (last ?r)" using last by (metis last_appendR takeWhile_dropWhile_id)
    then have tok: "is_token_of n (dropWhile (\<lambda>c. \<not> is_tok_end c) (dropWhile c_isspace t))"
      unfolding rest is_token_of_def using b by blast
    have "plain_blanks (dropWhile (\<lambda>c. \<not> is_tok_end c) (dropWhile c_isspace t))"
      using "1.prems"(3) by (auto simp: plain_blanks_def dest!: set_dropWhileD)
    then have "takeWhile (\<lambda>c. \<not> is_tok_end c) (dropWhile c_isspace t) \<noteq> n \<Longrightarrow>
        token_present (dropWhile (\<lambda>c. \<not> is_tok_end c) (dropWhile c_isspace t)) n"
      using "1.IH" [OF refl cur(2)] n tok by blast
    then show ?thesis using cur(2) by (simp only: token_present.simps [of t n] Let_def if_False split: if_split) blast
  qed
qed

section \<open>PCR dumps\<close>

lemma dec_nat_inj: "dec_nat a = dec_nat b \<Longrightarrow> a = b"
  by (metis num_val_dec_nat)

text \<open>Two numbers followed by a character that is no digit agree as prefixes only when equal.\<close>

lemma dec_prefix_eq:
  assumes "prefix (dec_nat n) (dec_nat k @ r)" "length (dec_nat n) < length (dec_nat k @ r)"
    and "\<not> c_isdigit ((dec_nat k @ r) ! length (dec_nat n))" "r \<noteq> []" "\<not> c_isdigit (hd r)"
  shows "n = k"
proof -
  have "length (dec_nat n) = length (dec_nat k)"
  proof (rule antisym; rule leI; rule notI)
    assume l: "length (dec_nat k) < length (dec_nat n)"
    from assms(1) obtain z where z: "dec_nat k @ r = dec_nat n @ z" by (auto simp: prefix_def)
    have "(dec_nat n @ z) ! length (dec_nat k) = hd r"
      unfolding z [symmetric] using assms(4) by (simp add: nth_append hd_conv_nth)
    with l have "hd r \<in> set (dec_nat n)" by (metis nth_append nth_mem)
    with assms(5) dec_nat_digits show False by blast
  next
    assume l: "length (dec_nat n) < length (dec_nat k)"
    then have "(dec_nat k @ r) ! length (dec_nat n) \<in> set (dec_nat k)" by (simp add: nth_append)
    with assms(3) dec_nat_digits show False by blast
  qed
  with assms(1) show ?thesis by (auto simp: prefix_def intro: dec_nat_inj)
qed

lemma strstr_0x: "CHR ''x'' \<notin> set a \<Longrightarrow> strstr (a @ CHR ''0'' # CHR ''x'' # r) ''0x'' = Some (CHR ''0'' # CHR ''x'' # r)"
proof (induction a)
  case (Cons c a)
  then have "\<not> prefix ''0x'' ((c # a) @ CHR ''0'' # CHR ''x'' # r)" by (cases a) auto
  with Cons show ?case by simp
qed simp

text \<open>
  A dump of tpm2_pcrread is made of lines: the header of a bank (\<open>sha256:\<close>) and the rows of its PCRs,
  each with the blanks the version of the tool prints: \<open>  0 : 0x...\<close>, \<open>    10: 0x...\<close>.
\<close>

datatype pcr_line = BankLine string string | PcrLine string nat string string

fun pcr_print :: "pcr_line \<Rightarrow> string" where
  "pcr_print (BankLine indent bank) = indent @ bank @ '':'' @ [LF]"
| "pcr_print (PcrLine indent k gap h) = indent @ dec_nat k @ gap @ '': 0x'' @ h @ [LF]"

definition blank_text :: "string \<Rightarrow> bool" where
  "blank_text s \<longleftrightarrow> list_all is_blank s"

text \<open>The name of a bank starts with a letter (sha1, sha256, sm3_256): no digit, no blank, no end of line.\<close>

definition bank_name :: "string \<Rightarrow> bool" where
  "bank_name b \<longleftrightarrow> b \<noteq> [] \<and> \<not> c_isdigit (hd b) \<and> \<not> is_blank (hd b) \<and> LF \<notin> set b"

definition hex_digest :: "string \<Rightarrow> bool" where
  "hex_digest h \<longleftrightarrow> h \<noteq> [] \<and> list_all c_isxdigit h"

fun pcr_line_ok :: "pcr_line \<Rightarrow> bool" where
  "pcr_line_ok (BankLine indent bank) \<longleftrightarrow> blank_text indent \<and> bank_name bank"
| "pcr_line_ok (PcrLine indent k gap h) \<longleftrightarrow> blank_text indent \<and> blank_text gap \<and> hex_digest h"

text \<open>The digest the dump lists first for a PCR.\<close>

fun pcr_digest :: "pcr_line list \<Rightarrow> nat \<Rightarrow> string option" where
  "pcr_digest [] n = None"
| "pcr_digest (BankLine indent bank # ls) n = pcr_digest ls n"
| "pcr_digest (PcrLine indent k gap h # ls) n = (if k = n then Some h else pcr_digest ls n)"

lemma digit_not_x: "c_isdigit c \<Longrightarrow> c \<noteq> CHR ''x''"
  by (auto simp: c_isdigit_def char_le_iff byte_val_def)

lemma xdigit_plain: "c_isxdigit c \<Longrightarrow> c \<noteq> LF \<and> c \<noteq> CR \<and> c \<noteq> SP"
  by (auto simp: c_isxdigit_def c_isdigit_def char_le_iff byte_val_def)

lemma digit_plain: "c_isdigit c \<Longrightarrow> c \<noteq> LF \<and> \<not> is_blank c"
  by (auto simp: c_isdigit_def is_blank_def char_le_iff byte_val_def)

lemma blank_plain: "is_blank c \<Longrightarrow> c \<noteq> LF \<and> c \<noteq> CHR ''x'' \<and> \<not> c_isdigit c"
  by (auto simp: c_isdigit_def is_blank_def char_le_iff byte_val_def)

lemma blank_text_simps [simp]: "blank_text []" "blank_text (c # s) \<longleftrightarrow> is_blank c \<and> blank_text s"
  by (simp_all add: blank_text_def)

lemma blank_textD: "blank_text s \<Longrightarrow> c \<in> set s \<Longrightarrow> is_blank c"
  by (simp add: blank_text_def list_all_iff)

text \<open>The body of a line, after its indentation and without its end.\<close>

fun pcr_body :: "pcr_line \<Rightarrow> string" where
  "pcr_body (BankLine indent bank) = bank @ '':''"
| "pcr_body (PcrLine indent k gap h) = dec_nat k @ gap @ '': 0x'' @ h"

lemma pcr_body_plain:
  assumes "pcr_line_ok l"
  shows "pcr_body l \<noteq> []" "\<not> is_blank (hd (pcr_body l))" "LF \<notin> set (pcr_body l)"
proof -
  show "pcr_body l \<noteq> []" by (cases l) auto
  show "\<not> is_blank (hd (pcr_body l))"
  proof (cases l)
    case (BankLine indent bank)
    with assms show ?thesis by (simp add: bank_name_def)
  next
    case (PcrLine indent k gap h)
    have "c_isdigit (hd (dec_nat k))" using dec_nat_digits [of "hd (dec_nat k)" k] by simp
    then show ?thesis using digit_plain by (simp add: PcrLine)
  qed
  show "LF \<notin> set (pcr_body l)"
  proof (cases l)
    case (BankLine indent bank)
    with assms show ?thesis by (simp add: bank_name_def)
  next
    case (PcrLine indent k gap h)
    have "LF \<notin> set (dec_nat k)" using dec_nat_digits digit_plain by blast
    moreover have "LF \<notin> set gap" using assms PcrLine blank_textD blank_plain by fastforce
    moreover have "LF \<notin> set h" using assms PcrLine xdigit_plain by (fastforce simp: hex_digest_def list_all_iff)
    ultimately show ?thesis by (simp add: PcrLine)
  qed
qed

lemma pcr_print_body: "pcr_line_ok l \<Longrightarrow> \<exists>indent. blank_text indent \<and> pcr_print l = indent @ pcr_body l @ [LF]"
  by (cases l) auto

text \<open>One turn of the loop takes one line off the dump and looks at its body.\<close>

lemma pcr_line_step:
  assumes "pcr_line_ok l"
  shows "pcr_loop pre (pcr_print l @ rest) =
    (if pcr_line_matches pre (pcr_body l) then pcr_line_value (pcr_body l) else pcr_loop pre rest)"
proof -
  obtain indent where indent: "blank_text indent" "pcr_print l = indent @ pcr_body l @ [LF]"
    using pcr_print_body [OF assms] by blast
  note body = pcr_body_plain [OF assms]
  let ?l = "indent @ pcr_body l"
  have plain: "LF \<notin> set ?l" using body(3) blank_textD [OF indent(1)] blank_plain by auto
  have line: "takeWhile (\<lambda>c. c \<noteq> LF) (?l @ LF # rest) = ?l"
    using plain by (intro takeWhile_stop) (auto simp: list_all_iff)
  have next_line: "drop 1 (dropWhile (\<lambda>c. c \<noteq> LF) (?l @ LF # rest)) = rest"
    using plain by (subst dropWhile_append2) auto
  have strip: "dropWhile is_blank ?l = pcr_body l"
    using blank_textD [OF indent(1)] body(1,2) by (subst dropWhile_append2) (auto simp: dropWhile_eq_self_iff)
  have split: "pcr_print l @ rest = ?l @ LF # rest" by (simp add: indent(2))
  have "(?l @ LF # rest = []) = False" by simp
  then show ?thesis
    unfolding split by (subst pcr_loop.simps) (simp only: line next_line strip Let_def if_False)
qed

lemma bank_no_match:
  assumes "pcr_line_ok (BankLine indent bank)"
  shows "\<not> pcr_line_matches (dec_nat n) (pcr_body (BankLine indent bank))"
proof
  assume "pcr_line_matches (dec_nat n) (pcr_body (BankLine indent bank))"
  then obtain r where r: "bank @ '':'' = dec_nat n @ r"
    by (auto simp: pcr_line_matches_def starts_with_def prefix_def)
  from assms have "bank \<noteq> []" "\<not> c_isdigit (hd bank)" by (simp_all add: bank_name_def)
  moreover have "hd (bank @ '':'') = hd (dec_nat n)" unfolding r by simp
  moreover have "c_isdigit (hd (dec_nat n))" using dec_nat_digits [of "hd (dec_nat n)" n] by simp
  ultimately show False by simp
qed

lemma pcr_row_matches:
  assumes "blank_text gap"
  shows "pcr_line_matches (dec_nat n) (dec_nat k @ gap @ '': 0x'' @ h) \<longleftrightarrow> n = k"
proof
  let ?r = "gap @ '': 0x'' @ h"
  have r: "?r \<noteq> []" "\<not> c_isdigit (hd ?r)"
    using assms by (cases gap; auto dest: blank_plain simp: c_isdigit_def char_le_iff byte_val_def)+
  {
    assume m: "pcr_line_matches (dec_nat n) (dec_nat k @ ?r)"
    then have "\<not> c_isdigit ((dec_nat k @ ?r) ! length (dec_nat n))"
      by (auto simp: pcr_line_matches_def c_isdigit_def char_le_iff byte_val_def)
    with m r show "n = k"
      by (intro dec_prefix_eq [of n k ?r]) (auto simp: pcr_line_matches_def starts_with_def)
  }
  assume "n = k"
  moreover have "hd ?r = SP \<or> hd ?r = CHR '':'' \<or> hd ?r = TAB" using assms by (cases gap) (auto simp: is_blank_def)
  moreover have "(dec_nat k @ ?r) ! length (dec_nat k) = hd ?r" using r(1) by (simp add: nth_append hd_conv_nth)
  ultimately show "pcr_line_matches (dec_nat n) (dec_nat k @ ?r)"
    using r(1) by (simp add: pcr_line_matches_def starts_with_def)
qed

lemma pcr_row_value:
  assumes "hex_digest h" "blank_text gap"
  shows "pcr_line_value (dec_nat k @ gap @ '': 0x'' @ h) = (if list_all (\<lambda>c. c = CHR ''0'') h then 1 else 0)"
proof -
  have "CHR ''x'' \<notin> set (dec_nat k @ gap @ '': '')"
    using dec_nat_digits digit_not_x blank_textD [OF assms(2)] blank_plain by fastforce
  then have "strstr ((dec_nat k @ gap @ '': '') @ CHR ''0'' # CHR ''x'' # h) ''0x'' = Some (CHR ''0'' # CHR ''x'' # h)"
    by (rule strstr_0x)
  then have s: "strstr (dec_nat k @ gap @ '': 0x'' @ h) ''0x'' = Some (CHR ''0'' # CHR ''x'' # h)" by simp
  have "takeWhile (\<lambda>c. c \<noteq> LF \<and> c \<noteq> CR \<and> c \<noteq> SP) h = h"
    using assms xdigit_plain by (auto simp: takeWhile_eq_all_conv hex_digest_def list_all_iff)
  then show ?thesis using assms by (simp only: pcr_line_value_def s Let_def option.case numeral_2_eq_2 drop_Suc drop_0 list.sel hex_digest_def if_False)
qed

lemma pcr_loop_lines:
  "list_all pcr_line_ok ls \<Longrightarrow>
     pcr_loop (dec_nat n) (concat (map pcr_print ls)) =
     (case pcr_digest ls n of None \<Rightarrow> -1 | Some h \<Rightarrow> if list_all (\<lambda>c. c = CHR ''0'') h then 1 else 0)"
proof (induction ls)
  case Nil
  then show ?case by (subst pcr_loop.simps) simp
next
  case (Cons l ls)
  then have ok: "pcr_line_ok l" and IH: "pcr_loop (dec_nat n) (concat (map pcr_print ls)) =
     (case pcr_digest ls n of None \<Rightarrow> -1 | Some h \<Rightarrow> if list_all (\<lambda>c. c = CHR ''0'') h then 1 else 0)" by auto
  note step = pcr_line_step [OF ok, of "dec_nat n" "concat (map pcr_print ls)"]
  show ?case
  proof (cases l)
    case (BankLine indent bank)
    then show ?thesis using step bank_no_match [of indent bank n] ok IH by simp
  next
    case (PcrLine indent k gap h)
    with ok have "blank_text gap" "hex_digest h" by simp_all
    then show ?thesis
      using step IH by (simp only: PcrLine pcr_body.simps pcr_row_matches pcr_row_value list.map concat.simps pcr_digest.simps)
        (cases "k = n"; simp)
  qed
qed

section \<open>Numbers by sscanf\<close>

lemma scan_u_dec:
  assumes "n < 2 ^ 32" "r = [] \<or> \<not> c_isdigit (hd r)"
  shows "scan_u (dec_nat n @ r) = Some (n, r)"
proof -
  have "n \<le> ULONG_MAX" using assms(1) by (simp add: ULONG_MAX_def)
  then have "strtoul 10 (dec_nat n @ r) = (n, r)" using assms(2) by (rule strtoul_dec_nat)
  then show ?thesis using assms(1) by (simp add: scan_u_def)
qed

lemma scan_lit_same [simp]: "scan_lit c (c # s) = Some s"
  by (simp add: scan_lit_def)

lemma dot_no_digit [simp]: "\<not> c_isdigit (CHR ''.'')" "\<not> c_isdigit (CHR '':'')"
  by (simp_all add: c_isdigit_def char_le_iff byte_val_def)

lemma scan_dotted_print:
  assumes "a < 2 ^ 32" "b < 2 ^ 32" "c < 2 ^ 32" "d < 2 ^ 32" "r = [] \<or> \<not> c_isdigit (hd r)"
  shows "scan_dotted (print_version (a, b, c, d) @ r) = Some (a, b, c, d)"
proof -
  have "scan_u (dec_nat a @ CHR ''.'' # s) = Some (a, CHR ''.'' # s)"
    "scan_u (dec_nat b @ CHR ''.'' # s) = Some (b, CHR ''.'' # s)"
    "scan_u (dec_nat c @ CHR ''.'' # s) = Some (c, CHR ''.'' # s)"
    "scan_u (dec_nat d @ r) = Some (d, r)" for s
    using assms by (intro scan_u_dec; simp)+
  then show ?thesis by (simp add: scan_dotted_def print_version_def)
qed

section \<open>Properties\<close>

text \<open>
  Claim C12: a kernel command line flag is seen exactly when it is a whole token, bounded by
  blanks or the ends of the text; \<open>xiommu=off\<close> or \<open>iommu=off,x\<close> never counts. (Vertical tab and
  form feed, which the code skips but does not delimit tokens with, are excluded.)
\<close>

theorem token_present_iff_whole_token:
  assumes "plain_blanks t" "n \<noteq> []" "\<forall>c\<in>set n. \<not> is_tok_end c"
  shows "token_present t n \<longleftrightarrow>
    (\<exists>a b. t = a @ n @ b \<and> (a = [] \<or> is_tok_end (last a)) \<and> (b = [] \<or> is_tok_end (hd b)))"
  using token_present_sound [OF assms(2,3,1)] token_present_complete [OF assms(2,3,1)]
  unfolding is_token_of_def by blast

theorem token_present_iff_whole_token_witness:
  "token_present ''quiet iommu=off ro'' ''iommu=off''"
  using token_present_iff_whole_token [of "''quiet iommu=off ro''" "''iommu=off''"]
proof -
  have "is_token_of ''iommu=off'' ''quiet iommu=off ro''" unfolding is_token_of_def
    by (intro exI [of _ "''quiet ''"] exI [of _ "'' ro''"]) (simp add: is_tok_end_def)
  then have "\<exists>a b. ''quiet iommu=off ro'' = a @ ''iommu=off'' @ b \<and>
      (a = [] \<or> is_tok_end (last a)) \<and> (b = [] \<or> is_tok_end (hd b))"
    unfolding is_token_of_def .
  moreover have "plain_blanks ''quiet iommu=off ro''" by (simp add: plain_blanks_def)
  moreover have "\<forall>c\<in>set ''iommu=off''. \<not> is_tok_end c" by (simp add: is_tok_end_def)
  ultimately show ?thesis
    using token_present_iff_whole_token [of "''quiet iommu=off ro''" "''iommu=off''"] by blast
qed

text \<open>
  Claim C13: on a PCR dump as tpm2_pcrread prints it, bank headers and rows in any number and order
  and with any indentation, the zero check answers for the PCR asked about and no other (1 for an
  all-zero digest, 0 for another, of the first row that lists it), and -1 when the PCR is not
  listed: the header line is passed over and PCR 1 is never taken for PCR 10.
\<close>

theorem pcr_zero_check_dump:
  assumes "n < 100" "list_all pcr_line_ok ls"
  shows "bythos_pcr_zero_check (Some (concat (map pcr_print ls))) n =
    (case pcr_digest ls n of None \<Rightarrow> -1 | Some h \<Rightarrow> if list_all (\<lambda>c. c = CHR ''0'') h then 1 else 0)"
proof -
  have "snprintf_s 8 (dec_nat n) = dec_nat n"
    using length_dec_nat_le [of n 2] assms(1) by (intro snprintf_s_fits) simp
  then show ?thesis using pcr_loop_lines [OF assms(2)] by (simp add: bythos_pcr_zero_check_def)
qed

text \<open>The dumps \<open>sha256:\<close>, \<open>  10 : 0xa0\<close>, \<open>  1 : 0x00\<close> and, as later versions print it, \<open>    10: 0xa0\<close>.\<close>

theorem pcr_zero_check_dump_witness:
  "bythos_pcr_zero_check (Some (concat (map pcr_print
      [BankLine [] ''sha256'', PcrLine ''  '' 10 '' '' ''a0'', PcrLine ''  '' 1 '' '' ''00'']))) 1 = 1 \<and>
   bythos_pcr_zero_check (Some (concat (map pcr_print [BankLine ''  '' ''sha256'', PcrLine ''    '' 10 [] ''a0'']))) 1 = -1"
proof -
  let ?a = "[BankLine [] ''sha256'', PcrLine ''  '' 10 '' '' ''a0'', PcrLine ''  '' 1 '' '' ''00'']"
  let ?b = "[BankLine ''  '' ''sha256'', PcrLine ''    '' 10 [] ''a0'']"
  have "list_all pcr_line_ok ?a" "list_all pcr_line_ok ?b" by code_simp+
  then show ?thesis
    using pcr_zero_check_dump [of 1 ?a] pcr_zero_check_dump [of 1 ?b]
    by (simp del: pcr_print.simps pcr_line_ok.simps)
qed

text \<open>
  Claim C14: the Intel ME version is printed back exactly, with the platform prefix of the mei
  sysfs file stripped when it is there and a bare version accepted when it is not.
\<close>

theorem me_version_roundtrip:
  assumes "a < 2 ^ 32" "b < 2 ^ 32" "c < 2 ^ 32" "d < 2 ^ 32" "p < 2 ^ 32"
    and "rest = [] \<or> \<not> c_isdigit (hd rest)"
  shows "bythos_parse_me_version (Some (dec_nat p @ '':'' @ print_version (a, b, c, d) @ rest)) 64
         = Some (print_version (a, b, c, d)) \<and>
       bythos_parse_me_version (Some (print_version (a, b, c, d) @ rest)) 64 = Some (print_version (a, b, c, d))"
proof -
  let ?v = "print_version (a, b, c, d)"
  have len: "length (dec_nat n) \<le> 10" if "n < 2 ^ 32" for n
    using that length_dec_nat_le [of n 10] by simp
  have "length ?v < 64"
    using len [OF assms(1)] len [OF assms(2)] len [OF assms(3)] len [OF assms(4)] by (simp add: print_version_def)
  then have fits: "snprintf_s 64 ?v = ?v" by (rule snprintf_s_fits)
  have dotted: "scan_dotted (?v @ rest) = Some (a, b, c, d)" using assms by (intro scan_dotted_print)
  have "scan_u (dec_nat p @ CHR '':'' # s) = Some (p, CHR '':'' # s)" for s
    using assms(5) by (intro scan_u_dec) simp_all
  moreover have "scan_u (dec_nat a @ CHR ''.'' # s) = Some (a, CHR ''.'' # s)" for s
    using assms(1) by (intro scan_u_dec) simp_all
  then have "scan_u (?v @ rest) = Some (a, CHR ''.'' # dec_nat b @ ''.'' @ dec_nat c @ ''.'' @ dec_nat d @ rest)"
    by (simp add: print_version_def)
  moreover have "scan_lit (CHR '':'') (CHR ''.'' # s) = None" for s by (simp add: scan_lit_def)
  ultimately show ?thesis by (simp add: bythos_parse_me_version_def fits dotted)
qed

theorem me_version_roundtrip_witness:
  "bythos_parse_me_version (Some (dec_nat 0 @ '':'' @ print_version (16, 1, 25, 2124) @ [LF])) 64
     = Some (print_version (16, 1, 25, 2124)) \<and>
   bythos_parse_me_version (Some (print_version (16, 1, 25, 2124) @ [LF])) 64 = Some (print_version (16, 1, 25, 2124))"
  by (rule me_version_roundtrip) (simp_all add: c_isdigit_def char_le_iff byte_val_def)

end
