(* ===== verification/PeSbatProps.thy ===== *)
theory PeSbatProps
  imports PeSbat
begin

text \<open>Facts and properties of the PE section extractor and of the SBAT CSV parser.\<close>

section \<open>Reads of a section header stay in the buffer\<close>

lemma pe_name_match_safe: "hdr + j + n \<le> length bin \<Longrightarrow> \<exists>b. pe_name_match bin hdr name j n = Some b"
  by (induction n arbitrary: j) auto

lemma pe_name_match_True:
  "hdr + j + n \<le> length bin \<Longrightarrow> pe_name_match bin hdr name j n = Some True \<longleftrightarrow>
     (\<forall>i<n. bin ! (hdr + j + i) = (if j + i < length name then name ! (j + i) else NUL))"
proof (induction n arbitrary: j)
  case (Suc n)
  have "(\<forall>i<Suc n. bin ! (hdr + j + i) = (if j + i < length name then name ! (j + i) else NUL)) \<longleftrightarrow>
     bin ! (hdr + j) = (if j < length name then name ! j else NUL) \<and>
     (\<forall>i<n. bin ! (hdr + Suc j + i) = (if Suc j + i < length name then name ! (Suc j + i) else NUL))"
    by (subst All_less_Suc2) simp
  moreover have "pe_name_match bin hdr name j (Suc n) = Some True \<longleftrightarrow>
     bin ! (hdr + j) = (if j < length name then name ! j else NUL) \<and>
     pe_name_match bin hdr name (Suc j) n = Some True"
    using Suc.prems by auto
  ultimately show ?case using Suc.IH [of "Suc j"] Suc.prems by simp
qed simp

lemma pe_section_data_safe:
  assumes "hdr + 40 \<le> length bin"
  shows "\<exists>r. pe_section_data bin hdr n = Some r"
proof -
  obtain v s p where "read_le32 bin (hdr + 8) = Some v" "read_le32 bin (hdr + 16) = Some s"
    "read_le32 bin (hdr + 20) = Some p"
    using assms read_le32_total [of "hdr + 8" bin] read_le32_total [of "hdr + 16" bin]
      read_le32_total [of "hdr + 20" bin] by auto
  then show ?thesis by (auto simp: pe_section_data_def Let_def memcpy_out_def)
qed

lemma nonzero_in_bounds: "(y::u32) \<noteq> 0 \<Longrightarrow> p + unat y \<le> l \<Longrightarrow> p < l"
  using unat_gt_0 [of y] by linarith

lemma pe_section_data_result:
  assumes "pe_section_data bin hdr n = Some (Some d)"
  shows "d \<noteq> [] \<and> length d \<le> n \<and> sublist d bin"
  using assms
  by (auto simp: pe_section_data_def Let_def memcpy_out_def bind_eq_Some_conv not_le
      unat_eq_zero split: if_splits dest: nonzero_in_bounds
      intro: sublist_order.order_trans [OF sublist_take sublist_drop])

lemma pe_sections_safe:
  "table + (i + n) * 40 \<le> length bin \<Longrightarrow> \<exists>r. pe_sections bin table name sz i n = Some r"
proof (induction n arbitrary: i)
  case (Suc n)
  have h: "table + i * 40 + 40 \<le> length bin" using Suc.prems by simp
  then obtain m where m: "pe_name_match bin (table + i * 40) name 0 8 = Some m"
    using pe_name_match_safe [of "table + i * 40" 0 8 bin name] by auto
  show ?case
    using Suc.IH [of "i + 1"] Suc.prems pe_section_data_safe [OF h, of sz] m
    by (cases m) (auto simp: pe_consts Let_def)
qed simp

lemma pe_sections_result:
  "pe_sections bin table name sz i n = Some (Some d) \<Longrightarrow>
     d \<noteq> [] \<and> length d \<le> sz \<and> sublist d bin"
proof (induction n arbitrary: i)
  case (Suc n)
  then show ?case
    by (auto simp: Let_def bind_eq_Some_conv dest: pe_section_data_result split: if_splits)
qed simp

lemma pe_signature_safe: "pe + 4 \<le> length bin \<Longrightarrow> \<exists>b. pe_signature bin pe = Some b"
  by (simp add: pe_signature_def)

lemma pe_coff_safe:
  assumes "pe + 24 \<le> length bin"
  shows "\<exists>r. pe_coff bin pe = Some r \<and> (\<forall>t n. r = Some (t, n) \<longrightarrow> t + n * 40 \<le> length bin)"
proof -
  obtain b n p where "pe_signature bin pe = Some b" "read_le16 bin (pe + 4 + 2) = Some n"
    "read_le16 bin (pe + 4 + 16) = Some p"
    using assms pe_signature_safe [of pe bin] read_le16_total [of "pe + 4 + 2" bin]
      read_le16_total [of "pe + 4 + 16" bin] by auto
  then show ?thesis by (cases b) (auto simp: pe_coff_def pe_consts Let_def)
qed

lemma pe_headers_safe:
  "\<exists>r. pe_headers bin = Some r \<and> (\<forall>t n. r = Some (t, n) \<longrightarrow> t + n * 40 \<le> length bin)"
proof (cases "length bin < 64")
  case True
  then show ?thesis by (simp add: pe_headers_def pe_consts)
next
  case False
  then obtain w where "read_le32 bin 60 = Some w" using read_le32_total [of 60 bin] by auto
  moreover have "rd bin 0 = Some (bin ! 0)" "rd bin 1 = Some (bin ! 1)" using False by (auto intro!: rd_in)
  ultimately show ?thesis
    using False pe_coff_safe [of "unat w" bin] by (simp add: pe_headers_def pe_consts)
qed

section \<open>SBAT lines\<close>

text \<open>An entry as the CSV prints it, followed by the fields the parser ignores.\<close>

definition sbat_line :: "sbat_entry \<Rightarrow> string \<Rightarrow> string" where
  "sbat_line e extra = sb_component e @ CHR '','' # dec_nat (unat (sb_generation e)) @ CHR '','' # extra @ [LF]"

definition sbat_entry_ok :: "sbat_entry \<Rightarrow> bool" where
  "sbat_entry_ok e \<longleftrightarrow> sb_component e \<noteq> [] \<and> length (sb_component e) < 64 \<and>
     list_all (\<lambda>c. \<not> sbat_line_end c \<and> c \<noteq> CHR '','') (sb_component e)"

definition sbat_extra_ok :: "string \<Rightarrow> bool" where
  "sbat_extra_ok x \<longleftrightarrow> list_all (\<lambda>c. \<not> sbat_line_end c) x"

lemma digit_no_sep: "c_isdigit c \<Longrightarrow> \<not> sbat_line_end c \<and> c \<noteq> CHR '','' \<and> c \<noteq> CHR ''-'' \<and> c \<noteq> CHR ''+''"
  by (auto simp: c_isdigit_def sbat_line_end_def char_le_iff byte_val_def)

lemma takeWhile_stop_at: "\<forall>c\<in>set xs. P c \<Longrightarrow> \<not> P y \<Longrightarrow> takeWhile P (xs @ y # ys) = xs \<and> dropWhile P (xs @ y # ys) = y # ys"
  by (induction xs) auto

lemma sbat_entry_of_line_printed:
  assumes "sbat_entry_ok e"
  shows "sbat_entry_of_line (sb_component e @ CHR '','' # dec_nat (unat (sb_generation e)) @ CHR '','' # extra) = Some e"
proof -
  let ?c = "sb_component e" and ?g = "unat (sb_generation e)"
  let ?line = "?c @ CHR '','' # dec_nat ?g @ CHR '','' # extra"
  have g: "?g < 2 ^ 32" using unsigned_less [of "sb_generation e"] by simp
  have c: "takeWhile (\<lambda>c. c \<noteq> CHR '','') ?line = ?c" "?c \<noteq> []" "\<not> 64 \<le> length ?c" "?c \<noteq> ?line"
    using assms takeWhile_stop_at [of ?c "\<lambda>c. c \<noteq> CHR '',''"]
    by (auto simp: sbat_entry_ok_def list_all_iff)
  have "drop (length ?c + 1) ?line = dec_nat ?g @ CHR '','' # extra" by simp
  moreover have "takeWhile (\<lambda>c. c \<noteq> CHR '','') (dec_nat ?g @ CHR '','' # extra) = dec_nat ?g"
    using takeWhile_stop_at [of "dec_nat ?g" "\<lambda>c. c \<noteq> CHR '',''"] dec_nat_digits digit_no_sep by blast
  ultimately have gs: "takeWhile (\<lambda>c. c \<noteq> CHR '','') (drop (length ?c + 1) ?line) = dec_nat ?g" by simp
  have len: "\<not> 16 < length (dec_nat ?g)" using length_dec_nat_le [of ?g 10] g by simp
  have sign: "hd (dec_nat ?g) \<noteq> CHR ''-''" "hd (dec_nat ?g) \<noteq> CHR ''+''"
    using dec_nat_digits [of "hd (dec_nat ?g)" ?g] digit_no_sep by auto
  have num: "strtoul 10 (dec_nat ?g) = (?g, [])"
    using strtoul_dec_nat [of ?g "[]"] g by (simp add: ULONG_MAX_def)
  have "\<not> ?g > UINT_MAX" using g by (simp add: UINT_MAX_def)
  moreover have "?line \<noteq> []" by simp
  ultimately show ?thesis
    using c len sign
    by (simp only: sbat_entry_of_line_def Let_def gs num BYTHOS_SBAT_COMPONENT_NAME_MAX_def if_False
        prod.case simp_thms dec_nat_nonempty eq_commute [of ?c ?line]) simp
qed

lemma dec_no_end: "\<forall>c\<in>set (dec_nat n). \<not> sbat_line_end c"
  using dec_nat_digits digit_no_sep by blast

lemma comma_no_end: "\<not> sbat_line_end (CHR '','')"
  by (simp add: sbat_line_end_def)

lemma sbat_loop_line:
  assumes "sbat_entry_ok e" "sbat_extra_ok x" "0 < m"
  shows "sbat_loop m (sbat_line e x @ rest) = e # sbat_loop (m - 1) rest"
proof -
  let ?l = "sb_component e @ CHR '','' # dec_nat (unat (sb_generation e)) @ CHR '','' # x"
  have plain: "\<forall>c\<in>set ?l. \<not> sbat_line_end c"
    using assms(1,2) comma_no_end
    by (simp add: sbat_entry_ok_def sbat_extra_ok_def list_all_iff ball_Un dec_no_end)
  have t: "sbat_line e x @ rest = ?l @ LF # rest" by (simp add: sbat_line_def)
  have lf: "\<not> \<not> sbat_line_end LF" by (simp add: sbat_line_end_def)
  note tw = takeWhile_stop_at [of ?l "\<lambda>c. \<not> sbat_line_end c", OF plain lf, of rest]
  have "hd ?l \<in> set ?l" by (rule hd_in_set) simp
  with plain have "\<not> sbat_line_end (hd ?l)" by blast
  moreover have "hd (?l @ LF # rest) = hd ?l" by (rule hd_append2) simp
  ultimately have "hd (?l @ LF # rest) \<noteq> NUL" unfolding sbat_line_end_def by metis
  moreover have "?l @ LF # rest \<noteq> []" by simp
  moreover have "m \<noteq> 0" using assms(3) by simp
  ultimately have cond: "\<not> (?l @ LF # rest = [] \<or> m = 0 \<or> hd (?l @ LF # rest) = NUL)" by blast
  have adv: "sbat_next (?l @ LF # rest) = rest" by (simp only: sbat_next_def tw Let_def) simp
  show ?thesis
    unfolding t sbat_loop.simps [of m "?l @ LF # rest"] if_not_P [OF cond] tw [THEN conjunct1]
      sbat_entry_of_line_printed [OF assms(1)] option.case adv ..
qed

lemma sbat_loop_lines:
  "\<forall>(e, x)\<in>set es. sbat_entry_ok e \<and> sbat_extra_ok x \<Longrightarrow> pad = [] \<or> hd pad = NUL \<Longrightarrow>
     sbat_loop m (concat (map (\<lambda>(e, x). sbat_line e x) es) @ pad) = take m (map fst es)"
proof (induction es arbitrary: m)
  case Nil
  then show ?case by (subst sbat_loop.simps) auto
next
  case (Cons ex es)
  obtain e x where ex: "ex = (e, x)" by (cases ex)
  show ?case
  proof (cases m)
    case 0
    then show ?thesis by (subst sbat_loop.simps) simp
  next
    case (Suc k)
    with Cons ex show ?thesis by (simp add: sbat_loop_line)
  qed
qed

lemma sbat_loop_length: "length (sbat_loop m t) \<le> m"
proof (induction m t rule: sbat_loop.induct)
  case (1 m t)
  show ?case
  proof (cases "t = [] \<or> m = 0 \<or> hd t = NUL")
    case True
    then show ?thesis by (subst sbat_loop.simps) simp
  next
    case False
    with 1 show ?thesis by (subst sbat_loop.simps) (auto split: option.split)
  qed
qed

lemma sbat_entry_component: "sbat_entry_of_line l = Some e \<Longrightarrow> length (sb_component e) < 64"
  by (auto simp: sbat_entry_of_line_def Let_def BYTHOS_SBAT_COMPONENT_NAME_MAX_def not_le
      split: if_splits prod.splits)

lemma sbat_loop_component: "e \<in> set (sbat_loop m t) \<Longrightarrow> length (sb_component e) < 64"
proof (induction m t rule: sbat_loop.induct)
  case (1 m t)
  have ne: "\<not> (t = [] \<or> m = 0 \<or> hd t = NUL)"
    using "1.prems" by (simp add: sbat_loop.simps [of m t] split: if_splits)
  with "1.prems" show ?case
    using "1.IH" ne by (auto simp: sbat_loop.simps [of m t] sbat_entry_component split: option.splits)
qed

section \<open>Properties\<close>

text \<open>
  Claim C16: on any bytes the extractor reads only inside the image and writes only inside the
  caller's buffer; what it returns is a nonempty contiguous piece of the image.
\<close>

theorem pe_extract_memory_safe:
  "bythos_extract_pe_section bin name sz \<in>
     {Some None} \<union> {Some (Some d) | d. d \<noteq> [] \<and> length d \<le> sz \<and> sublist d bin}"
proof -
  obtain r where r: "pe_headers bin = Some r" "\<And>t n. r = Some (t, n) \<Longrightarrow> t + n * 40 \<le> length bin"
    using pe_headers_safe by blast
  show ?thesis
  proof (cases r)
    case None
    with r(1) show ?thesis by (simp add: bythos_extract_pe_section_def)
  next
    case (Some tn)
    obtain t n where tn: "tn = (t, n)" by (cases tn)
    with r(2) Some have "t + (0 + n) * 40 \<le> length bin" by simp
    then obtain q where q: "pe_sections bin t name sz 0 n = Some q" using pe_sections_safe by blast
    then have "q \<in> {None} \<union> {Some d | d. d \<noteq> [] \<and> length d \<le> sz \<and> sublist d bin}"
      using pe_sections_result by (cases q) auto
    with q r(1) Some tn show ?thesis by (auto simp: bythos_extract_pe_section_def)
  qed
qed

text \<open>
  Claim C17: an SBAT section printed as CSV, one entry per line with arbitrary trailing fields and
  NUL padding after it, parses back to its entries, the first \<open>m\<close> of them.
\<close>

theorem sbat_csv_roundtrip:
  assumes "\<forall>(e, x)\<in>set es. sbat_entry_ok e \<and> sbat_extra_ok x" and "pad = [] \<or> hd pad = NUL"
  shows "bythos_parse_sbat_csv (concat (map (\<lambda>(e, x). sbat_line e x) es) @ pad) m = take m (map fst es)"
  using sbat_loop_lines [OF assms] by (simp add: bythos_parse_sbat_csv_def)

theorem sbat_csv_roundtrip_witness:
  "bythos_parse_sbat_csv (concat (map (\<lambda>(e, x). sbat_line e x)
      [(\<lparr>sb_component = ''sbat'', sb_generation = 1\<rparr>, ''SBAT Version''),
       (\<lparr>sb_component = ''shim'', sb_generation = 4\<rparr>, ''UEFI shim'')]) @ [NUL, NUL]) 32
   = [\<lparr>sb_component = ''sbat'', sb_generation = 1\<rparr>, \<lparr>sb_component = ''shim'', sb_generation = 4\<rparr>]"
  using sbat_csv_roundtrip [of "[(\<lparr>sb_component = ''sbat'', sb_generation = 1\<rparr>, ''SBAT Version''),
       (\<lparr>sb_component = ''shim'', sb_generation = 4\<rparr>, ''UEFI shim'')]" "[NUL, NUL]" 32]
  by (simp add: sbat_entry_ok_def sbat_extra_ok_def sbat_line_end_def)

text \<open>
  Claim C18: whatever the text, at most \<open>m\<close> entries are written and every component name fits its
  buffer with its terminator.
\<close>

theorem sbat_csv_bounds:
  "length (bythos_parse_sbat_csv t m) \<le> m \<and>
   list_all (\<lambda>e. length (sb_component e) < BYTHOS_SBAT_COMPONENT_NAME_MAX) (bythos_parse_sbat_csv t m)"
  using sbat_loop_length sbat_loop_component
  by (auto simp: bythos_parse_sbat_csv_def list_all_iff BYTHOS_SBAT_COMPONENT_NAME_MAX_def)

end
