(* ===== verification/Spec2Isabelle.thy ===== *)
theory Spec2Isabelle
  imports FailRows HelperTrust BootChainProps StorageProps EfiBootEntry SiliconProps PeSbatProps
begin

text \<open>
  bythos: a firmware trust auditor for Linux, as a shallow embedding with its correctness.

  The program is one C11 binary. \<open>main.c\<close> reads the options, \<open>check_groups.c\<close> runs a table of ten
  subgroups, each a list of the 17 check functions of \<open>check_*.c\<close>; a check reads the system through
  \<open>runtime.c\<close> (files, directories, stat, device reads, trusted helper programs), hands the text or
  the bytes to a parser, and writes result rows into the subgroup's array; \<open>output.c\<close> counts the
  rows and prints them as text or JSON; the exit code is 1 when a row is a FAIL.

  How the model reads the code.
  The operating system is the record \<open>env\<close> of \<open>Runtime\<close>: what stat, lstat, access, a file, a
  directory, a device read, an inode flag query and the run of a helper give. One run sees one
  such system, so a check is a function of it, and its rows are a list. A file is its bytes and
  whether the read ends in an error; a helper is the sequence of chunks its reads return, whether
  the alarm fired, and how it was reaped. A C string is a list of characters without NUL, an
  array with its used count is a list, a pointer into a text is a suffix of it, a fixed width
  integer is a word, and a function that returns false or NULL returns an option. In the parsers
  of binary data a read or a copy outside its buffer is None of an outer option, and memory
  safety is the theorem that it does not happen. The EMIT macros are a guarded append
  (\<open>emit\<close> of \<open>CheckTypes\<close>), so that every check takes the room it is offered.

  The theories, in the order of their imports.
  \<^item> \<open>Prelude\<close>: bytes, C strings and the functions of the C library that are called
    (\<open>strstr\<close>, \<open>strtoul\<close>, \<open>snprintf\<close>, \<open>ctype.h\<close>), with the lemmas every component uses.
  \<^item> \<open>CheckTypes\<close>: \<open>include/types.h\<close>, \<open>include/checks_internal.h\<close>: states, typed skip reasons, rows, the
    constructors and macros; the interface \<open>check_fn\<close>, the contract of a check function (it
    delivers a prefix of its rows, as many as fit; there is at least one and at most the stated
    number; each is well formed). It is interpreted on all 17 checks.
  \<^item> \<open>Runtime\<close>, \<open>Process\<close>: \<open>runtime.c\<close>: strings, lookup of helpers on the trusted path, files, mount table,
    key files; capture of a helper's output, service probe, ESP base.
  \<^item> \<open>Bytes\<close>: checked reads and little-endian words, with the inverse encoders.
  \<^item> \<open>EfiBootParsers\<close>, \<open>EfiBootProps\<close>, \<open>EfiBootEntry\<close>: \<open>efi_boot_parsers.c\<close>.
  \<^item> \<open>SiliconParsers\<close>, \<open>SiliconProps\<close>: \<open>silicon_parsers.c\<close>.
  \<^item> \<open>StorageParsers\<close>, \<open>StorageProps\<close>: \<open>storage_parsers.c\<close>.
  \<^item> \<open>EspParsers\<close>: \<open>esp_parsers.c\<close>.
  \<^item> \<open>FirmwareParsers\<close>, \<open>PeSbat\<close>, \<open>PeSbatProps\<close>, \<open>HsiParsers\<close>: \<open>firmware_parsers.c\<close>: text parsers, PE sections and
    SBAT, the scanner of the fwupd report.
  \<^item> \<open>ChecksPlatform\<close> (IOMMU, DCI, chipsec, Thunderbolt, EFI, ME, memory encryption, microcode, BIOS_CNTL),
    \<open>ChecksTpm\<close> (TPM, sbctl), \<open>LuksCheck\<close>, \<open>BiosBootCheck\<close>, \<open>EspCheck\<close>, \<open>SecurebootCheck\<close> (with \<open>firmware_ownership.c\<close>),
    \<open>BootChainCheck\<close>, \<open>FwupdCheck\<close>: the checks, one group of definitions per C function: the rows it has
    to say, the function itself, and the interpretation of \<open>check_fn\<close>.
  \<^item> \<open>BoundedAppend\<close>: the interface of the appends that add a piece whole or not at all.
  \<^item> \<open>BootChainProps\<close>: what an OK row of the boot chain check means.
  \<^item> \<open>Output\<close>: \<open>output.c\<close>: names, counters, JSON and plain text. \<open>Utf8\<close> and \<open>JsonDoc\<close> hold its abstract side,
    the encodings of Unicode scalar values, JSON values and a reader of them.
  \<^item> \<open>CheckGroups\<close>: \<open>check_groups.c\<close>, with the interface \<open>subgroup_checks\<close> (a list of checks that keep the
    contract) and its interpretation on each of the ten subgroups; \<open>report\<close> is the list of rows a
    run should give.
  \<^item> \<open>MainProgram\<close>: \<open>main.c\<close>, from the arguments to the output and the exit code.
  \<^item> \<open>FailRows\<close>: which rows can be a FAIL. \<open>HelperTrust\<close>: what untrusted helpers cannot change.

  What the lemmas show.
  For the program (this theory): the report is complete and its counters are exact (C1), the exit
  code says whether a row is a FAIL (C2), five facts and no others make one (C3), a summary has
  the worst state of its rows (C4), any other command line runs no check (C5), helpers that do
  not count as present change nothing (C22).
  For the runtime: which helper counts as present (C6), the captured text is exactly a prefix of
  the output with an exact truncation flag (C7).
  For the parsers: no read leaves its buffer on any input (C8, C16); what encoders and printers
  written after the formats produce is read back (C9, C10, C13, C14, C17, C25); the accepted
  texts are characterised (C11, C12, C15, C18).
  For verdicts: an OK row for /boot is sound at any depth (C23), the SBAT verdict compares with
  the strictest minimum (C24).
  For the output: the JSON document reads back as the intended value whatever bytes the rows hold
  (C19), strings are lossless on UTF-8 (C20), the byte table is the one of Unicode (C21).
  Expected values are stated apart from the code: tables of the UEFI specification for node
  types, counts by state for summaries, an independent JSON reader and UTF-8 encoder.

  Bounds. A subgroup keeps 32 rows in an array of 33 slots; no check has more than 27 and no
  subgroup more than 27 rows, so nothing is cut (C1). BootOrder keeps 32 entries, a description
  127 characters and a file path 255; SBAT keeps 32 components. The loops over texts and bytes
  terminate by the length that is left, the walk below /boot by its depth of 3; the reader of JSON
  values takes the length of its text as fuel, which is enough because every value takes at
  least one character, and C19 shows the result, not only its absence of errors.

  Not modelled: the tests under \<open>tests/\<close> and the Makefile; the test-only override of the trusted
  path; the child's side of a fork (\<open>dup2\<close>, \<open>setenv\<close>, \<open>execvp\<close>) and the alarm handler, whose effect is the
  helper record of the environment; failure of \<open>malloc\<close> and \<open>strdup\<close>; changes of the system during a run.
  A helper is looked up once for the test and again by \<open>execvp\<close>, as the code itself notes: C6 and
  C22 speak of the test, not of the file that is finally run.
\<close>

section \<open>What a run of the program guarantees\<close>

text \<open>
  Claim C1: on every system the firmware check delivers exactly the ten subgroups of the table,
  in its order; each holds every row its checks have to say, in the order of the checks, none
  is ever truncated, no index leaves its array of 33 slots, and the four counters of its summary
  are the numbers of its OK, WARN, FAIL and SKIP rows. Every row is well formed: its detail fits
  the buffer and a typed skip reason is present exactly on SKIP rows.
\<close>

theorem firmware_report_complete:
  "bythos_check_firmware e BYTHOS_MAX_GROUP_SUBGROUPS =
     map (\<lambda>(name, rows). \<lparr>sg_name = name, sg_results = rows, sg_truncated = False,
       sg_summary = \<lparr>ok_count = state_count CHECK_OK rows, warn_count = state_count CHECK_WARN rows,
         fail_count = state_count CHECK_FAIL rows, skip_count = state_count CHECK_SKIP rows\<rparr>\<rparr>) (report e)
   \<and> list_all (\<lambda>nr. length (snd nr) \<le> BYTHOS_MAX_SUBGROUP_RESULTS \<and> snd nr \<noteq> []
        \<and> list_all wf_row (snd nr)) (report e)"
proof -
  have "list_all (\<lambda>nr. length (snd nr) \<le> BYTHOS_MAX_SUBGROUP_RESULTS) (report e)" by (rule report_fits)
  moreover have "list_all (\<lambda>nr. snd nr \<noteq> []) (report e)" by (rule report_nonempty)
  moreover have "list_all (\<lambda>nr. list_all wf_row (snd nr)) (report e)" by (rule report_wf)
  moreover have "subgroup_of = (\<lambda>(name, rows). \<lparr>sg_name = name, sg_results = rows, sg_truncated = False,
      sg_summary = \<lparr>ok_count = state_count CHECK_OK rows, warn_count = state_count CHECK_WARN rows,
        fail_count = state_count CHECK_FAIL rows, skip_count = state_count CHECK_SKIP rows\<rparr>\<rparr>)"
    by (simp add: fun_eq_iff subgroup_of_def summary_of_def)
  ultimately show ?thesis by (simp add: check_firmware_report list_all_iff)
qed

text \<open>
  Claim C2: with options that only ask for JSON (or none) and no operand, the program exits with
  1 exactly when some row of the report is a FAIL, and with 0 otherwise; the mode of the output
  does not matter.
\<close>

theorem exit_code_iff_fail:
  assumes "getopt_codes posixly args = (codes, 0)" "list_all (\<lambda>c. c = CHR ''j'') codes"
  shows "snd (bythos_main t e posixly argv0 args) =
     (if CHECK_FAIL \<in> r_state ` set (report_rows e) then 1 else 0)"
proof -
  have "\<exists>m'. option_loop argv0 codes m = Inr m'" for m
    using assms(2) by (induction codes arbitrary: m) auto
  then obtain m' where "option_loop argv0 codes RENDER_PLAIN = Inr m'" by blast
  with assms(1) show ?thesis by (simp add: bythos_main_def run_report_exit)
qed

text \<open>
  Claim C5: any other command line runs no check: the output and the code depend on the arguments
  alone, an unknown option or an operand gives the usage text and 2, and help and version give 0.
\<close>

theorem usage_runs_no_check:
  assumes "getopt_codes posixly args = (codes, n)" "0 < n \<or> \<not> list_all (\<lambda>c. c = CHR ''j'') codes"
  shows "bythos_main t e posixly argv0 args =
     (case find (\<lambda>c. c \<noteq> CHR ''j'') codes of
        None \<Rightarrow> (usage argv0, 2)
      | Some c \<Rightarrow> if c = CHR ''h'' then (usage argv0, 0)
                  else if c = CHR ''V'' then (''bythos '' @ BYTHOS_VERSION @ [LF], 0)
                  else (usage argv0, 2))"
proof -
  have loop: "option_loop argv0 codes m =
     (case find (\<lambda>c. c \<noteq> CHR ''j'') codes of
        None \<Rightarrow> Inr (if codes = [] then m else RENDER_JSON)
      | Some c \<Rightarrow> Inl (if c = CHR ''h'' then (usage argv0, 0)
                  else if c = CHR ''V'' then (''bythos '' @ BYTHOS_VERSION @ [LF], 0)
                  else (usage argv0, 2)))" for m
    by (induction codes arbitrary: m) (auto simp: BYTHOS_EXIT_USAGE_def split: option.split)
  have "find (\<lambda>c. c \<noteq> CHR ''j'') codes = None \<longleftrightarrow> list_all (\<lambda>c. c = CHR ''j'') codes"
    by (auto simp: find_None_iff list_all_iff)
  with assms loop [of RENDER_PLAIN] show ?thesis
    by (auto simp: bythos_main_def BYTHOS_EXIT_USAGE_def split: option.splits)
qed

text \<open>
  Claim C4: the overall summary of a run and the summary of each subgroup carry the worst state
  that occurs in their rows, in the order SKIP, OK, WARN, FAIL.
\<close>

theorem overall_state_is_worst:
  "bythos_summary_state (merge_summaries (bythos_check_firmware e BYTHOS_MAX_GROUP_SUBGROUPS))
     = Max (r_state ` set (report_rows e))
   \<and> list_all (\<lambda>sg. bythos_summary_state (sg_summary sg) = Max (r_state ` set (sg_results sg)))
       (bythos_check_firmware e BYTHOS_MAX_GROUP_SUBGROUPS)"
proof -
  have ne: "list_all (\<lambda>nr. snd nr \<noteq> []) (report e)" by (rule report_nonempty)
  then have "report_rows e \<noteq> []" by (simp add: report_rows_def report_def)
  with ne show ?thesis
    unfolding overall_summary
    by (simp add: check_firmware_report summary_state_worst list_all_iff subgroup_of_def)
qed

text \<open>
  Claim C3: exactly five facts can fail a system. Some row of the report is a FAIL if and only if
  the kernel command line disables the IOMMU or asks for passthrough, or the Intel debug interface
  has its enable bit set, or Secure Boot is off, or shim validates nothing, or the shim found is
  not signed. No other row of the 17 checks is ever a FAIL, so nothing else makes the program
  exit with 1.
\<close>

theorem report_fails_iff:
  "CHECK_FAIL \<in> r_state ` set (report_rows e) \<longleftrightarrow>
     iommu_fails e \<or> dci_fails e \<or> sbp_state (secure_boot_probe e) = SECURE_BOOT_DISABLED \<or>
     shim_validation_fails e \<or> shim_signature_fails e"
  using list_all_no_fail [of "report_rows e"]
  unfolding report_fail_iff iommu_fail_iff dci_fail_iff sb_state_fail_iff shim_validation_fail_iff
    shim_signature_fail_iff by blast

text \<open>
  Claim C22: a helper that does not count as present has no say. Whatever the helpers that
  fail the test of the trusted path would answer instead (\<open>mute other e\<close> is the system \<open>e\<close> with the
  answers of those helpers, and no others, replaced by \<open>other\<close>), the subgroups, the output and the
  exit code of a run are the same. A check that used a tool without the test of that tool would
  break this.
\<close>

theorem untrusted_helpers_have_no_say:
  "bythos_check_firmware (mute other e) BYTHOS_MAX_GROUP_SUBGROUPS
     = bythos_check_firmware e BYTHOS_MAX_GROUP_SUBGROUPS \<and>
   bythos_main t (mute other e) posixly argv0 args = bythos_main t e posixly argv0 args"
proof -
  have "bythos_check_firmware (mute other e) BYTHOS_MAX_GROUP_SUBGROUPS
      = bythos_check_firmware e BYTHOS_MAX_GROUP_SUBGROUPS"
    by (simp add: check_firmware_report mute)
  moreover from this have "run_report t (mute other e) = run_report t e"
    by (simp add: fun_eq_iff run_report_def)
  ultimately show ?thesis by (simp add: bythos_main_def split: prod.split sum.split)
qed

section \<open>Runs\<close>

text \<open>A system whose firmware says that Secure Boot is off; nothing else is there.\<close>

definition sb_off_env :: env where
  "sb_off_env = demo_env\<lparr>env_file := (\<lambda>p. if p = EFI_SB_STATE_PATH
      then Opened [CHR 0x06, NUL, NUL, NUL, NUL] False else OpenFails)\<rparr>"

definition dumb_terminal :: terminal where
  "dumb_terminal = \<lparr>term_getenv = (\<lambda>_. None), term_isatty = False\<rparr>"

lemma sb_off: "sbp_row (secure_boot_probe sb_off_env) = row ''secure boot state'' CHECK_FAIL ''Secure Boot disabled''"
proof -
  have "read_efi_bool_var sb_off_env EFI_SB_STATE_PATH = Some False"
    by (simp add: read_efi_bool_var_def bythos_read_file_binary_def bythos_read_file_binary_ex_def sb_off_env_def
        c_fread_def bythos_parse_efi_bool_var_def EFI_VAR_ATTR_SIZE_def rd_def byte_val_def)
  then show ?thesis by (simp add: secure_boot_probe_def Let_def)
qed

theorem exit_code_iff_fail_witness: "snd (bythos_main dumb_terminal sb_off_env False ''bythos'' [''-j'']) = 1"
proof -
  have "CHECK_FAIL \<in> r_state ` set (report_rows sb_off_env)"
    using report_fail_iff [of sb_off_env] list_all_no_fail [of "report_rows sb_off_env"]
    by (simp add: sb_off no_fail_def)
  then show ?thesis
    using exit_code_iff_fail [of False "[''-j'']" "''j''" dumb_terminal sb_off_env "''bythos''"]
    by (simp add: short_code_def)
qed

theorem usage_runs_no_check_witness:
  "snd (bythos_main dumb_terminal sb_off_env False ''bythos'' [''--vers'']) = 0
   \<and> snd (bythos_main dumb_terminal sb_off_env False ''bythos'' [''-x'']) = 2"
  using usage_runs_no_check [of False "[''--vers'']" "''V''" 0 dumb_terminal sb_off_env "''bythos''"]
    usage_runs_no_check [of False "[''-x'']" "''?''" 0 dumb_terminal sb_off_env "''bythos''"]
  by (simp add: long_code_def short_code_def long_options_def)

end
